(* ===== verification/Rk_Base.thy ===== *)
theory Rk_Base
  imports Main "HOL-Library.Word"
begin

text \<open>
  Prelude of the development: the types every component shares (Go byte slices and
  strings, Go errors, results of fallible calls, 64-bit integers), the byte orders of
  \<^verbatim>\<open>encoding/binary\<close>, association lists as Go maps, and the generic lemmas on them.
  A Go \<^verbatim>\<open>string\<close> and a \<^verbatim>\<open>[]byte\<close> buffer are both \<^typ>\<open>string\<close> (lists of 8-bit
  characters). An error value keeps the format string of the source and its arguments;
  \<open>Wrapf\<close> is the form with the verb \<^verbatim>\<open>%w\<close>, \<open>Sys\<close> an error of the kernel or
  of the standard library, known by its text, \<open>WaitErr\<close> the error of an exited process with its
  text and wait status.
\<close>

named_theorems go_simps \<open>equations of the Go standard library models\<close>

section \<open>Errors and results\<close>

datatype err =
    Errorf string "string list"
  | Wrapf string "string list" err
  | Sys string
  | WaitErr string int

type_synonym 'a res = "err + 'a"

abbreviation New :: "string \<Rightarrow> err" where
  "New s \<equiv> Errorf s []"

text \<open>
  \<^verbatim>\<open>strconv.Quote\<close> on printable text without quotes or backslashes.
\<close>

definition quote :: "string \<Rightarrow> string" where
  "quote s = [CHR 0x22] @ s @ [CHR 0x22]"

text \<open>
  The text of a message: the verbs of \<^verbatim>\<open>fmt\<close> replaced by the arguments in order. The
  verb \<^verbatim>\<open>%+v\<close> is three characters, every other verb used by the program is two.
\<close>

fun render :: "string \<Rightarrow> string list \<Rightarrow> string" where
  "render [] args = []"
| "render (c # cs) args =
     (if c = CHR ''%'' then
        (case args of
           [] \<Rightarrow> c # render cs []
         | a # as \<Rightarrow>
             (case cs of
                [] \<Rightarrow> [c]
              | v # cs' \<Rightarrow>
                  if v = CHR ''q'' then quote a @ render cs' as
                  else if v = CHR ''+'' then a @ render (drop 1 cs') as
                  else a @ render cs' as))
      else c # render cs args)"

primrec err_text :: "err \<Rightarrow> string" where
  "err_text (Errorf f args) = render f args"
| "err_text (Wrapf f args e) = render f (args @ [err_text e])"
| "err_text (Sys s) = s"
| "err_text (WaitErr s ws) = s"

primrec errors_Unwrap :: "err \<Rightarrow> err option" where
  "errors_Unwrap (Errorf f args) = None"
| "errors_Unwrap (Wrapf f args e) = Some e"
| "errors_Unwrap (Sys s) = None"
| "errors_Unwrap (WaitErr s ws) = None"

text \<open>The chain that \<^verbatim>\<open>errors.Is\<close> walks.\<close>

primrec errors_Is :: "err \<Rightarrow> err \<Rightarrow> bool" where
  "errors_Is (Errorf f args) t = (Errorf f args = t)"
| "errors_Is (Wrapf f args e) t = (Wrapf f args e = t \<or> errors_Is e t)"
| "errors_Is (Sys s) t = (Sys s = t)"
| "errors_Is (WaitErr s ws) t = (WaitErr s ws = t)"

section \<open>Machine integers\<close>

text \<open>Go's \<^verbatim>\<open>int\<close> is 64 bits wide on every platform the program supports: arithmetic on it wraps.\<close>

definition int64_ok :: "int \<Rightarrow> bool" where
  "int64_ok i \<longleftrightarrow> - (2 ^ 63) \<le> i \<and> i < 2 ^ 63"

definition wrap64 :: "int \<Rightarrow> int" where
  "wrap64 i = (i + 2 ^ 63) mod 2 ^ 64 - 2 ^ 63"

lemma wrap64_id [simp]: "int64_ok i \<Longrightarrow> wrap64 i = i"
  by (simp add: wrap64_def int64_ok_def)

lemma wrap64_ok [simp]: "int64_ok (wrap64 i)"
  by (simp add: wrap64_def int64_ok_def)

section \<open>Byte orders\<close>

fun le_bytes :: "nat \<Rightarrow> nat \<Rightarrow> string" where
  "le_bytes 0 n = []"
| "le_bytes (Suc k) n = char_of n # le_bytes k (n div 256)"

fun le_nat :: "string \<Rightarrow> nat" where
  "le_nat [] = 0"
| "le_nat (c # cs) = of_char c + 256 * le_nat cs"

lemma of_char_less [simp]: "(of_char c :: nat) < 256"
  by (metis mod_less_divisor of_char_mod_256 zero_less_numeral)

lemma length_le_bytes [simp]: "length (le_bytes k n) = k"
  by (induction k arbitrary: n) auto

lemma le_nat_le_bytes: "le_nat (le_bytes k n) = n mod 256 ^ k"
proof (induction k arbitrary: n)
  case 0
  show ?case by simp
next
  case (Suc k)
  have "n mod 256 ^ Suc k = n mod 256 + 256 * (n div 256 mod 256 ^ k)"
    by (simp add: mod_mult2_eq)
  then show ?case by (simp add: Suc.IH)
qed

lemma byte_plus_bound: "(a :: nat) < 256 \<Longrightarrow> b < k \<Longrightarrow> a + 256 * b < 256 * k"
  by arith

lemma le_nat_bound: "le_nat cs < 256 ^ length cs"
  by (induction cs) (simp_all add: byte_plus_bound)

lemma le_bytes_le_nat: "length cs = k \<Longrightarrow> le_bytes k (le_nat cs) = cs"
proof (induction cs arbitrary: k)
  case Nil
  then show ?case by simp
next
  case (Cons c cs)
  then obtain j where k: "k = Suc j" and j: "length cs = j" by (cases k) auto
  have c: "(of_char c :: nat) < 256" by simp
  have "(of_char c + 256 * le_nat cs) div 256 = le_nat cs"
    using c by simp
  moreover have "char_of (of_char c + 256 * le_nat cs) = c"
    using c by (simp add: char_of_eq_iff take_bit_eq_mod)
  ultimately show ?case using Cons.IH [OF j] k by simp
qed

section \<open>Go maps as association lists\<close>

text \<open>
  A Go map is a list of entries with distinct keys. Go ranges over a map in an
  unspecified order, so the order of the list is one possible order and no theorem
  depends on which. Reading a missing key gives \<^const>\<open>None\<close>, storing replaces, deleting
  a missing key does nothing.
\<close>

definition keys :: "('k \<times> 'v) list \<Rightarrow> 'k list" where
  "keys m = map fst m"

definition wf_map :: "('k \<times> 'v) list \<Rightarrow> bool" where
  "wf_map m \<longleftrightarrow> distinct (keys m)"

fun map_put :: "'k \<Rightarrow> 'v \<Rightarrow> ('k \<times> 'v) list \<Rightarrow> ('k \<times> 'v) list" where
  "map_put k v [] = [(k, v)]"
| "map_put k v ((k', v') # m) = (if k' = k then (k, v) # m else (k', v') # map_put k v m)"

definition map_del :: "'k \<Rightarrow> ('k \<times> 'v) list \<Rightarrow> ('k \<times> 'v) list" where
  "map_del k m = filter (\<lambda>p. fst p \<noteq> k) m"

lemma map_of_put [simp]: "map_of (map_put k v m) = (map_of m)(k \<mapsto> v)"
  by (induction m) auto

lemma map_of_del [simp]: "map_of (map_del k m) = (map_of m)(k := None)"
  by (induction m) (auto simp: map_del_def fun_eq_iff)

lemma set_keys_put [simp]: "set (keys (map_put k v m)) = insert k (set (keys m))"
  by (induction k v m rule: map_put.induct) (simp_all add: keys_def insert_commute)

lemma set_keys_del [simp]: "set (keys (map_del k m)) = set (keys m) - {k}"
  by (auto simp: map_del_def keys_def)

lemma wf_map_Nil [simp]: "wf_map []"
  by (simp add: wf_map_def keys_def)

lemma wf_map_put [simp]: "wf_map m \<Longrightarrow> wf_map (map_put k v m)"
proof (induction m)
  case Nil
  then show ?case by (simp add: wf_map_def keys_def)
next
  case (Cons p m)
  then show ?case
    using set_keys_put [of k v m]
    by (cases p) (auto simp: wf_map_def keys_def)
qed

lemma wf_map_del [simp]: "wf_map m \<Longrightarrow> wf_map (map_del k m)"
  by (simp add: wf_map_def map_del_def keys_def distinct_map_filter)

lemma map_of_None_keys: "map_of m k = None \<longleftrightarrow> k \<notin> set (keys m)"
  by (simp add: map_of_eq_None_iff keys_def)

lemma wf_map_in_set: "wf_map m \<Longrightarrow> (k, v) \<in> set m \<longleftrightarrow> map_of m k = Some v"
  by (simp add: wf_map_def keys_def)

lemma wf_map_set: "wf_map m \<Longrightarrow> set m = {(k, v). map_of m k = Some v}"
  by (auto simp: wf_map_in_set)

lemma map_put_fresh: "k \<notin> set (keys m) \<Longrightarrow> map_put k v m = m @ [(k, v)]"
  by (induction m) (auto simp: keys_def)

lemma set_map_put_fresh: "k \<notin> set (keys m) \<Longrightarrow> set (map_put k v m) = insert (k, v) (set m)"
  by (simp add: map_put_fresh)

lemma set_map_del: "p \<in> set (map_del k m) \<longleftrightarrow> p \<in> set m \<and> fst p \<noteq> k"
  by (simp add: map_del_def)

lemma map_del_fresh: "k \<notin> set (keys m) \<Longrightarrow> map_del k m = m"
  by (induction m) (auto simp: keys_def map_del_def)

lemma map_del_put_fresh: "k \<notin> set (keys m) \<Longrightarrow> map_del k (map_put k v m) = m"
  by (simp add: map_put_fresh map_del_def)
    (metis (mono_tags, lifting) filter_True fst_conv image_eqI keys_def list.set_map)

end
