(* ===== verification/Go_Strings.thy ===== *)
theory Go_Strings
  imports Rk_Base
begin

text \<open>
  The parts of Go's packages \<^verbatim>\<open>strings\<close>, \<^verbatim>\<open>strconv\<close>, \<^verbatim>\<open>bufio\<close> and
  \<^verbatim>\<open>path/filepath\<close> that the program calls, on byte strings. White space is the ASCII
  white space of \<^verbatim>\<open>unicode.IsSpace\<close>. \<open>strconv_Atoi\<close> follows \<^verbatim>\<open>ParseInt\<close> with base 10
  and 64 bits: an optional sign, digits only, a syntax error at the first bad byte, a range
  error as soon as the value leaves the range. Its round trip with \<open>strconv_Itoa\<close> is what
  the REST client, the id maps and the port specifications rest on.
\<close>

section \<open>strings\<close>

definition HasPrefix :: "string \<Rightarrow> string \<Rightarrow> bool" where
  "HasPrefix s p \<longleftrightarrow> take (length p) s = p"

definition HasSuffix :: "string \<Rightarrow> string \<Rightarrow> bool" where
  "HasSuffix s p \<longleftrightarrow> HasPrefix (rev s) (rev p)"

definition TrimPrefix :: "string \<Rightarrow> string \<Rightarrow> string" where
  "TrimPrefix s p = (if HasPrefix s p then drop (length p) s else s)"

definition TrimSuffix :: "string \<Rightarrow> string \<Rightarrow> string" where
  "TrimSuffix s p = (if HasSuffix s p then take (length s - length p) s else s)"

fun Contains :: "string \<Rightarrow> string \<Rightarrow> bool" where
  "Contains [] sub = (sub = [])"
| "Contains (c # cs) sub = (HasPrefix (c # cs) sub \<or> Contains cs sub)"

text \<open>\<^verbatim>\<open>strings.LastIndex\<close> for a one-byte needle; \<^const>\<open>None\<close> stands for -1.\<close>

fun LastIndex :: "string \<Rightarrow> char \<Rightarrow> nat option" where
  "LastIndex [] c = None"
| "LastIndex (x # xs) c =
     (case LastIndex xs c of Some i \<Rightarrow> Some (Suc i) | None \<Rightarrow> if x = c then Some 0 else None)"

text \<open>\<^verbatim>\<open>strings.Split\<close> for a one-byte separator: never empty, keeps empty fields.\<close>

fun Split :: "string \<Rightarrow> char \<Rightarrow> string list" where
  "Split [] c = [[]]"
| "Split (x # xs) c =
     (if x = c then [] # Split xs c
      else (case Split xs c of [] \<Rightarrow> [[x]] | f # fs \<Rightarrow> (x # f) # fs))"

fun Join :: "string list \<Rightarrow> string \<Rightarrow> string" where
  "Join [] sep = []"
| "Join [s] sep = s"
| "Join (s # ss) sep = s @ sep @ Join ss sep"

definition is_space :: "char \<Rightarrow> bool" where
  "is_space c \<longleftrightarrow> c \<in> {CHR '' '', CHR 0x09, CHR 0x0A, CHR 0x0B, CHR 0x0C, CHR 0x0D}"

definition TrimSpace :: "string \<Rightarrow> string" where
  "TrimSpace s = rev (dropWhile is_space (rev (dropWhile is_space s)))"

text \<open>\<^verbatim>\<open>strings.Fields\<close>: the maximal runs of non-space bytes.\<close>

function Fields :: "string \<Rightarrow> string list" where
  "Fields s =
     (let t = dropWhile is_space s
      in if t = [] then []
         else takeWhile (\<lambda>c. \<not> is_space c) t # Fields (dropWhile (\<lambda>c. \<not> is_space c) t))"
  by pat_completeness auto
termination
proof (relation "measure length", goal_cases)
  case 1
  show ?case by simp
next
  case (2 s t)
  from 2(2) obtain c cs where t: "t = c # cs" by (cases t) auto
  have "\<not> is_space c"
    using 2(1) t by (metis hd_dropWhile list.sel(1) list.distinct(1))
  then have "length (dropWhile (\<lambda>c. \<not> is_space c) t) \<le> length cs"
    using t by (simp add: length_dropWhile_le)
  also have "length cs < length t" using t by simp
  also have "length t \<le> length s" using 2(1) by (simp add: length_dropWhile_le)
  finally show ?case by simp
qed

declare Fields.simps [simp del]

definition ToLower_char :: "char \<Rightarrow> char" where
  "ToLower_char c = (if c \<in> set ''ABCDEFGHIJKLMNOPQRSTUVWXYZ'' then char_of (of_char c + 32 :: nat) else c)"

lemma HasPrefix_append [simp]: "HasPrefix (p @ s) p"
  by (simp add: HasPrefix_def)

lemma HasPrefixE: "HasPrefix s p \<Longrightarrow> \<exists>t. s = p @ t"
  by (metis HasPrefix_def append_take_drop_id)

lemma HasPrefix_Nil [simp]: "HasPrefix s []"
  by (simp add: HasPrefix_def)

lemma HasPrefix_Cons [simp]: "HasPrefix (c # s) (d # p) \<longleftrightarrow> c = d \<and> HasPrefix s p"
  by (auto simp: HasPrefix_def)

lemma HasPrefix_empty [simp]: "HasPrefix [] (d # p) \<longleftrightarrow> False"
  by (simp add: HasPrefix_def)

lemma TrimPrefix_append [simp]: "TrimPrefix (p @ s) p = s"
  by (simp add: TrimPrefix_def)

lemma HasSuffix_append [simp]: "HasSuffix (s @ p) p"
  by (simp add: HasSuffix_def)

lemma HasSuffixE: "HasSuffix s p \<Longrightarrow> \<exists>t. s = t @ p"
  by (metis HasPrefixE HasSuffix_def rev_append rev_rev_ident)

lemma TrimSuffix_append [simp]: "TrimSuffix (s @ p) p = s"
  by (simp add: TrimSuffix_def)

lemma Split_not_Nil [simp]: "Split s c \<noteq> []"
  by (cases s) (auto split: list.splits)

lemma Split_no_sep: "c \<notin> set s \<Longrightarrow> Split s c = [s]"
  by (induction s) auto

lemma Split_append: "c \<notin> set s \<Longrightarrow> Split (s @ c # t) c = s # Split t c"
  by (induction s) auto

lemma Split_fields_no_sep: "f \<in> set (Split s c) \<Longrightarrow> c \<notin> set f"
  by (induction s arbitrary: f) (auto split: if_splits list.splits)

lemma Split_Join: "Join (Split s c) [c] = s"
proof (induction s)
  case Nil
  show ?case by simp
next
  case (Cons x xs)
  obtain f fs where "Split xs c = f # fs" by (cases "Split xs c") auto
  with Cons.IH show ?case by (cases fs) auto
qed

lemma LastIndex_None [simp]: "LastIndex s c = None \<longleftrightarrow> c \<notin> set s"
  by (induction s) (auto split: option.splits)

lemma LastIndex_append: "c \<notin> set t \<Longrightarrow> LastIndex (s @ c # t) c = Some (length s)"
  by (induction s) (simp_all add: LastIndex_None [THEN iffD2])

lemma LastIndex_Some: "LastIndex s c = Some i \<Longrightarrow> i < length s \<and> s ! i = c \<and> c \<notin> set (drop (Suc i) s)"
  by (induction s arbitrary: i) (auto split: option.splits if_splits)

lemma LastIndex_split: "LastIndex s c = Some i \<Longrightarrow> s = take i s @ c # drop (Suc i) s"
  by (metis Cons_nth_drop_Suc LastIndex_Some append_take_drop_id)

lemma Contains_single: "Contains s [c] \<longleftrightarrow> c \<in> set s"
  by (induction s) auto

section \<open>strconv\<close>

definition digit_char :: "int \<Rightarrow> char" where
  "digit_char d = char_of (48 + d)"

definition is_digit :: "char \<Rightarrow> bool" where
  "is_digit c \<longleftrightarrow> (let n = (of_char c :: int) in 48 \<le> n \<and> n \<le> 57)"

definition digit_val :: "char \<Rightarrow> int" where
  "digit_val c = of_char c - 48"

function digits_of :: "int \<Rightarrow> string" where
  "digits_of n = (if n < 10 then [digit_char n] else digits_of (n div 10) @ [digit_char (n mod 10)])"
  by pat_completeness auto
termination
  by (relation "measure nat") auto

declare digits_of.simps [simp del]

definition strconv_Itoa :: "int \<Rightarrow> string" where
  "strconv_Itoa i = (if i < 0 then CHR ''-'' # digits_of (- i) else digits_of i)"

definition ErrSyntax :: err where
  "ErrSyntax = Sys ''invalid syntax''"

definition ErrRange :: err where
  "ErrRange = Sys ''value out of range''"

text \<open>The loop of \<^verbatim>\<open>strconv.ParseUint\<close> with base 10 and 64 bits.\<close>

fun parse_uint :: "int \<Rightarrow> string \<Rightarrow> int res" where
  "parse_uint n [] = Inr n"
| "parse_uint n (c # cs) =
     (if \<not> is_digit c then Inl ErrSyntax
      else (let m = n * 10 + digit_val c in
            if 2 ^ 64 \<le> m then Inl ErrRange else parse_uint m cs))"

definition strconv_Atoi :: "string \<Rightarrow> int res" where
  "strconv_Atoi s =
     (let neg = (s \<noteq> [] \<and> hd s = CHR ''-'');
          ds = (if s \<noteq> [] \<and> (hd s = CHR ''-'' \<or> hd s = CHR ''+'') then tl s else s)
      in if ds = [] then Inl ErrSyntax
         else (case parse_uint 0 ds of
                 Inl e \<Rightarrow> Inl e
               | Inr un \<Rightarrow>
                   if \<not> neg \<and> 2 ^ 63 \<le> un then Inl ErrRange
                   else if neg \<and> 2 ^ 63 < un then Inl ErrRange
                   else Inr (if neg then - un else un)))"

definition strconv_ParseBool :: "string \<Rightarrow> bool res" where
  "strconv_ParseBool s =
     (if s \<in> {''1'', ''t'', ''T'', ''true'', ''TRUE'', ''True''} then Inr True
      else if s \<in> {''0'', ''f'', ''F'', ''false'', ''FALSE'', ''False''} then Inr False
      else Inl ErrSyntax)"

definition strconv_FormatBool :: "bool \<Rightarrow> string" where
  "strconv_FormatBool b = (if b then ''true'' else ''false'')"

lemma is_digit_char [simp]: "0 \<le> d \<Longrightarrow> d < 10 \<Longrightarrow> is_digit (digit_char d)"
  by (simp add: is_digit_def digit_char_def of_char_of)

lemma digit_val_char [simp]: "0 \<le> d \<Longrightarrow> d < 10 \<Longrightarrow> digit_val (digit_char d) = d"
  by (simp add: digit_val_def digit_char_def of_char_of)

lemma digit_val_bounds: "is_digit c \<Longrightarrow> 0 \<le> digit_val c \<and> digit_val c < 10"
  by (simp add: is_digit_def digit_val_def Let_def)

lemma digits_of_not_Nil [simp]: "digits_of n \<noteq> []"
  by (subst digits_of.simps) simp

lemma digits_of_digits: "0 \<le> n \<Longrightarrow> c \<in> set (digits_of n) \<Longrightarrow> is_digit c"
proof (induction n arbitrary: c rule: digits_of.induct)
  case (1 n)
  then show ?case by (auto simp: digits_of.simps [of n] split: if_splits)
qed

lemma parse_uint_append:
  "parse_uint n (xs @ ys) = (case parse_uint n xs of Inl e \<Rightarrow> Inl e | Inr m \<Rightarrow> parse_uint m ys)"
  by (induction n xs rule: parse_uint.induct) (auto simp: Let_def)

lemma parse_uint_digits_of: "0 \<le> n \<Longrightarrow> n < 2 ^ 64 \<Longrightarrow> parse_uint 0 (digits_of n) = Inr n"
proof (induction n rule: digits_of.induct)
  case (1 n)
  show ?case
  proof (cases "n < 10")
    case True
    with 1 show ?thesis by (simp add: digits_of.simps [of n])
  next
    case False
    with 1 have "parse_uint 0 (digits_of (n div 10)) = Inr (n div 10)" by simp
    moreover have "n div 10 * 10 + n mod 10 = n" by simp
    ultimately show ?thesis using False 1(2,3)
      by (simp add: digits_of.simps [of n] parse_uint_append)
  qed
qed

lemma parse_uint_nonneg: "parse_uint n s = Inr m \<Longrightarrow> 0 \<le> n \<Longrightarrow> 0 \<le> m"
proof (induction n s rule: parse_uint.induct)
  case (2 n c cs)
  then show ?case using digit_val_bounds [of c] by (auto simp: Let_def split: if_splits)
qed simp

lemma hd_digits_of: "0 \<le> n \<Longrightarrow> hd (digits_of n) \<noteq> CHR ''-''" "0 \<le> n \<Longrightarrow> hd (digits_of n) \<noteq> CHR ''+''"
  using digits_of_digits [of n "hd (digits_of n)"] by (auto simp: is_digit_def)

theorem Atoi_Itoa: "int64_ok i \<Longrightarrow> strconv_Atoi (strconv_Itoa i) = Inr i"
proof (cases "i < 0")
  case True
  assume "int64_ok i"
  with True show ?thesis
    by (simp add: strconv_Atoi_def strconv_Itoa_def parse_uint_digits_of int64_ok_def)
next
  case False
  assume "int64_ok i"
  with False hd_digits_of [of i] show ?thesis
    by (simp add: strconv_Atoi_def strconv_Itoa_def parse_uint_digits_of int64_ok_def)
qed

lemma Atoi_int64_ok: "strconv_Atoi s = Inr i \<Longrightarrow> int64_ok i"
  by (auto simp: strconv_Atoi_def int64_ok_def Let_def dest: parse_uint_nonneg split: sum.splits if_splits)

lemma Itoa_chars: "c \<in> set (strconv_Itoa i) \<Longrightarrow> c = CHR ''-'' \<or> is_digit c"
  using digits_of_digits [of i c] digits_of_digits [of "- i" c]
  by (auto simp: strconv_Itoa_def split: if_splits)

lemma Itoa_nonneg_digits: "0 \<le> i \<Longrightarrow> c \<in> set (strconv_Itoa i) \<Longrightarrow> is_digit c"
  by (auto simp: strconv_Itoa_def dest: digits_of_digits)

lemma Itoa_not_Nil [simp]: "strconv_Itoa i \<noteq> []"
  by (simp add: strconv_Itoa_def)

lemma Itoa_inj: "int64_ok i \<Longrightarrow> int64_ok j \<Longrightarrow> strconv_Itoa i = strconv_Itoa j \<Longrightarrow> i = j"
  by (metis Atoi_Itoa sum.inject(2))

lemma ParseBool_FormatBool [simp]: "strconv_ParseBool (strconv_FormatBool b) = Inr b"
  by (simp add: strconv_ParseBool_def strconv_FormatBool_def)

end
