(* ===== verification/Go_Net.thy ===== *)
theory Go_Net
  imports Go_Strings
begin

text \<open>
  The part of Go's package \<^verbatim>\<open>net\<close> that the program calls: \<^verbatim>\<open>net.IP\<close> as a byte
  slice (empty for nil, 4 bytes, or 16 bytes with IPv4 addresses mapped into IPv6),
  \<^verbatim>\<open>ParseIP\<close> (the parser of \<^verbatim>\<open>net/netip\<close>, zones refused), \<^verbatim>\<open>To4\<close>, \<^verbatim>\<open>String\<close>,
  \<^verbatim>\<open>IsLoopback\<close>, \<^verbatim>\<open>Equal\<close> and \<^verbatim>\<open>JoinHostPort\<close>. The dotted text of every IPv4
  address parses back to it, which the network drivers rely on when they send addresses
  as text to the child.
\<close>

type_synonym IP = "8 word list"

abbreviation nil_IP :: IP where
  "nil_IP \<equiv> []"

definition v4InV6Prefix :: IP where
  "v4InV6Prefix = replicate 10 0 @ [0xff, 0xff]"

definition To16 :: "IP \<Rightarrow> IP" where
  "To16 ip = (if length ip = 4 then v4InV6Prefix @ ip else if length ip = 16 then ip else [])"

definition To4 :: "IP \<Rightarrow> IP" where
  "To4 ip = (if length ip = 4 then ip
     else if length ip = 16 \<and> take 12 ip = v4InV6Prefix then drop 12 ip else [])"

definition IPv4zero :: IP where
  "IPv4zero = v4InV6Prefix @ [0, 0, 0, 0]"

definition IPv6loopback :: IP where
  "IPv6loopback = replicate 15 0 @ [1]"

text \<open>\<^verbatim>\<open>IP.Equal\<close>: an IPv4 address and its IPv6 form are equal.\<close>

definition IP_Equal :: "IP \<Rightarrow> IP \<Rightarrow> bool" where
  "IP_Equal a b \<longleftrightarrow>
     (if length a = length b then a = b
      else if length a = 4 \<and> length b = 16 then take 12 b = v4InV6Prefix \<and> a = drop 12 b
      else if length a = 16 \<and> length b = 4 then take 12 a = v4InV6Prefix \<and> drop 12 a = b
      else False)"

definition IsLoopback :: "IP \<Rightarrow> bool" where
  "IsLoopback ip \<longleftrightarrow> (if To4 ip \<noteq> [] then hd (To4 ip) = 127 else IP_Equal ip IPv6loopback)"

section \<open>Parsing\<close>

text \<open>
  One decimal field of an IPv4 address: at least one digit, no leading zero, at most 255.
\<close>

definition parse_octet :: "string \<Rightarrow> (8 word) option" where
  "parse_octet s =
     (if s = [] \<or> (\<exists>c\<in>set s. \<not> is_digit c) \<or> (hd s = CHR ''0'' \<and> length s \<noteq> 1) then None
      else (case parse_uint 0 s of
              Inl e \<Rightarrow> None
            | Inr n \<Rightarrow> if 255 < n then None else Some (word_of_int n)))"

definition parse_ipv4 :: "string \<Rightarrow> IP option" where
  "parse_ipv4 s =
     (case map parse_octet (Split s CHR ''.'') of
        [Some a, Some b, Some c, Some d] \<Rightarrow> Some [a, b, c, d]
      | _ \<Rightarrow> None)"

definition hex_val :: "char \<Rightarrow> int option" where
  "hex_val c =
     (let n = of_char c in
      if 48 \<le> n \<and> n \<le> 57 then Some (n - 48)
      else if 97 \<le> n \<and> n \<le> 102 then Some (n - 87)
      else if 65 \<le> n \<and> n \<le> 70 then Some (n - 55)
      else None)"

definition is_hex :: "char \<Rightarrow> bool" where
  "is_hex c \<longleftrightarrow> hex_val c \<noteq> None"

fun hex_int :: "int \<Rightarrow> string \<Rightarrow> int" where
  "hex_int acc [] = acc"
| "hex_int acc (c # cs) = hex_int (acc * 16 + (case hex_val c of Some d \<Rightarrow> d | None \<Rightarrow> 0)) cs"

text \<open>
  The main loop of \<^verbatim>\<open>netip.parseIPv6\<close>. The argument \<open>k\<close> is the number of 16-bit groups
  that still fit, \<open>ip\<close> the bytes read so far and \<open>ell\<close> the position of the ellipsis.
  The result carries the bytes, the ellipsis and the unread text.
\<close>

fun ipv6_loop :: "nat \<Rightarrow> IP \<Rightarrow> nat option \<Rightarrow> string \<Rightarrow> (IP \<times> nat option \<times> string) option" where
  "ipv6_loop 0 ip ell s = Some (ip, ell, s)"
| "ipv6_loop (Suc k) ip ell s =
     (let h = takeWhile is_hex s; r = drop (length h) s; acc = hex_int 0 h in
      if h = [] \<or> 4 < length h then None
      else if r \<noteq> [] \<and> hd r = CHR ''.'' then
        (if ell = None \<and> length ip \<noteq> 12 then None
         else if 16 < length ip + 4 then None
         else (case parse_ipv4 s of None \<Rightarrow> None | Some q \<Rightarrow> Some (ip @ q, ell, [])))
      else
        (let ip' = ip @ [word_of_int (acc div 256), word_of_int acc] in
         if r = [] then Some (ip', ell, [])
         else if hd r \<noteq> CHR '':'' \<or> tl r = [] then None
         else
           (let s' = tl r in
            if hd s' = CHR '':'' then
              (if ell \<noteq> None then None
               else if tl s' = [] then Some (ip', Some (length ip'), [])
               else ipv6_loop k ip' (Some (length ip')) (tl s'))
            else ipv6_loop k ip' ell s')))"

definition parse_ipv6 :: "string \<Rightarrow> IP option" where
  "parse_ipv6 s0 =
     (let lead = HasPrefix s0 ''::''; s = (if lead then drop 2 s0 else s0) in
      if lead \<and> s = [] then Some (replicate 16 0)
      else (case ipv6_loop 8 [] (if lead then Some 0 else None) s of
              None \<Rightarrow> None
            | Some (ip, ell, rest) \<Rightarrow>
                if rest \<noteq> [] then None
                else if length ip < 16 then
                  (case ell of
                     None \<Rightarrow> None
                   | Some e \<Rightarrow> Some (take e ip @ replicate (16 - length ip) 0 @ drop e ip))
                else if ell \<noteq> None then None
                else Some ip))"

text \<open>
  \<^verbatim>\<open>netip.ParseAddr\<close> looks for the first of \<^verbatim>\<open>.\<close>, \<^verbatim>\<open>:\<close> and \<^verbatim>\<open>%\<close>; \<^verbatim>\<open>net.ParseIP\<close>
  refuses every zone, so a text with \<^verbatim>\<open>%\<close> never parses. The result has 16 bytes.
\<close>

definition ParseIP :: "string \<Rightarrow> IP" where
  "ParseIP s =
     (if CHR ''%'' \<in> set s then []
      else (case find (\<lambda>c. c = CHR ''.'' \<or> c = CHR '':'') s of
              None \<Rightarrow> []
            | Some c \<Rightarrow>
                if c = CHR ''.'' then (case parse_ipv4 s of None \<Rightarrow> [] | Some ip \<Rightarrow> To16 ip)
                else (case parse_ipv6 s of None \<Rightarrow> [] | Some ip \<Rightarrow> ip)))"

section \<open>Printing\<close>

definition octet_text :: "8 word \<Rightarrow> string" where
  "octet_text w = digits_of (uint w)"

definition ipv4_text :: "IP \<Rightarrow> string" where
  "ipv4_text ip = Join (map octet_text ip) ''.''"

definition hex_char :: "int \<Rightarrow> char" where
  "hex_char d = (if d < 10 then char_of (48 + d) else char_of (87 + d))"

function hex_of :: "int \<Rightarrow> string" where
  "hex_of n = (if n < 16 then [hex_char n] else hex_of (n div 16) @ [hex_char (n mod 16)])"
  by pat_completeness auto
termination
  by (relation "measure nat") auto

declare hex_of.simps [simp del]

fun groups16 :: "IP \<Rightarrow> int list" where
  "groups16 (a # b # r) = (uint a * 256 + uint b) # groups16 r"
| "groups16 _ = []"

text \<open>
  The longest run of at least two zero groups, the first one among equals, as
  \<^verbatim>\<open>netip.Addr.appendTo6\<close> finds it.
\<close>

definition zero_run :: "int list \<Rightarrow> nat \<Rightarrow> nat" where
  "zero_run gs i = length (takeWhile (\<lambda>g. g = 0) (drop i gs))"

definition best_run :: "int list \<Rightarrow> (nat \<times> nat) option" where
  "best_run gs =
     fold (\<lambda>i best. let l = zero_run gs i in
             if 2 \<le> l \<and> (case best of None \<Rightarrow> True | Some (a, b) \<Rightarrow> b - a < l)
             then Some (i, i + l) else best)
       [0 ..< 8] None"

definition ipv6_text :: "IP \<Rightarrow> string" where
  "ipv6_text ip =
     (let gs = groups16 ip in
      case best_run gs of
        None \<Rightarrow> Join (map hex_of gs) '':''
      | Some (a, b) \<Rightarrow>
          Join (map hex_of (take a gs)) '':'' @ ''::'' @ Join (map hex_of (drop b gs)) '':'')"

definition IP_String :: "IP \<Rightarrow> string" where
  "IP_String ip =
     (if ip = [] then ''<nil>''
      else if To4 ip \<noteq> [] then ipv4_text (To4 ip)
      else if length ip = 16 then ipv6_text ip
      else ''?'' @ concat (map (\<lambda>b. [hex_char (uint b div 16), hex_char (uint b mod 16)]) ip))"

definition JoinHostPort :: "string \<Rightarrow> string \<Rightarrow> string" where
  "JoinHostPort host port =
     (if CHR '':'' \<in> set host then ''['' @ host @ '']:'' @ port else host @ '':'' @ port)"

section \<open>Lemmas\<close>

lemma length_To4: "length (To4 ip) = 4 \<or> To4 ip = []"
  by (auto simp: To4_def)

lemma To4_To16 [simp]: "length ip = 4 \<Longrightarrow> To4 (To16 ip) = ip"
  by (simp add: To4_def To16_def v4InV6Prefix_def)

lemma To4_4 [simp]: "length ip = 4 \<Longrightarrow> To4 ip = ip"
  by (simp add: To4_def)

lemma length_To16: "length (To16 ip) = 16 \<or> To16 ip = []"
  by (simp add: To16_def v4InV6Prefix_def)

lemma uint_octet: "0 \<le> uint (w :: 8 word)" "uint (w :: 8 word) < 256"
  using uint_bounded [of w] by simp_all

lemma hd_digits_zero: "0 \<le> n \<Longrightarrow> hd (digits_of n) = CHR ''0'' \<Longrightarrow> n = 0"
proof (induction n rule: digits_of.induct)
  case (1 n)
  show ?case
  proof (cases "n < 10")
    case True
    with 1 have "digit_val (digit_char n) = digit_val CHR ''0''"
      by (simp add: digits_of.simps [of n])
    with True 1 show ?thesis by (simp add: digit_val_def digit_char_def of_char_of)
  next
    case False
    with 1 have "n div 10 = 0" by (simp add: digits_of.simps [of n])
    with False 1 show ?thesis by simp
  qed
qed

lemma parse_octet_text [simp]: "parse_octet (octet_text w) = Some w"
proof -
  note w = uint_octet [of w]
  have "hd (digits_of (uint w)) = CHR ''0'' \<Longrightarrow> length (digits_of (uint w)) = 1"
    using hd_digits_zero [of "uint w"] by (simp add: digits_of.simps [of 0])
  with w digits_of_digits [of "uint w"] show ?thesis
    by (auto simp: parse_octet_def octet_text_def parse_uint_digits_of)
qed

lemma dot_not_octet [simp]: "CHR ''.'' \<notin> set (octet_text w)" "CHR '':'' \<notin> set (octet_text w)"
  "CHR ''%'' \<notin> set (octet_text w)"
  using digits_of_digits [of "uint w", OF uint_octet(1)]
  by (fastforce simp: octet_text_def is_digit_def)+

lemma length4_cases: "length xs = 4 \<Longrightarrow> \<exists>a b c d. xs = [a, b, c, d]"
  by (auto simp: length_Suc_conv eval_nat_numeral)

lemma parse_ipv4_text: "length ip = 4 \<Longrightarrow> parse_ipv4 (ipv4_text ip) = Some ip"
  by (drule length4_cases)
    (auto simp: parse_ipv4_def ipv4_text_def Split_append Split_no_sep)

lemma find_dot: "CHR ''.'' \<notin> set s \<Longrightarrow> CHR '':'' \<notin> set s \<Longrightarrow>
  find (\<lambda>c. c = CHR ''.'' \<or> c = CHR '':'') (s @ CHR ''.'' # t) = Some (CHR ''.'')"
  by (induction s) auto

theorem ParseIP_ipv4_text: "length ip = 4 \<Longrightarrow> ParseIP (ipv4_text ip) = To16 ip"
proof -
  assume l: "length ip = 4"
  then obtain a b c d where ip: "ip = [a, b, c, d]" by (blast dest: length4_cases)
  have "CHR ''%'' \<notin> set (ipv4_text ip)" by (simp add: ip ipv4_text_def)
  moreover have "find (\<lambda>c. c = CHR ''.'' \<or> c = CHR '':'') (ipv4_text ip) = Some (CHR ''.'')"
    by (simp add: ip ipv4_text_def find_dot)
  ultimately show ?thesis
    using parse_ipv4_text [OF l] by (simp add: ParseIP_def)
qed

lemma ParseIP_String_v4: "length (To4 ip) = 4 \<Longrightarrow> ParseIP (IP_String ip) = To16 (To4 ip)"
  using ParseIP_ipv4_text [of "To4 ip"] by (auto simp: IP_String_def To4_def)

lemma length_parse_ipv4: "parse_ipv4 s = Some ip \<Longrightarrow> length ip = 4"
  by (auto simp: parse_ipv4_def split: list.splits option.splits)

lemma ParseIP_nil [simp]: "ParseIP [] = []"
  by (simp add: ParseIP_def)

section \<open>The characters of an address\<close>

definition addr_char :: "char \<Rightarrow> bool" where
  "addr_char c \<longleftrightarrow> is_hex c \<or> c = CHR ''.'' \<or> c = CHR '':''"

lemma is_digit_is_hex: "is_digit c \<Longrightarrow> is_hex c"
  by (simp add: is_digit_def is_hex_def hex_val_def Let_def)

lemma parse_octet_chars: "parse_octet s = Some b \<Longrightarrow> c \<in> set s \<Longrightarrow> is_digit c"
  by (auto simp: parse_octet_def split: if_splits)

lemma set_Split: "x \<in> set s \<Longrightarrow> x = c \<or> (\<exists>f\<in>set (Split s c). x \<in> set f)"
proof (induction s)
  case (Cons a s)
  obtain g gs where "Split s c = g # gs" by (cases "Split s c") auto
  with Cons show ?case by (cases "a = c") auto
qed simp

lemma parse_ipv4_chars:
  assumes "parse_ipv4 s = Some ip" and "c \<in> set s"
  shows "addr_char c"
proof -
  have "\<forall>f\<in>set (Split s CHR ''.''). parse_octet f \<noteq> None"
    using assms(1) by (auto simp: parse_ipv4_def split: list.splits option.splits)
  then have "f \<in> set (Split s CHR ''.'') \<Longrightarrow> c \<in> set f \<Longrightarrow> is_digit c" for f
    using parse_octet_chars by blast
  then show ?thesis using set_Split [OF assms(2), of "CHR ''.''"]
    by (auto simp: addr_char_def is_digit_is_hex)
qed

lemma addr_char_colon [simp]: "addr_char CHR '':''"
  by (simp add: addr_char_def)

lemma list_all_addr_takeWhile:
  "list_all addr_char (drop (length (takeWhile is_hex s)) s) \<Longrightarrow> list_all addr_char s"
  by (metis addr_char_def append_take_drop_id list_all_append list_all_iff set_takeWhileD
      takeWhile_eq_take)

lemma ipv6_loop_chars:
  "ipv6_loop k ip ell s = Some (ip', ell', []) \<Longrightarrow> list_all addr_char s"
proof (induction k ip ell s rule: ipv6_loop.induct)
  case (1 ip ell s)
  then show ?case by simp
next
  case (2 k ip ell s)
  define r where "r = drop (length (takeWhile is_hex s)) s"
  show ?case
  proof (cases "r \<noteq> [] \<and> hd r = CHR ''.''")
    case True
    with 2(3) show ?thesis unfolding r_def
      by (auto simp: Let_def list_all_iff dest: parse_ipv4_chars split: if_splits option.splits)
  next
    case False
    have "list_all addr_char r"
    proof (cases r)
      case (Cons a t)
      with False 2(3) have a: "a = CHR '':''" "t \<noteq> []"
        by (auto simp: Let_def r_def [symmetric] split: if_splits)
      then obtain b u where t: "t = b # u" by (cases t) auto
      show ?thesis using False 2 a Cons t
        by (auto simp: Let_def r_def [symmetric] split: if_splits)
    qed simp
    then show ?thesis unfolding r_def by (rule list_all_addr_takeWhile)
  qed
qed

lemma parse_ipv6_chars: "parse_ipv6 s = Some ip \<Longrightarrow> list_all addr_char s"
  using HasPrefixE [of s "''::''"] ipv6_loop_chars
  by (fastforce simp: parse_ipv6_def Let_def split: if_splits option.splits prod.splits)

lemma ParseIP_chars: "ParseIP s \<noteq> nil_IP \<Longrightarrow> list_all addr_char s"
  using parse_ipv4_chars parse_ipv6_chars
  by (fastforce simp: ParseIP_def list_all_iff split: if_splits option.splits)

end
