(* ===== verification/Go_Json.thy ===== *)
theory Go_Json
  imports Go_Net "HOL-Library.Char_ord" "HOL-Library.List_Lexorder"
begin

text \<open>
  \<^verbatim>\<open>encoding/json\<close> as the program uses it: the values, the printer of
  \<^verbatim>\<open>json.Marshal\<close> (no white space, HTML-safe escapes) and the parser of
  \<^verbatim>\<open>json.Unmarshal\<close>, with the round trip between them. A number keeps its text; it is
  converted when it is stored into an integer. Texts are valid UTF-8: bytes above 127 are
  copied. Storing into a Go struct takes the last member whose key is the field's name up
  to the case of letters, and keeps the zero value when there is none.
\<close>

datatype json =
    JNull
  | JBool bool
  | JNum string
  | JStr string
  | JArr "json list"
  | JObj "(string \<times> json) list"

section \<open>Printing\<close>

definition esc :: "char \<Rightarrow> string" where
  "esc c =
     (let n = (of_char c :: int) in
      if c = CHR 0x22 \<or> c = CHR 0x5C then [CHR 0x5C, c]
      else if n = 8 then [CHR 0x5C, CHR ''b'']
      else if n = 12 then [CHR 0x5C, CHR ''f'']
      else if n = 10 then [CHR 0x5C, CHR ''n'']
      else if n = 13 then [CHR 0x5C, CHR ''r'']
      else if n = 9 then [CHR 0x5C, CHR ''t'']
      else if n < 32 \<or> c = CHR ''<'' \<or> c = CHR ''>'' \<or> c = CHR ''&'' then
        [CHR 0x5C, CHR ''u'', CHR ''0'', CHR ''0'', hex_char (n div 16), hex_char (n mod 16)]
      else [c])"

definition print_str :: "string \<Rightarrow> string" where
  "print_str s = CHR 0x22 # concat (map esc s) @ [CHR 0x22]"

fun print_json :: "json \<Rightarrow> string" where
  "print_json JNull = ''null''"
| "print_json (JBool b) = (if b then ''true'' else ''false'')"
| "print_json (JNum s) = s"
| "print_json (JStr s) = print_str s"
| "print_json (JArr xs) = ''['' @ Join (map print_json xs) '','' @ '']''"
| "print_json (JObj ms) = ''{'' @ Join (map (\<lambda>(k, v). print_str k @ '':'' @ print_json v) ms) '','' @ ''}''"

section \<open>Parsing\<close>

definition json_space :: "char \<Rightarrow> bool" where
  "json_space c \<longleftrightarrow> c \<in> {CHR '' '', CHR 0x09, CHR 0x0A, CHR 0x0D}"

definition skip_ws :: "string \<Rightarrow> string" where
  "skip_ws s = dropWhile json_space s"

text \<open>The UTF-8 encoding of a rune.\<close>

definition utf8 :: "int \<Rightarrow> string" where
  "utf8 v =
     (if v < 128 then [char_of v]
      else if v < 2048 then [char_of (192 + v div 64), char_of (128 + v mod 64)]
      else if v < 65536 then
        [char_of (224 + v div 4096), char_of (128 + v div 64 mod 64), char_of (128 + v mod 64)]
      else [char_of (240 + v div 262144), char_of (128 + v div 4096 mod 64),
            char_of (128 + v div 64 mod 64), char_of (128 + v mod 64)])"

definition hex4 :: "string \<Rightarrow> int option" where
  "hex4 s = (if length s = 4 \<and> list_all is_hex s then Some (hex_int 0 s) else None)"

text \<open>
  The escape after a backslash: the text it stands for and the rest. A surrogate that is
  not followed by its partner becomes the replacement rune.
\<close>

definition unescape :: "string \<Rightarrow> (string \<times> string) option" where
  "unescape s =
     (case s of
        [] \<Rightarrow> None
      | c # r \<Rightarrow>
          if c = CHR 0x22 \<or> c = CHR 0x5C \<or> c = CHR ''/'' then Some ([c], r)
          else if c = CHR ''b'' then Some ([CHR 0x08], r)
          else if c = CHR ''f'' then Some ([CHR 0x0C], r)
          else if c = CHR ''n'' then Some ([CHR 0x0A], r)
          else if c = CHR ''r'' then Some ([CHR 0x0D], r)
          else if c = CHR ''t'' then Some ([CHR 0x09], r)
          else if c = CHR ''u'' then
            (case hex4 (take 4 r) of
               None \<Rightarrow> None
             | Some v \<Rightarrow>
                 let r' = drop 4 r in
                 if v < 55296 \<or> 57343 < v then Some (utf8 v, r')
                 else
                   (case (HasPrefix r' [CHR 0x5C, CHR ''u''], hex4 (take 4 (drop 2 r'))) of
                      (True, Some w) \<Rightarrow>
                        if v < 56320 \<and> 56320 \<le> w \<and> w < 57344
                        then Some (utf8 (65536 + (v - 55296) * 1024 + (w - 56320)), drop 6 r')
                        else Some (utf8 65533, r')
                    | _ \<Rightarrow> Some (utf8 65533, r')))
          else None)"

text \<open>
  The characters of a string up to the closing quote; the fuel is the length of the text.
\<close>

fun parse_chars :: "nat \<Rightarrow> string \<Rightarrow> (string \<times> string) option" where
  "parse_chars 0 s = None"
| "parse_chars (Suc k) s =
     (case s of
        [] \<Rightarrow> None
      | c # r \<Rightarrow>
          if c = CHR 0x22 then Some ([], r)
          else if c = CHR 0x5C then
            (case unescape r of
               None \<Rightarrow> None
             | Some (t, r') \<Rightarrow>
                 (case parse_chars k r' of None \<Rightarrow> None | Some (u, q) \<Rightarrow> Some (t @ u, q)))
          else if (of_char c :: int) < 32 then None
          else (case parse_chars k r of None \<Rightarrow> None | Some (u, q) \<Rightarrow> Some (c # u, q)))"

definition parse_str :: "string \<Rightarrow> (string \<times> string) option" where
  "parse_str s = (case s of [] \<Rightarrow> None | c # r \<Rightarrow> if c = CHR 0x22 then parse_chars (length s) r else None)"

text \<open>The grammar of numbers.\<close>

definition is_number :: "string \<Rightarrow> bool" where
  "is_number s \<longleftrightarrow>
     (let a = (if s \<noteq> [] \<and> hd s = CHR ''-'' then tl s else s);
          ip = takeWhile is_digit a; r = dropWhile is_digit a;
          fr = (if r \<noteq> [] \<and> hd r = CHR ''.'' then takeWhile is_digit (tl r) else ''0'');
          r2 = (if r \<noteq> [] \<and> hd r = CHR ''.'' then dropWhile is_digit (tl r) else r);
          e = (if r2 \<noteq> [] then tl r2 else []);
          ed = (if e \<noteq> [] \<and> (hd e = CHR ''+'' \<or> hd e = CHR ''-'') then tl e else e)
      in ip \<noteq> [] \<and> (hd ip = CHR ''0'' \<longrightarrow> length ip = 1) \<and> fr \<noteq> [] \<and>
         (r2 = [] \<or> ((hd r2 = CHR ''e'' \<or> hd r2 = CHR ''E'') \<and> ed \<noteq> [] \<and> list_all is_digit ed)))"

definition num_char :: "char \<Rightarrow> bool" where
  "num_char c \<longleftrightarrow> is_digit c \<or> c \<in> {CHR ''-'', CHR ''+'', CHR ''.'', CHR ''e'', CHR ''E''}"

fun parse_val :: "nat \<Rightarrow> string \<Rightarrow> (json \<times> string) option"
and parse_elems :: "nat \<Rightarrow> string \<Rightarrow> (json list \<times> string) option"
and parse_members :: "nat \<Rightarrow> string \<Rightarrow> ((string \<times> json) list \<times> string) option" where
  "parse_val 0 s = None"
| "parse_val (Suc k) s0 =
     (let s = skip_ws s0 in
      if HasPrefix s ''null'' then Some (JNull, drop 4 s)
      else if HasPrefix s ''true'' then Some (JBool True, drop 4 s)
      else if HasPrefix s ''false'' then Some (JBool False, drop 5 s)
      else if HasPrefix s [CHR 0x22] then
        (case parse_str s of None \<Rightarrow> None | Some (t, r) \<Rightarrow> Some (JStr t, r))
      else if HasPrefix s ''['' then
        (if HasPrefix (skip_ws (tl s)) '']'' then Some (JArr [], tl (skip_ws (tl s)))
         else (case parse_elems k (tl s) of None \<Rightarrow> None | Some (xs, r) \<Rightarrow> Some (JArr xs, r)))
      else if HasPrefix s ''{'' then
        (if HasPrefix (skip_ws (tl s)) ''}'' then Some (JObj [], tl (skip_ws (tl s)))
         else (case parse_members k (tl s) of None \<Rightarrow> None | Some (ms, r) \<Rightarrow> Some (JObj ms, r)))
      else
        (let n = takeWhile num_char s in
         if is_number n then Some (JNum n, dropWhile num_char s) else None))"
| "parse_elems 0 s = None"
| "parse_elems (Suc k) s =
     (case parse_val k s of
        None \<Rightarrow> None
      | Some (x, r0) \<Rightarrow>
          let r = skip_ws r0 in
          if HasPrefix r '']'' then Some ([x], tl r)
          else if HasPrefix r '','' then
            (case parse_elems k (tl r) of None \<Rightarrow> None | Some (xs, q) \<Rightarrow> Some (x # xs, q))
          else None)"
| "parse_members 0 s = None"
| "parse_members (Suc k) s =
     (case parse_str (skip_ws s) of
        None \<Rightarrow> None
      | Some (key, r1) \<Rightarrow>
          let r2 = skip_ws r1 in
          if \<not> HasPrefix r2 '':'' then None
          else
            (case parse_val k (tl r2) of
               None \<Rightarrow> None
             | Some (v, r0) \<Rightarrow>
                 let r = skip_ws r0 in
                 if HasPrefix r ''}'' then Some ([(key, v)], tl r)
                 else if HasPrefix r '','' then
                   (case parse_members k (tl r) of None \<Rightarrow> None | Some (ms, q) \<Rightarrow> Some ((key, v) # ms, q))
                 else None))"

text \<open>Every nested value and every member consumes at least one character: twice the length is enough fuel.\<close>

definition json_parse :: "string \<Rightarrow> json res" where
  "json_parse s =
     (case parse_val (2 * length s + 1) s of
        None \<Rightarrow> Inl (Sys ''invalid character'')
      | Some (v, r) \<Rightarrow> if skip_ws r = [] then Inr v else Inl (Sys ''invalid character after top-level value''))"

section \<open>Storing into Go values\<close>

definition ToLower :: "string \<Rightarrow> string" where
  "ToLower s = map ToLower_char s"

definition type_error :: err where
  "type_error = Sys ''json: cannot unmarshal value into Go value''"

fun last_member :: "string \<Rightarrow> (string \<times> json) list \<Rightarrow> json option" where
  "last_member f [] = None"
| "last_member f ((k, v) # ms) =
     (case last_member f ms of Some w \<Rightarrow> Some w | None \<Rightarrow> if ToLower k = ToLower f then Some v else None)"

definition get_str :: "string \<Rightarrow> (string \<times> json) list \<Rightarrow> string res" where
  "get_str f ms =
     (case last_member f ms of
        None \<Rightarrow> Inr []
      | Some JNull \<Rightarrow> Inr []
      | Some (JStr s) \<Rightarrow> Inr s
      | _ \<Rightarrow> Inl type_error)"

definition get_int :: "string \<Rightarrow> (string \<times> json) list \<Rightarrow> int res" where
  "get_int f ms =
     (case last_member f ms of
        None \<Rightarrow> Inr 0
      | Some JNull \<Rightarrow> Inr 0
      | Some (JNum s) \<Rightarrow> (case strconv_Atoi s of Inl e \<Rightarrow> Inl type_error | Inr i \<Rightarrow> Inr i)
      | _ \<Rightarrow> Inl type_error)"

definition get_bool :: "string \<Rightarrow> (string \<times> json) list \<Rightarrow> bool res" where
  "get_bool f ms =
     (case last_member f ms of
        None \<Rightarrow> Inr False
      | Some JNull \<Rightarrow> Inr False
      | Some (JBool b) \<Rightarrow> Inr b
      | _ \<Rightarrow> Inl type_error)"

text \<open>A pointer to a struct: absent or null is nil.\<close>

definition get_ptr :: "(json \<Rightarrow> 'a res) \<Rightarrow> string \<Rightarrow> (string \<times> json) list \<Rightarrow> 'a option res" where
  "get_ptr dec f ms =
     (case last_member f ms of
        None \<Rightarrow> Inr None
      | Some JNull \<Rightarrow> Inr None
      | Some v \<Rightarrow> (case dec v of Inl e \<Rightarrow> Inl e | Inr x \<Rightarrow> Inr (Some x)))"

fun map_res :: "('a \<Rightarrow> 'b res) \<Rightarrow> 'a list \<Rightarrow> 'b list res" where
  "map_res f [] = Inr []"
| "map_res f (x # xs) =
     (case f x of
        Inl e \<Rightarrow> Inl e
      | Inr y \<Rightarrow> (case map_res f xs of Inl e \<Rightarrow> Inl e | Inr ys \<Rightarrow> Inr (y # ys)))"

definition dec_str :: "json \<Rightarrow> string res" where
  "dec_str v = (case v of JStr s \<Rightarrow> Inr s | JNull \<Rightarrow> Inr [] | _ \<Rightarrow> Inl type_error)"

definition get_list :: "(json \<Rightarrow> 'a res) \<Rightarrow> string \<Rightarrow> (string \<times> json) list \<Rightarrow> 'a list res" where
  "get_list dec f ms =
     (case last_member f ms of
        None \<Rightarrow> Inr []
      | Some JNull \<Rightarrow> Inr []
      | Some (JArr xs) \<Rightarrow> map_res dec xs
      | _ \<Rightarrow> Inl type_error)"

text \<open>\<^verbatim>\<open>map[string]string\<close>: printed with its keys in order, read with the last value of a key.\<close>

definition dec_map :: "(string \<times> json) list \<Rightarrow> (string \<times> string) list res" where
  "dec_map ms =
     (case map_res (\<lambda>(k, v). case dec_str v of Inl e \<Rightarrow> Inl e | Inr s \<Rightarrow> Inr (k, s)) ms of
        Inl e \<Rightarrow> Inl e
      | Inr kvs \<Rightarrow> Inr (fold (\<lambda>(k, s) m. map_put k s m) kvs []))"

definition get_map :: "string \<Rightarrow> (string \<times> json) list \<Rightarrow> (string \<times> string) list res" where
  "get_map f ms =
     (case last_member f ms of
        None \<Rightarrow> Inr []
      | Some JNull \<Rightarrow> Inr []
      | Some (JObj kvs) \<Rightarrow> dec_map kvs
      | _ \<Rightarrow> Inl type_error)"

section \<open>Round trip\<close>

lemma hex_val_hex_char: "0 \<le> d \<Longrightarrow> d < 16 \<Longrightarrow> hex_val (hex_char d) = Some d"
  by (auto simp: hex_val_def hex_char_def of_char_of Let_def)

lemma char_of_of_char [simp]: "char_of (of_char c :: int) = c"
  by simp

lemma unescape_u:
  assumes "(of_char c :: int) < 128"
  shows "unescape (CHR ''u'' # CHR ''0'' # CHR ''0'' # hex_char (of_char c div 16) # hex_char (of_char c mod 16) # r) = Some ([c], r)"
proof -
  let ?n = "of_char c :: int"
  have n: "0 \<le> ?n" by (metis of_nat_0_le_iff of_nat_of_char)
  have d: "hex_val (hex_char (?n div 16)) = Some (?n div 16)" "hex_val (hex_char (?n mod 16)) = Some (?n mod 16)"
    using assms n by (auto intro!: hex_val_hex_char)
  have z: "hex_val CHR ''0'' = Some 0" by (simp add: hex_val_def)
  have "hex4 [CHR ''0'', CHR ''0'', hex_char (?n div 16), hex_char (?n mod 16)] = Some ?n"
    using d z by (simp add: hex4_def is_hex_def)
  then show ?thesis using assms by (simp add: unescape_def Let_def utf8_def)
qed

lemma parse_chars_esc:
  "parse_chars k r = Some (u, q) \<Longrightarrow> parse_chars (Suc k) (esc c @ r) = Some (c # u, q)"
proof -
  assume k: "parse_chars k r = Some (u, q)"
  let ?n = "of_char c :: int"
  have nth: "?n = n \<Longrightarrow> c = char_of n" for n by (metis char_of_of_char)
  consider (quote) "c = CHR 0x22 \<or> c = CHR 0x5C" | (b) "?n = 8" | (f) "?n = 12" | (n) "?n = 10" | (r) "?n = 13" | (t) "?n = 9"
    | (u) "c \<noteq> CHR 0x22" "c \<noteq> CHR 0x5C" "?n \<notin> {8, 9, 10, 12, 13}" "?n < 32 \<or> c = CHR ''<'' \<or> c = CHR ''>'' \<or> c = CHR ''&''"
    | (plain) "c \<noteq> CHR 0x22" "c \<noteq> CHR 0x5C" "\<not> ?n < 32" "c \<noteq> CHR ''<''" "c \<noteq> CHR ''>''" "c \<noteq> CHR ''&''"
    by (cases "?n < 32") auto
  then show ?thesis
  proof cases
    case quote
    with k show ?thesis by (auto simp: esc_def unescape_def)
  next
    case b
    with k nth [OF b] show ?thesis by (simp add: esc_def unescape_def char_of_def)
  next
    case f
    with k nth [OF f] show ?thesis by (simp add: esc_def unescape_def char_of_def)
  next
    case n
    with k nth [OF n] show ?thesis by (simp add: esc_def unescape_def char_of_def)
  next
    case r
    with k nth [OF r] show ?thesis by (simp add: esc_def unescape_def char_of_def)
  next
    case t
    with k nth [OF t] show ?thesis by (simp add: esc_def unescape_def char_of_def)
  next
    case u
    have "?n < 128" using u(4) by auto
    with u k show ?thesis by (simp add: esc_def unescape_u Let_def)
  next
    case plain
    then have "esc c = [c]" by (simp add: esc_def)
    with plain k show ?thesis by simp
  qed
qed

lemma length_esc: "1 \<le> length (esc c)"
  by (simp add: esc_def Let_def)

lemma parse_chars_print:
  "length (concat (map esc s)) < k \<Longrightarrow> parse_chars k (concat (map esc s) @ CHR 0x22 # r) = Some (s, r)"
proof (induction s arbitrary: k)
  case Nil
  then show ?case by (cases k) auto
next
  case (Cons c s)
  then obtain j where k: "k = Suc j" by (cases k) auto
  have "parse_chars j (concat (map esc s) @ CHR 0x22 # r) = Some (s, r)"
    using Cons length_esc [of c] k by simp
  then show ?case using parse_chars_esc k by simp
qed

lemma parse_str_print [simp]: "parse_str (print_str s @ r) = Some (s, r)"
  using parse_chars_print [of s "length (print_str s @ r)" r]
  by (simp add: parse_str_def print_str_def)

fun wf_json :: "json \<Rightarrow> bool" where
  "wf_json (JNum s) \<longleftrightarrow> is_number s \<and> list_all num_char s"
| "wf_json (JArr xs) \<longleftrightarrow> (\<forall>x\<in>set xs. wf_json x)"
| "wf_json (JObj ms) \<longleftrightarrow> (\<forall>m\<in>set ms. wf_json (snd m))"
| "wf_json _ \<longleftrightarrow> True"

definition json_stop :: "string \<Rightarrow> bool" where
  "json_stop r \<longleftrightarrow> r = [] \<or> \<not> num_char (hd r)"

lemma json_stop_simps [simp]: "json_stop []" "json_stop (CHR '','' # r)" "json_stop (CHR '']'' # r)" "json_stop (CHR ''}'' # r)"
  "json_stop (CHR 0x0A # r)"
  by (simp_all add: json_stop_def num_char_def is_digit_def)

lemma skip_ws_delim [simp]: "skip_ws (CHR '','' # r) = CHR '','' # r" "skip_ws (CHR '']'' # r) = CHR '']'' # r"
  "skip_ws (CHR ''}'' # r) = CHR ''}'' # r" "skip_ws [] = []"
  by (simp_all add: skip_ws_def json_space_def)

lemma number_first: "is_number s \<Longrightarrow> \<exists>c t. s = c # t \<and> (is_digit c \<or> c = CHR ''-'')"
proof (cases s)
  case (Cons c t)
  moreover assume "is_number s"
  ultimately show ?thesis
    by (cases "c = CHR ''-''") (auto simp: is_number_def Let_def split: if_splits)
qed (simp add: is_number_def)

definition val_start :: "char \<Rightarrow> bool" where
  "val_start c \<longleftrightarrow> \<not> json_space c \<and> c \<noteq> CHR '']'' \<and> c \<noteq> CHR ''}'' \<and> c \<noteq> CHR '',''"

lemma print_json_start: "wf_json j \<Longrightarrow> \<exists>c t. print_json j = c # t \<and> val_start c"
proof (cases j)
  case (JNum s)
  assume "wf_json j"
  with JNum obtain c t where "s = c # t" "is_digit c \<or> c = CHR ''-''" using number_first [of s] by auto
  moreover from this have "val_start c" by (auto simp: is_digit_def val_start_def json_space_def)
  ultimately show ?thesis using JNum by simp
qed (auto simp: print_str_def val_start_def json_space_def)

lemma skip_ws_print [simp]: "wf_json j \<Longrightarrow> skip_ws (print_json j @ r) = print_json j @ r"
  using print_json_start [of j] by (auto simp: skip_ws_def val_start_def)

lemma takeWhile_num: "list_all num_char s \<Longrightarrow> json_stop r \<Longrightarrow> takeWhile num_char (s @ r) = s \<and> dropWhile num_char (s @ r) = r"
  by (induction s; cases r) (auto simp: json_stop_def)

lemma parse_val_num:
  assumes "is_number s" and "list_all num_char s" and "json_stop r"
  shows "parse_val (Suc k) (s @ r) = Some (JNum s, r)"
proof -
  obtain c t where s: "s = c # t" and c: "is_digit c \<or> c = CHR ''-''" using number_first [OF assms(1)] by auto
  have ws: "skip_ws (s @ r) = s @ r" using c s by (auto simp: skip_ws_def json_space_def is_digit_def)
  have "c \<noteq> CHR ''n''" "c \<noteq> CHR ''t''" "c \<noteq> CHR ''f''" "c \<noteq> CHR 0x22" "c \<noteq> CHR ''[''" "c \<noteq> CHR ''{''"
    using c by (auto simp: is_digit_def)
  then have "\<not> HasPrefix (s @ r) ''null''" "\<not> HasPrefix (s @ r) ''true''" "\<not> HasPrefix (s @ r) ''false''"
    "\<not> HasPrefix (s @ r) [CHR 0x22]" "\<not> HasPrefix (s @ r) ''[''" "\<not> HasPrefix (s @ r) ''{''"
    using s by simp_all
  then show ?thesis
    using takeWhile_num [OF assms(2,3)] assms(1) by (simp only: parse_val.simps ws Let_def) simp
qed

definition print_member :: "string \<times> json \<Rightarrow> string" where
  "print_member m = print_str (fst m) @ '':'' @ print_json (snd m)"

lemma length_print_member: "length (print_json x) \<le> length (print_member (key, x))"
  by (simp add: print_member_def)

lemma print_json_obj: "print_json (JObj ms) = ''{'' @ Join (map print_member ms) '','' @ ''}''"
  by (simp add: print_member_def [abs_def] case_prod_beta')

text \<open>The two list parsers, given that they parse every element.\<close>

lemma parse_elems_print:
  assumes "\<And>x k r. x \<in> set xs \<Longrightarrow> json_stop r \<Longrightarrow> 2 * length (print_json x) \<le> k \<Longrightarrow> parse_val k (print_json x @ r) = Some (x, r)"
    and "xs \<noteq> []" and "2 * length (Join (map print_json xs) '','') < k"
  shows "parse_elems k (Join (map print_json xs) '','' @ CHR '']'' # r) = Some (xs, r)"
  using assms
proof (induction xs arbitrary: k)
  case (Cons x xs)
  then obtain j where k: "k = Suc j" by (cases k) auto
  show ?case
  proof (cases xs)
    case Nil
    with Cons k show ?thesis by simp
  next
    case (Cons y ys)
    let ?rest = "Join (map print_json xs) '','' @ CHR '']'' # r"
    have J: "Join (map print_json (x # xs)) '','' @ CHR '']'' # r = print_json x @ CHR '','' # ?rest"
      using Cons by simp
    have len: "length (Join (map print_json (x # xs)) '','') = length (print_json x) + 1 + length (Join (map print_json xs) '','')"
      using Cons by simp
    have "parse_val j (print_json x @ CHR '','' # ?rest) = Some (x, CHR '','' # ?rest)"
      using Cons.prems(1) [of x] Cons.prems(3) k len by simp
    moreover have "parse_elems j ?rest = Some (xs, r)"
      using Cons.IH [of j] Cons.prems(1,3) k len Cons by simp
    ultimately show ?thesis unfolding J k by simp
  qed
qed simp

lemma skip_ws_str [simp]: "skip_ws (print_str s @ r) = print_str s @ r"
  by (simp add: skip_ws_def print_str_def json_space_def)

lemma skip_ws_colon [simp]: "skip_ws (CHR '':'' # r) = CHR '':'' # r"
  by (simp add: skip_ws_def json_space_def)

lemma parse_members_print:
  assumes "\<And>x k r. x \<in> snd ` set ms \<Longrightarrow> json_stop r \<Longrightarrow> 2 * length (print_json x) \<le> k \<Longrightarrow> parse_val k (print_json x @ r) = Some (x, r)"
    and "ms \<noteq> []" and "2 * length (Join (map print_member ms) '','') < k"
  shows "parse_members k (Join (map print_member ms) '','' @ CHR ''}'' # r) = Some (ms, r)"
  using assms
proof (induction ms arbitrary: k)
  case (Cons m ms)
  then obtain j where k: "k = Suc j" by (cases k) auto
  obtain key x where m: "m = (key, x)" by fastforce
  show ?case
  proof (cases ms)
    case Nil
    with Cons k m show ?thesis by (simp add: print_member_def)
  next
    case (Cons y ys)
    let ?rest = "Join (map print_member ms) '','' @ CHR ''}'' # r"
    have J: "Join (map print_member (m # ms)) '','' @ CHR ''}'' # r = print_str key @ CHR '':'' # print_json x @ CHR '','' # ?rest"
      using Cons m by (simp add: print_member_def)
    have len: "length (Join (map print_member (m # ms)) '','') = length (print_member m) + 1 + length (Join (map print_member ms) '','')"
      using Cons by simp
    have "parse_val j (print_json x @ CHR '','' # ?rest) = Some (x, CHR '','' # ?rest)"
      using Cons.prems(3) k len m length_print_member [of x key]
      by (intro Cons.prems(1)) auto
    moreover have "parse_members j ?rest = Some (ms, r)"
      using Cons.IH [of j] Cons.prems(1,3) k len Cons by simp
    ultimately show ?thesis unfolding J k by (simp add: m)
  qed
qed simp

lemma Join_print_start:
  "xs \<noteq> [] \<Longrightarrow> \<forall>x\<in>set xs. wf_json x \<Longrightarrow> \<exists>c t. Join (map print_json xs) '','' = c # t \<and> val_start c"
  using print_json_start by (cases xs; cases "tl xs") fastforce+

lemma skip_ws_atoms [simp]:
  "skip_ws (''null'' @ r) = ''null'' @ r" "skip_ws (''true'' @ r) = ''true'' @ r" "skip_ws (''false'' @ r) = ''false'' @ r"
  "skip_ws (CHR ''['' # r) = CHR ''['' # r" "skip_ws (CHR ''{'' # r) = CHR ''{'' # r"
  by (simp_all add: skip_ws_def json_space_def)

lemma parse_val_str: "parse_val (Suc i) (print_str s @ r) = Some (JStr s, r)"
  using parse_str_print [of s r] by (simp add: print_str_def)
    (simp add: print_str_def [symmetric] skip_ws_def json_space_def)

lemma parse_val_arr:
  assumes "xs \<noteq> []" and "\<forall>x\<in>set xs. wf_json x" and "parse_elems i (Join (map print_json xs) '','' @ CHR '']'' # r) = Some (xs, r)"
  shows "parse_val (Suc i) (print_json (JArr xs) @ r) = Some (JArr xs, r)"
proof -
  obtain c t where ct: "Join (map print_json xs) '','' = c # t" "val_start c"
    using Join_print_start [OF assms(1,2)] by auto
  show ?thesis using assms(3) ct by simp (simp add: skip_ws_def val_start_def)
qed

lemma parse_val_obj:
  assumes "ms \<noteq> []" and "parse_members i (Join (map print_member ms) '','' @ CHR ''}'' # r) = Some (ms, r)"
  shows "parse_val (Suc i) (print_json (JObj ms) @ r) = Some (JObj ms, r)"
proof -
  obtain c t where ct: "Join (map print_member ms) '','' = c # t" "c = CHR 0x22"
    using assms(1) by (cases ms; cases "tl ms") (auto simp: print_member_def print_str_def)
  show ?thesis unfolding print_json_obj using assms(2) ct by simp (simp add: skip_ws_def json_space_def)
qed

lemma parse_val_print:
  "wf_json j \<Longrightarrow> json_stop r \<Longrightarrow> 2 * length (print_json j) \<le> k \<Longrightarrow> parse_val k (print_json j @ r) = Some (j, r)"
proof (induction j arbitrary: k r)
  case JNull
  then obtain i where k: "k = Suc i" by (cases k) auto
  show ?case unfolding k print_json.simps parse_val.simps skip_ws_atoms by simp
next
  case (JBool b)
  then obtain i where k: "k = Suc i" by (cases k; cases b) auto
  show ?case unfolding k print_json.simps parse_val.simps by (cases b) (simp_all only: if_True if_False skip_ws_atoms, simp_all)
next
  case (JNum s)
  then obtain i where "k = Suc i" using number_first [of s] by (cases k) auto
  with JNum parse_val_num [of s r i] show ?case by simp
next
  case (JStr s)
  then obtain i where "k = Suc i" by (cases k) (auto simp: print_str_def)
  then show ?case by (simp only: print_json.simps parse_val_str)
next
  case (JArr xs)
  then obtain i where k: "k = Suc i" by (cases k) auto
  show ?case
  proof (cases "xs = []")
    case False
    have "parse_elems i (Join (map print_json xs) '','' @ CHR '']'' # r) = Some (xs, r)"
      using JArr False k by (intro parse_elems_print) auto
    then show ?thesis using parse_val_arr [OF False] JArr.prems(1) k by simp
  qed (simp add: k)
next
  case (JObj ms)
  then obtain i where k: "k = Suc i" by (cases k) auto
  show ?case
  proof (cases "ms = []")
    case False
    have el: "parse_val k' (print_json x @ q) = Some (x, q)"
      if "x \<in> snd ` set ms" "json_stop q" "2 * length (print_json x) \<le> k'" for x k' q
    proof -
      from that(1) obtain m where m: "m \<in> set ms" "x = snd m" by auto
      moreover have "wf_json x" using JObj.prems(1) m by auto
      ultimately show ?thesis using JObj.IH [of m x] that(2,3) by (simp add: snds.simps prod_eq_iff)
    qed
    have "2 * length (Join (map print_member ms) '','') < i"
      using JObj.prems(3) k unfolding print_json_obj by simp
    then have "parse_members i (Join (map print_member ms) '','' @ CHR ''}'' # r) = Some (ms, r)"
      using False el by (intro parse_members_print) auto
    then show ?thesis using parse_val_obj [OF False] k by simp
  qed (simp add: k)
qed

lemma json_parse_newline: "wf_json j \<Longrightarrow> json_parse (print_json j @ [CHR 0x0A]) = Inr j"
  using parse_val_print [of j "[CHR 0x0A]" "2 * length (print_json j @ [CHR 0x0A]) + 1"]
  by (simp add: json_parse_def skip_ws_def json_space_def)

text \<open>\<^verbatim>\<open>Decoder.Decode\<close>: the first value of the stream.\<close>

definition json_decode :: "string \<Rightarrow> json res" where
  "json_decode s =
     (case parse_val (2 * length s + 1) s of
        None \<Rightarrow> Inl (Sys ''invalid character'')
      | Some (v, r) \<Rightarrow> Inr v)"

lemma json_decode_print: "wf_json j \<Longrightarrow> json_decode (print_json j) = Inr j"
  using parse_val_print [of j "[]" "2 * length (print_json j) + 1"] by (simp add: json_decode_def)

theorem json_parse_print: "wf_json j \<Longrightarrow> json_parse (print_json j) = Inr j"
  using parse_val_print [of j "[]" "2 * length (print_json j) + 1"] by (simp add: json_parse_def)

section \<open>Structs, slices and maps\<close>

text \<open>
  A nil slice or map is printed as null. The model does not separate a nil slice or map
  from an empty one, and prints both as null; both are read back as nil.
\<close>

definition enc_list :: "('a \<Rightarrow> json) \<Rightarrow> 'a list \<Rightarrow> json" where
  "enc_list enc xs = (if xs = [] then JNull else JArr (map enc xs))"

definition enc_map :: "(string \<times> string) list \<Rightarrow> json" where
  "enc_map m = (if m = [] then JNull else JObj (map (\<lambda>(k, v). (k, JStr v)) (sort_key fst m)))"

definition enc_int :: "int \<Rightarrow> json" where
  "enc_int i = JNum (strconv_Itoa i)"

lemma map_res_map: "(\<And>x. x \<in> set xs \<Longrightarrow> dec (enc x) = Inr x) \<Longrightarrow> map_res dec (map enc xs) = Inr xs"
  by (induction xs) auto

lemma fold_map_put_fresh:
  "distinct (map fst kvs) \<Longrightarrow> set (map fst kvs) \<inter> set (keys m) = {} \<Longrightarrow>
   fold (\<lambda>(k, s) m. map_put k s m) kvs m = m @ kvs"
  by (induction kvs arbitrary: m) (auto simp: map_put_fresh keys_def)

lemma dec_map_enc:
  assumes "wf_map m"
  shows "dec_map (map (\<lambda>(k, v). (k, JStr v)) (sort_key fst m)) = Inr (sort_key fst m)"
proof -
  let ?d = "\<lambda>(k, v). case dec_str v of Inl e \<Rightarrow> Inl e | Inr s \<Rightarrow> Inr (k, s)"
  have "map_res ?d (map (\<lambda>(k, v). (k, JStr v)) (sort_key fst m)) = Inr (sort_key fst m)"
    by (rule map_res_map) (auto simp: dec_str_def)
  moreover have "distinct (map fst (sort_key fst m))"
    using assms by (simp add: wf_map_def keys_def distinct_map)
  ultimately show ?thesis
    using fold_map_put_fresh [of "sort_key fst m" "[]"] by (simp add: dec_map_def keys_def)
qed

lemma map_of_sort_key: "wf_map m \<Longrightarrow> map_of (sort_key fst m) = map_of m"
  by (rule map_of_eqI [symmetric]) (auto simp: wf_map_def keys_def distinct_map wf_map_in_set [symmetric] intro: map_of_is_SomeI)

lemma is_number_Itoa: "is_number (strconv_Itoa i)" and num_chars_Itoa: "list_all num_char (strconv_Itoa i)"
proof -
  have d: "list_all is_digit (digits_of n)" if "0 \<le> n" for n
    using digits_of_digits [OF that] by (simp add: list_all_iff)
  have all: "takeWhile is_digit (digits_of n) = digits_of n" "dropWhile is_digit (digits_of n) = []" if "0 \<le> n" for n
    using d [OF that] by (simp_all add: list_all_iff takeWhile_eq_all_conv)
  have z: "hd (digits_of n) = CHR ''0'' \<Longrightarrow> length (digits_of n) = 1" if "0 \<le> n" for n
    using hd_digits_zero [OF that] by (auto simp: digits_of.simps [of 0])
  show "is_number (strconv_Itoa i)"
    using hd_digits_of(1) [of i] digits_of_digits [of i] digits_of_digits [of "- i"]
    by (cases "i < 0") (auto simp: is_number_def strconv_Itoa_def all z)
  show "list_all num_char (strconv_Itoa i)"
    by (auto simp: list_all_iff num_char_def dest: Itoa_chars)
qed

lemma wf_enc_int [simp]: "wf_json (enc_int i)"
  by (simp add: enc_int_def is_number_Itoa num_chars_Itoa)

lemma wf_enc_list [simp]: "(\<And>x. x \<in> set xs \<Longrightarrow> wf_json (enc x)) \<Longrightarrow> wf_json (enc_list enc xs)"
  by (auto simp: enc_list_def)

lemma wf_enc_map [simp]: "wf_json (enc_map m)"
  by (auto simp: enc_map_def)

lemma last_member_append:
  "last_member f (xs @ ys) = (case last_member f ys of Some w \<Rightarrow> Some w | None \<Rightarrow> last_member f xs)"
  by (induction xs) (auto split: option.splits)

lemma get_list_enc: "last_member f ms = Some (enc_list JStr xs) \<Longrightarrow> get_list dec_str f ms = Inr xs"
  by (auto simp: get_list_def enc_list_def dec_str_def intro!: map_res_map)

lemma get_map_enc: "last_member f ms = Some (enc_map m) \<Longrightarrow> wf_map m \<Longrightarrow> get_map f ms = Inr (sort_key fst m)"
  by (auto simp: get_map_def enc_map_def dec_map_enc)

lemma get_int_enc: "last_member f ms = Some (enc_int i) \<Longrightarrow> int64_ok i \<Longrightarrow> get_int f ms = Inr i"
  by (simp add: get_int_def enc_int_def Atoi_Itoa)

lemma get_str_enc: "last_member f ms = Some (JStr s) \<Longrightarrow> get_str f ms = Inr s"
  by (simp add: get_str_def)

end
