(* ===== verification/Lowlevelmsgutil.thy ===== *)
theory Lowlevelmsgutil
  imports Go_Json
begin

text \<open>
  \<^verbatim>\<open>pkg/lowlevelmsgutil\<close>: JSON messages with a 32-bit little-endian length header. A
  writer is a function on a state of its own that takes the bytes of one \<^verbatim>\<open>Write\<close> call.
  A reader is the list of chunks that its \<^verbatim>\<open>Read\<close> calls can see: a call returns at most
  the bytes of the first chunk, as a pipe or a socket does, and \<^verbatim>\<open>io.EOF\<close> when no chunk is
  left. How the environment cuts the stream into chunks is left open.
\<close>

definition maxLength :: nat where
  "maxLength = 65536"

type_synonym 'w writer = "string \<Rightarrow> 'w \<Rightarrow> nat res \<times> 'w"
type_synonym reader = "string list"

definition EOF :: err where
  "EOF = Sys ''EOF''"

fun Read :: "nat \<Rightarrow> reader \<Rightarrow> string res \<times> reader" where
  "Read n [] = (Inl EOF, [])"
| "Read n (c # cs) = (if length c \<le> n then (Inr c, cs) else (Inr (take n c), drop n c # cs))"

definition nat_text :: "nat \<Rightarrow> string" where
  "nat_text n = strconv_Itoa (int n)"

definition bad_length :: "nat \<Rightarrow> err" where
  "bad_length n = Errorf ''bad message length: %d (max: %d)'' [nat_text n, nat_text maxLength]"

definition short_read :: "nat \<Rightarrow> nat \<Rightarrow> err" where
  "short_read n expected = Errorf ''read %d bytes, expected %d bytes'' [nat_text n, nat_text expected]"

definition MarshalToWriter :: "'w writer \<Rightarrow> json \<Rightarrow> 'w \<Rightarrow> nat res \<times> 'w" where
  "MarshalToWriter wr x w =
     (let b = print_json x in
      if maxLength < length b then (Inl (bad_length (length b)), w)
      else (let h = le_bytes 4 (length b) in wr (h @ b) w))"

text \<open>The number of bytes read, the error or the value, and the reader after the calls.\<close>

definition UnmarshalFromReader :: "(json \<Rightarrow> 'a res) \<Rightarrow> reader \<Rightarrow> nat \<times> 'a res \<times> reader" where
  "UnmarshalFromReader dec r =
     (case Read 4 r of
        (Inl e, r1) \<Rightarrow> (0, Inl e, r1)
      | (Inr hdr, r1) \<Rightarrow>
          let n = length hdr in
          if n \<noteq> 4 then (n, Inl (short_read n 4), r1)
          else
            (let bLen = le_nat hdr in
             if maxLength < bLen \<or> bLen < 1 then (n, Inl (bad_length bLen), r1)
             else
               (case Read bLen r1 of
                  (Inl e, r2) \<Rightarrow> (4, Inl e, r2)
                | (Inr b, r2) \<Rightarrow>
                    let n = length b in
                    if n \<noteq> bLen then (4 + n, Inl (short_read n bLen), r2)
                    else (4 + n, (case json_parse b of Inl e \<Rightarrow> Inl e | Inr v \<Rightarrow> dec v), r2))))"

definition Buffer_Write :: "string writer" where
  "Buffer_Write bs buf = (Inr (length bs), buf @ bs)"

definition Marshal :: "json \<Rightarrow> string \<times> unit res" where
  "Marshal x =
     (case MarshalToWriter Buffer_Write x [] of
        (Inl e, b) \<Rightarrow> (b, Inl e)
      | (Inr n, b) \<Rightarrow> (b, Inr ()))"

definition NewReader :: "string \<Rightarrow> reader" where
  "NewReader b = (if b = [] then [] else [b])"

definition Unmarshal :: "(json \<Rightarrow> 'a res) \<Rightarrow> string \<Rightarrow> 'a res" where
  "Unmarshal dec b =
     (case UnmarshalFromReader dec (NewReader b) of
        (n, res, r) \<Rightarrow> if n \<noteq> length b then Inl (short_read n (length b)) else res)"

section \<open>Framing\<close>

text \<open>The bytes of one message.\<close>

definition frame :: "json \<Rightarrow> string" where
  "frame x = le_bytes 4 (length (print_json x)) @ print_json x"

definition fits :: "json \<Rightarrow> bool" where
  "fits x \<longleftrightarrow> wf_json x \<and> length (print_json x) \<le> maxLength"

lemma MarshalToWriter_frame: "fits x \<Longrightarrow> MarshalToWriter wr x w = wr (frame x) w"
  by (simp add: MarshalToWriter_def frame_def fits_def Let_def)

lemma print_json_not_Nil: "wf_json x \<Longrightarrow> print_json x \<noteq> []"
  using print_json_start by force

lemma frame_header: "fits x \<Longrightarrow> le_nat (le_bytes 4 (length (print_json x))) = length (print_json x)"
  by (simp add: le_nat_le_bytes fits_def maxLength_def)

text \<open>
  A whole message that arrives with bytes of the next ones behind it is cut at its end: the
  two reads take exactly the header and the body.
\<close>

lemma UnmarshalFromReader_frame:
  assumes "fits x" and "rest \<noteq> []"
  shows "UnmarshalFromReader dec ((frame x @ rest) # cs) = (length (frame x), dec x, rest # cs)"
proof -
  let ?h = "le_bytes 4 (length (print_json x))" and ?b = "print_json x"
  have r1: "Read 4 ((frame x @ rest) # cs) = (Inr ?h, (?b @ rest) # cs)"
    using assms by (simp add: frame_def)
  have r2: "Read (length ?b) ((?b @ rest) # cs) = (Inr ?b, rest # cs)"
    using assms(2) by simp
  have len: "\<not> (maxLength < length ?b \<or> length ?b < 1)"
    using assms(1) print_json_not_Nil [of x] by (simp add: fits_def Suc_le_eq)
  have "json_parse ?b = Inr x" using assms(1) by (simp add: fits_def json_parse_print)
  then show ?thesis
    unfolding UnmarshalFromReader_def r1 using r2 len
    by (simp add: Let_def frame_header [OF assms(1)] frame_def)
qed

lemma UnmarshalFromReader_last:
  assumes "fits x"
  shows "UnmarshalFromReader dec (frame x # cs) = (length (frame x), dec x, cs)"
proof -
  let ?h = "le_bytes 4 (length (print_json x))" and ?b = "print_json x"
  have nb: "?b \<noteq> []" using assms by (simp add: fits_def print_json_not_Nil)
  have r1: "Read 4 (frame x # cs) = (Inr ?h, ?b # cs)"
    using nb by (simp add: frame_def)
  have len: "\<not> (maxLength < length ?b \<or> length ?b < 1)"
    using assms nb by (simp add: fits_def Suc_le_eq)
  have "json_parse ?b = Inr x" using assms by (simp add: fits_def json_parse_print)
  then show ?thesis
    unfolding UnmarshalFromReader_def r1 using len
    by (simp add: Let_def frame_header [OF assms] frame_def)
qed

text \<open>A value written with \<open>Marshal\<close> is read back by \<open>Unmarshal\<close>, for every value whose
  JSON text is at most 65536 bytes long, and the number of bytes read is the length of the
  whole text.\<close>

theorem Unmarshal_Marshal:
  assumes "fits x"
  shows "snd (Marshal x) = Inr () \<and> Unmarshal dec (fst (Marshal x)) = dec x"
proof -
  have m: "Marshal x = (frame x, Inr ())"
    by (simp add: Marshal_def MarshalToWriter_frame [OF assms] Buffer_Write_def)
  have "frame x \<noteq> []"
    using assms print_json_not_Nil [of x] by (auto simp: frame_def fits_def)
  with m UnmarshalFromReader_last [OF assms, of dec "[]"] show ?thesis
    by (simp add: Unmarshal_def NewReader_def)
qed

theorem Unmarshal_Marshal_witness:
  "Unmarshal dec_str (fst (Marshal (JStr ''a<b''))) = Inr ''a<b''"
proof -
  have "fits (JStr ''a<b'')" by (simp add: fits_def print_str_def esc_def maxLength_def)
  from Unmarshal_Marshal [OF this, of dec_str] show ?thesis by (simp add: dec_str_def)
qed

text \<open>C26: the reader never asks for a body longer than 65536 bytes or of no bytes, whatever the
  peer sends: the count it returns is at most 4 + 65536, and a successful read consumed a
  header and at least one byte of body.\<close>

theorem UnmarshalFromReader_bounds:
  "fst (UnmarshalFromReader dec r) \<le> 4 + maxLength \<and>
   (isl (fst (snd (UnmarshalFromReader dec r))) \<or> 5 \<le> fst (UnmarshalFromReader dec r))"
proof -
  have len: "Read n q = (Inr b, q') \<Longrightarrow> length b \<le> n" for n b q q'
    by (cases q) (auto split: if_splits)
  show ?thesis
    by (auto simp: UnmarshalFromReader_def Let_def maxLength_def dest: len
        split: prod.splits sum.splits)
qed

fun recv_all :: "(json \<Rightarrow> 'a res) \<Rightarrow> nat \<Rightarrow> reader \<Rightarrow> 'a res list \<times> reader" where
  "recv_all dec 0 r = ([], r)"
| "recv_all dec (Suc k) r =
     (case UnmarshalFromReader dec r of
        (n, x, r') \<Rightarrow> (case recv_all dec k r' of (xs, q) \<Rightarrow> (x # xs, q)))"

text \<open>C25: a stream of messages. Whatever messages are sent, when their bytes have all arrived
  the receiver that reads one message after the other gets exactly the messages sent, in
  order, although all of them lie in one buffer.\<close>

theorem recv_all_frames:
  "\<forall>x\<in>set xs. fits x \<Longrightarrow>
     recv_all dec (length xs) (NewReader (concat (map frame xs))) = (map dec xs, [])"
proof (induction xs)
  case Nil
  show ?case by (simp add: NewReader_def)
next
  case (Cons x xs)
  have fx: "fits x" using Cons.prems by simp
  show ?case
  proof (cases "concat (map frame xs) = []")
    case True
    have "frame x \<noteq> []" using fx print_json_not_Nil [of x] by (auto simp: frame_def fits_def)
    moreover have "NewReader (concat (map frame (x # xs))) = [frame x]"
      using calculation True by (simp only: NewReader_def list.map concat.simps append_Nil2) simp
    moreover have "recv_all dec (length xs) [] = (map dec xs, [])"
      using Cons True by (simp only: NewReader_def) simp
    ultimately show ?thesis using UnmarshalFromReader_last [OF fx, of dec "[]"] by simp
  next
    case False
    then have r: "NewReader (concat (map frame (x # xs))) = [frame x @ concat (map frame xs)]"
      "NewReader (concat (map frame xs)) = [concat (map frame xs)]"
      by (simp_all only: NewReader_def list.map concat.simps append_is_Nil_conv) simp_all
    have "recv_all dec (length xs) [concat (map frame xs)] = (map dec xs, [])"
      using Cons r(2) by simp
    then show ?thesis using UnmarshalFromReader_frame [OF fx False, of dec "[]"] r(1) by simp
  qed
qed

theorem recv_all_frames_witness:
  "recv_all dec_str 2 (NewReader (concat (map frame [JStr ''a'', JStr ''b'']))) = ([Inr ''a'', Inr ''b''], [])"
proof -
  have "\<forall>x\<in>set [JStr ''a'', JStr ''b'']. fits x"
    by (simp add: fits_def print_str_def esc_def maxLength_def)
  from recv_all_frames [OF this, of dec_str] show ?thesis
    by (simp add: dec_str_def numeral_2_eq_2)
qed

end
