(* ===== verification/Messages.thy ===== *)
theory Messages
  imports Lowlevelmsgutil
begin

text \<open>
  \<^verbatim>\<open>pkg/messages\<close>: the messages of the handshake between parent and child. The Go type
  \<^verbatim>\<open>Message\<close> embeds a union of pointers to structs; \<^verbatim>\<open>encoding/json\<close> prints the fields of
  the pointers that are not nil at the top level of the object, and allocates the struct of
  an embedded pointer when a member with one of its fields arrives. The four messages
  without fields therefore arrive with all pointers nil and are known by their name only.
\<close>

record ParentInitNetworkDriverCompleted =
  nm_Network :: json
  nm_Dev :: string
  nm_IP :: string
  nm_Netmask :: int
  nm_Gateway :: string
  nm_DNS :: "string list"
  nm_MTU :: int
  nm_NetworkDriverOpaque :: "(string \<times> string) list"

record ParentInitPortDriverCompleted =
  pm_PortDriverOpaque :: "(string \<times> string) list"

text \<open>The union, in the order of its fields; a pointer to a struct without fields is a flag.\<close>

record U =
  u_ParentHello :: bool
  u_ChildHello :: bool
  u_ParentInitIdmapCompleted :: bool
  u_ChildInitUserNSCompleted :: bool
  u_ParentInitNetworkDriverCompleted :: "ParentInitNetworkDriverCompleted option"
  u_ParentInitPortDriverCompleted :: "ParentInitPortDriverCompleted option"

record Message =
  m_Name :: string
  m_U :: U

definition nil_U :: U where
  "nil_U = \<lparr>u_ParentHello = False, u_ChildHello = False, u_ParentInitIdmapCompleted = False,
     u_ChildInitUserNSCompleted = False, u_ParentInitNetworkDriverCompleted = None,
     u_ParentInitPortDriverCompleted = None\<rparr>"

definition zero_net :: ParentInitNetworkDriverCompleted where
  "zero_net = \<lparr>nm_Network = JNull, nm_Dev = [], nm_IP = [], nm_Netmask = 0, nm_Gateway = [],
     nm_DNS = [], nm_MTU = 0, nm_NetworkDriverOpaque = []\<rparr>"

text \<open>The field names of \<^verbatim>\<open>U\<close> whose pointers are not nil, in order.\<close>

definition U_fields :: "U \<Rightarrow> string list" where
  "U_fields u =
     (if u_ParentHello u then [''ParentHello''] else []) @
     (if u_ChildHello u then [''ChildHello''] else []) @
     (if u_ParentInitIdmapCompleted u then [''ParentInitIdmapCompleted''] else []) @
     (if u_ChildInitUserNSCompleted u then [''ChildInitUserNSCompleted''] else []) @
     (if u_ParentInitNetworkDriverCompleted u \<noteq> None then [''ParentInitNetworkDriverCompleted''] else []) @
     (if u_ParentInitPortDriverCompleted u \<noteq> None then [''ParentInitPortDriverCompleted''] else [])"

definition FulfillName :: "Message \<Rightarrow> Message res" where
  "FulfillName m =
     (case U_fields (m_U m) of
        n # _ \<Rightarrow> Inr (m\<lparr>m_Name := n\<rparr>)
      | [] \<Rightarrow> Inl (New ''failed to fulfill the name for message''))"

section \<open>The JSON form\<close>

definition net_members :: "ParentInitNetworkDriverCompleted \<Rightarrow> (string \<times> json) list" where
  "net_members p =
     [(''Network'', nm_Network p), (''Dev'', JStr (nm_Dev p)), (''IP'', JStr (nm_IP p)),
      (''Netmask'', enc_int (nm_Netmask p)), (''Gateway'', JStr (nm_Gateway p)),
      (''DNS'', enc_list JStr (nm_DNS p)), (''MTU'', enc_int (nm_MTU p)),
      (''NetworkDriverOpaque'', enc_map (nm_NetworkDriverOpaque p))]"

definition enc_Message :: "Message \<Rightarrow> json" where
  "enc_Message m =
     JObj ((''Name'', JStr (m_Name m)) #
       (case u_ParentInitNetworkDriverCompleted (m_U m) of None \<Rightarrow> [] | Some p \<Rightarrow> net_members p) @
       (case u_ParentInitPortDriverCompleted (m_U m) of
          None \<Rightarrow> []
        | Some p \<Rightarrow> [(''PortDriverOpaque'', enc_map (pm_PortDriverOpaque p))]))"

definition has_member :: "(string \<times> json) list \<Rightarrow> string \<Rightarrow> bool" where
  "has_member ms f \<longleftrightarrow> last_member f ms \<noteq> None"

definition dec_net :: "(string \<times> json) list \<Rightarrow> ParentInitNetworkDriverCompleted option res" where
  "dec_net ms =
     (if \<not> list_ex (has_member ms)
          [''Network'', ''Dev'', ''IP'', ''Netmask'', ''Gateway'', ''DNS'', ''MTU'', ''NetworkDriverOpaque'']
      then Inr None
      else
        (case (get_str ''Dev'' ms, get_str ''IP'' ms, get_int ''Netmask'' ms, get_str ''Gateway'' ms,
               get_list dec_str ''DNS'' ms, get_int ''MTU'' ms, get_map ''NetworkDriverOpaque'' ms) of
           (Inr dev, Inr ip, Inr nmask, Inr gw, Inr dns, Inr mtu, Inr opq) \<Rightarrow>
             Inr (Some \<lparr>nm_Network = (case last_member ''Network'' ms of None \<Rightarrow> JNull | Some v \<Rightarrow> v),
               nm_Dev = dev, nm_IP = ip, nm_Netmask = nmask, nm_Gateway = gw, nm_DNS = dns, nm_MTU = mtu,
               nm_NetworkDriverOpaque = opq\<rparr>)
         | _ \<Rightarrow> Inl type_error))"

definition dec_port :: "(string \<times> json) list \<Rightarrow> ParentInitPortDriverCompleted option res" where
  "dec_port ms =
     (if \<not> has_member ms ''PortDriverOpaque'' then Inr None
      else (case get_map ''PortDriverOpaque'' ms of
              Inl e \<Rightarrow> Inl e
            | Inr opq \<Rightarrow> Inr (Some \<lparr>pm_PortDriverOpaque = opq\<rparr>)))"

definition dec_Message :: "json \<Rightarrow> Message res" where
  "dec_Message j =
     (case j of
        JNull \<Rightarrow> Inr \<lparr>m_Name = [], m_U = nil_U\<rparr>
      | JObj ms \<Rightarrow>
          (case (get_str ''Name'' ms, dec_net ms, dec_port ms) of
             (Inr nm, Inr net, Inr pt) \<Rightarrow>
               Inr \<lparr>m_Name = nm, m_U = nil_U\<lparr>u_ParentInitNetworkDriverCompleted := net,
                                            u_ParentInitPortDriverCompleted := pt\<rparr>\<rparr>
           | _ \<Rightarrow> Inl type_error)
      | _ \<Rightarrow> Inl type_error)"

section \<open>Operations\<close>

definition Send :: "'w writer \<Rightarrow> Message \<Rightarrow> 'w \<Rightarrow> unit res \<times> 'w" where
  "Send wr m w =
     (case (if m_Name m = [] then FulfillName m else Inr m) of
        Inl e \<Rightarrow> (Inl e, w)
      | Inr m' \<Rightarrow>
          (case MarshalToWriter wr (enc_Message m') w of
             (Inl e, w') \<Rightarrow> (Inl (Wrapf ''failed to send message %+v: %w'' [m_Name m'] e), w')
           | (Inr _, w') \<Rightarrow> (Inr (), w')))"

definition Recv :: "reader \<Rightarrow> Message res \<times> reader" where
  "Recv r =
     (case UnmarshalFromReader dec_Message r of
        (_, Inl e, r') \<Rightarrow> (Inl e, r')
      | (_, Inr m, r') \<Rightarrow>
          if m_Name m = [] then (Inl (New ''failed to parse message''), r') else (Inr m, r'))"

definition WaitFor :: "reader \<Rightarrow> string \<Rightarrow> Message res \<times> reader" where
  "WaitFor r name =
     (case Recv r of
        (Inl e, r') \<Rightarrow> (Inl e, r')
      | (Inr msg, r') \<Rightarrow>
          if m_Name msg \<noteq> name then (Inl (Errorf ''expected %q, got %+v'' [name, m_Name msg]), r')
          else (Inr msg, r'))"

section \<open>What arrives\<close>

text \<open>
  The message as the receiver sees it: the pointers to structs without fields are nil, and
  a map is the same map, listed in the order of its keys.
\<close>

definition received_net :: "ParentInitNetworkDriverCompleted \<Rightarrow> ParentInitNetworkDriverCompleted" where
  "received_net p = p\<lparr>nm_NetworkDriverOpaque := sort_key fst (nm_NetworkDriverOpaque p)\<rparr>"

definition received_port :: "ParentInitPortDriverCompleted \<Rightarrow> ParentInitPortDriverCompleted" where
  "received_port p = p\<lparr>pm_PortDriverOpaque := sort_key fst (pm_PortDriverOpaque p)\<rparr>"

definition received :: "Message \<Rightarrow> Message" where
  "received m = \<lparr>m_Name = m_Name m, m_U = nil_U
     \<lparr>u_ParentInitNetworkDriverCompleted := map_option received_net (u_ParentInitNetworkDriverCompleted (m_U m)),
      u_ParentInitPortDriverCompleted := map_option received_port (u_ParentInitPortDriverCompleted (m_U m))\<rparr>\<rparr>"

definition wf_net :: "ParentInitNetworkDriverCompleted \<Rightarrow> bool" where
  "wf_net p \<longleftrightarrow> wf_json (nm_Network p) \<and> int64_ok (nm_Netmask p) \<and> int64_ok (nm_MTU p) \<and>
     wf_map (nm_NetworkDriverOpaque p)"

definition wf_Message :: "Message \<Rightarrow> bool" where
  "wf_Message m \<longleftrightarrow>
     (case u_ParentInitNetworkDriverCompleted (m_U m) of None \<Rightarrow> True | Some p \<Rightarrow> wf_net p) \<and>
     (case u_ParentInitPortDriverCompleted (m_U m) of None \<Rightarrow> True | Some p \<Rightarrow> wf_map (pm_PortDriverOpaque p))"

lemma wf_enc_Message: "wf_Message m \<Longrightarrow> wf_json (enc_Message m)"
  by (auto simp: wf_Message_def enc_Message_def net_members_def wf_net_def split: option.splits)

lemma lower_names:
  "map ToLower [''Name'', ''Network'', ''Dev'', ''IP'', ''Netmask'', ''Gateway'', ''DNS'', ''MTU'', ''NetworkDriverOpaque'', ''PortDriverOpaque'']
     = [''name'', ''network'', ''dev'', ''ip'', ''netmask'', ''gateway'', ''dns'', ''mtu'', ''networkdriveropaque'', ''portdriveropaque'']"
  by code_simp

lemmas lower_name = lower_names [simplified list.map list.inject]

lemma dec_net_members:
  assumes "wf_net p"
    and "\<And>f. f \<in> {''Network'', ''Dev'', ''IP'', ''Netmask'', ''Gateway'', ''DNS'', ''MTU'', ''NetworkDriverOpaque''} \<Longrightarrow>
      last_member f ms = last_member f (net_members p)"
  shows "dec_net ms = Inr (Some (received_net p))"
proof -
  have l: "last_member ''Network'' ms = Some (nm_Network p)" "last_member ''Dev'' ms = Some (JStr (nm_Dev p))"
    "last_member ''IP'' ms = Some (JStr (nm_IP p))" "last_member ''Netmask'' ms = Some (enc_int (nm_Netmask p))"
    "last_member ''Gateway'' ms = Some (JStr (nm_Gateway p))" "last_member ''DNS'' ms = Some (enc_list JStr (nm_DNS p))"
    "last_member ''MTU'' ms = Some (enc_int (nm_MTU p))"
    "last_member ''NetworkDriverOpaque'' ms = Some (enc_map (nm_NetworkDriverOpaque p))"
    using assms(2) by (simp_all add: net_members_def lower_name)
  show ?thesis
    using assms(1) l get_str_enc [OF l(2)] get_str_enc [OF l(3)] get_int_enc [OF l(4)] get_str_enc [OF l(5)]
      get_list_enc [OF l(6)] get_int_enc [OF l(7)] get_map_enc [OF l(8)]
    by (simp add: dec_net_def has_member_def wf_net_def received_net_def)
qed

lemma net_member_present:
  "f \<in> {''Network'', ''Dev'', ''IP'', ''Netmask'', ''Gateway'', ''DNS'', ''MTU'', ''NetworkDriverOpaque''} \<Longrightarrow>
   last_member f (net_members p) \<noteq> None"
  by (auto simp: net_members_def lower_name)

lemma dec_enc_Message:
  assumes "wf_Message m"
  shows "dec_Message (enc_Message m) = Inr (received m)"
proof -
  obtain ms where ms: "enc_Message m = JObj ms" by (simp add: enc_Message_def)
  have name: "get_str ''Name'' ms = Inr (m_Name m)"
    using ms by (intro get_str_enc)
      (auto simp: enc_Message_def net_members_def lower_name last_member_append split: option.splits)
  have pt: "dec_port ms = Inr (map_option received_port (u_ParentInitPortDriverCompleted (m_U m)))"
  proof (cases "u_ParentInitPortDriverCompleted (m_U m)")
    case None
    then have "last_member ''PortDriverOpaque'' ms = None"
      using ms by (auto simp: enc_Message_def net_members_def lower_name split: option.splits)
    with None show ?thesis by (simp add: dec_port_def has_member_def)
  next
    case (Some p)
    then have "last_member ''PortDriverOpaque'' ms = Some (enc_map (pm_PortDriverOpaque p))"
      using ms by (auto simp: enc_Message_def lower_name last_member_append)
    moreover have "wf_map (pm_PortDriverOpaque p)" using Some assms by (simp add: wf_Message_def)
    ultimately show ?thesis
      using Some get_map_enc by (fastforce simp: dec_port_def has_member_def received_port_def)
  qed
  have net: "dec_net ms = Inr (map_option received_net (u_ParentInitNetworkDriverCompleted (m_U m)))"
  proof (cases "u_ParentInitNetworkDriverCompleted (m_U m)")
    case None
    have "last_member f ms = None"
      if "f \<in> {''Network'', ''Dev'', ''IP'', ''Netmask'', ''Gateway'', ''DNS'', ''MTU'', ''NetworkDriverOpaque''}" for f
      using that None ms
      by (cases "u_ParentInitPortDriverCompleted (m_U m)") (auto simp: enc_Message_def lower_name)
    then show ?thesis using None by (simp add: dec_net_def has_member_def)
  next
    case (Some p)
    then have "wf_net p" using assms by (simp add: wf_Message_def)
    moreover have "last_member f ms = last_member f (net_members p)"
      if "f \<in> {''Network'', ''Dev'', ''IP'', ''Netmask'', ''Gateway'', ''DNS'', ''MTU'', ''NetworkDriverOpaque''}" for f
    proof -
      define q where "q = (case u_ParentInitPortDriverCompleted (m_U m) of None \<Rightarrow> []
        | Some p \<Rightarrow> [(''PortDriverOpaque'', enc_map (pm_PortDriverOpaque p))])"
      have "last_member f q = None"
        using that by (cases "u_ParentInitPortDriverCompleted (m_U m)") (auto simp: q_def lower_name)
      moreover have "last_member f (net_members p) \<noteq> None" using that by (rule net_member_present)
      moreover have "ms = (''Name'', JStr (m_Name m)) # net_members p @ q"
        using ms Some by (simp add: enc_Message_def q_def)
      ultimately show ?thesis by (auto simp: last_member_append)
    qed
    ultimately show ?thesis using dec_net_members Some by simp
  qed
  show ?thesis unfolding ms dec_Message_def using name net pt by (simp add: received_def)
qed

text \<open>Sending fills in the name of the payload, and the receiver that waits for this name accepts.\<close>

definition named :: "Message \<Rightarrow> Message" where
  "named m = (if m_Name m = [] then m\<lparr>m_Name := hd (U_fields (m_U m))\<rparr> else m)"

lemma named_simps [simp]: "m_U (named m) = m_U m" "wf_Message (named m) \<longleftrightarrow> wf_Message m"
  by (simp_all add: named_def wf_Message_def)

lemma U_fields_names: "n \<in> set (U_fields u) \<Longrightarrow> n \<noteq> []"
  by (auto simp: U_fields_def split: if_splits)

lemma named_name: "U_fields (m_U m) \<noteq> [] \<Longrightarrow> m_Name (named m) \<noteq> []"
  using U_fields_names [of "hd (U_fields (m_U m))" "m_U m"] by (simp add: named_def)

lemma Send_frame:
  assumes "U_fields (m_U m) \<noteq> []" and "fits (enc_Message (named m))"
    and "wr (frame (enc_Message (named m))) w = (Inr k, w')"
  shows "Send wr m w = (Inr (), w')"
proof -
  have "(if m_Name m = [] then FulfillName m else Inr m) = Inr (named m)"
    using assms(1) by (auto simp: FulfillName_def named_def split: list.splits)
  then show ?thesis using assms(2,3) by (simp add: Send_def MarshalToWriter_frame)
qed

lemma Recv_frame:
  assumes "wf_Message m" and "m_Name m \<noteq> []" and "fits (enc_Message m)"
  shows "Recv (frame (enc_Message m) # cs) = (Inr (received m), cs)"
proof -
  have "m_Name (received m) \<noteq> []" using assms(2) by (simp add: received_def)
  then show ?thesis
    by (simp add: Recv_def UnmarshalFromReader_last [OF assms(3)] dec_enc_Message [OF assms(1)])
qed

lemma WaitFor_accepts: "WaitFor r n = (Inr m, r') \<Longrightarrow> m_Name m = n \<and> n \<noteq> []"
  by (auto simp: WaitFor_def Recv_def split: prod.splits sum.splits if_splits)

text \<open>C10: delivery of a handshake message. A message with a payload is sent as one frame
  that is appended to the stream, and a peer that reads this frame and waits for the name
  of the payload gets the same name, the same network configuration and the same opaque
  strings of the drivers; only the order in which a map is listed, and the pointers of the
  messages without fields, are not transmitted.\<close>

theorem WaitFor_Send:
  assumes "wf_Message m" and "m_Name m = []" and "U_fields (m_U m) = n # ns"
    and "fits (enc_Message (m\<lparr>m_Name := n\<rparr>))"
  shows "\<exists>fr. Send Buffer_Write m buf = (Inr (), buf @ fr) \<and>
    WaitFor (fr # cs) n = (Inr (received (m\<lparr>m_Name := n\<rparr>)), cs)"
proof -
  have nm: "named m = m\<lparr>m_Name := n\<rparr>" using assms(2,3) by (simp add: named_def)
  let ?f = "frame (enc_Message (named m))"
  have "Send Buffer_Write m buf = (Inr (), buf @ ?f)"
    using assms(3,4) nm by (intro Send_frame [where k = "length ?f"]) (auto simp: Buffer_Write_def)
  moreover have "Recv (?f # cs) = (Inr (received (named m)), cs)"
    using assms(1,3,4) named_name [of m] by (intro Recv_frame) (simp_all, simp add: nm)
  ultimately show ?thesis using nm
    by (intro exI [of _ ?f]) (simp add: WaitFor_def received_def)
qed

theorem WaitFor_Send_witness:
  "\<exists>fr. Send Buffer_Write \<lparr>m_Name = [], m_U = nil_U\<lparr>u_ParentInitNetworkDriverCompleted :=
        Some (zero_net\<lparr>nm_Dev := ''tap0'', nm_MTU := 1500, nm_NetworkDriverOpaque := [(''b'', ''1''), (''a'', ''2'')]\<rparr>)\<rparr>\<rparr> [] = (Inr (), [] @ fr) \<and>
     WaitFor (fr # []) ''ParentInitNetworkDriverCompleted'' =
       (Inr (received \<lparr>m_Name = ''ParentInitNetworkDriverCompleted'', m_U = nil_U\<lparr>u_ParentInitNetworkDriverCompleted :=
        Some (zero_net\<lparr>nm_Dev := ''tap0'', nm_MTU := 1500, nm_NetworkDriverOpaque := [(''b'', ''1''), (''a'', ''2'')]\<rparr>)\<rparr>\<rparr>), [])"
proof -
  let ?m = "\<lparr>m_Name = [], m_U = nil_U\<lparr>u_ParentInitNetworkDriverCompleted :=
        Some (zero_net\<lparr>nm_Dev := ''tap0'', nm_MTU := 1500, nm_NetworkDriverOpaque := [(''b'', ''1''), (''a'', ''2'')]\<rparr>)\<rparr>\<rparr>"
  have "wf_Message ?m" "m_Name ?m = []" "U_fields (m_U ?m) = ''ParentInitNetworkDriverCompleted'' # []"
    by (simp_all add: wf_Message_def nil_U_def zero_net_def wf_net_def int64_ok_def wf_map_def keys_def U_fields_def)
  moreover have "fits (enc_Message (?m\<lparr>m_Name := ''ParentInitNetworkDriverCompleted''\<rparr>))"
    unfolding fits_def
  proof
    show "wf_json (enc_Message (?m\<lparr>m_Name := ''ParentInitNetworkDriverCompleted''\<rparr>))"
      by (rule wf_enc_Message)
        (simp add: wf_Message_def nil_U_def zero_net_def wf_net_def int64_ok_def wf_map_def keys_def)
    have "length (print_json (enc_Message (?m\<lparr>m_Name := ''ParentInitNetworkDriverCompleted''\<rparr>))) \<le> 300"
      by code_simp
    then show "length (print_json (enc_Message (?m\<lparr>m_Name := ''ParentInitNetworkDriverCompleted''\<rparr>))) \<le> maxLength"
      by (simp add: maxLength_def)
  qed
  ultimately show ?thesis using WaitFor_Send [of ?m "''ParentInitNetworkDriverCompleted''" "[]" "[]" "[]"]
    by simp
qed

end
