(* ===== verification/Port.thy ===== *)
theory Port
  imports Go_Net
begin

text \<open>
  \<^verbatim>\<open>pkg/port\<close>: the port specification and status, and the contract of \<^verbatim>\<open>port.Manager\<close>
  that the three port drivers implement and that the REST API and the parent process call.
  An operation takes an environment (the outcome of the listening socket, of the API of
  slirp4netns or of the gvisor-tap-vsock service) and the driver state, and returns its
  result and the new state. The table maps ids to statuses.
\<close>

record Spec =
  Proto :: string
  ParentIP :: string
  ParentPort :: int
  ChildPort :: int
  ChildIP :: string

record Status =
  ID :: int
  St_Spec :: Spec

record ChildContext =
  cctx_IP :: IP
  cctx_Network :: "bool"
  cctx_GatewayIP :: IP

record NetworkDriverInfo =
  ndi_Driver :: string
  ndi_DNS :: "IP list"
  ndi_ChildIP :: IP
  ndi_DynamicChildIP :: bool

record PortDriverInfo =
  pdi_Driver :: string
  pdi_Protos :: "string list"
  pdi_DisallowLoopbackChildIP :: bool

type_synonym port_table = "(int \<times> Status) list"

text \<open>Every entry is stored under its own id, and no id twice.\<close>

definition wf_table :: "port_table \<Rightarrow> bool" where
  "wf_table m \<longleftrightarrow> wf_map m \<and> list_all (\<lambda>(i, st). ID st = i) m"

lemma wf_table_Nil [simp]: "wf_table []"
  by (simp add: wf_table_def)

lemma list_all_map_put: "list_all P m \<Longrightarrow> P (k, v) \<Longrightarrow> list_all P (map_put k v m)"
  by (induction k v m rule: map_put.induct) auto

lemma wf_table_put [simp]: "wf_table m \<Longrightarrow> ID st = i \<Longrightarrow> wf_table (map_put i st m)"
  by (simp add: wf_table_def list_all_map_put)

lemma wf_table_del [simp]: "wf_table m \<Longrightarrow> wf_table (map_del i m)"
  by (auto simp: wf_table_def list_all_iff map_del_def wf_map_del [unfolded map_del_def])

lemma wf_table_ids: "wf_table m \<Longrightarrow> map (ID \<circ> snd) m = keys m"
  by (induction m) (auto simp: wf_table_def keys_def wf_map_def)

lemma wf_table_status: "wf_table m \<Longrightarrow> st \<in> snd ` set m \<Longrightarrow> map_of m (ID st) = Some st"
  by (auto simp: wf_table_def list_all_iff wf_map_in_set [symmetric])

lemma map_snd_del: "wf_table m \<Longrightarrow> map snd (map_del i m) = filter (\<lambda>st. ID st \<noteq> i) (map snd m)"
  by (induction m) (auto simp: map_del_def wf_table_def wf_map_def keys_def)

section \<open>The contract of a port manager\<close>

locale port_manager =
  fixes add_port :: "'e \<Rightarrow> 's \<Rightarrow> Spec \<Rightarrow> Status res \<times> 's"
    and remove_port :: "'e \<Rightarrow> 's \<Rightarrow> int \<Rightarrow> unit res \<times> 's"
    and list_ports :: "'s \<Rightarrow> Status list"
    and table :: "'s \<Rightarrow> port_table"
    and invar :: "'s \<Rightarrow> bool"
    and env_ok :: "'e \<Rightarrow> 's \<Rightarrow> bool"
  assumes list_table: "invar s \<Longrightarrow> list_ports s = map snd (table s)"
    and invar_wf: "invar s \<Longrightarrow> wf_table (table s)"
    and add_ok: "invar s \<Longrightarrow> env_ok e s \<Longrightarrow> add_port e s sp = (Inr st, s') \<Longrightarrow>
      invar s' \<and> ID st \<notin> set (keys (table s)) \<and> table s' = map_put (ID st) st (table s)"
    and add_err: "invar s \<Longrightarrow> env_ok e s \<Longrightarrow> add_port e s sp = (Inl er, s') \<Longrightarrow>
      invar s' \<and> table s' = table s"
    and remove_ok: "invar s \<Longrightarrow> remove_port e s i = (Inr u, s') \<Longrightarrow>
      invar s' \<and> table s' = map_del i (table s)"
    and remove_err: "invar s \<Longrightarrow> remove_port e s i = (Inl er, s') \<Longrightarrow>
      invar s' \<and> (table s' = table s \<or> table s' = map_del i (table s))"
begin

text \<open>The ids a manager lists are distinct, and an id names one status.\<close>

lemma list_ids_distinct: "invar s \<Longrightarrow> distinct (map ID (list_ports s))"
  using invar_wf [of s] wf_table_ids [of "table s"]
  by (simp add: list_table wf_table_def wf_map_def)

lemma list_after_add:
  "invar s \<Longrightarrow> env_ok e s \<Longrightarrow> add_port e s sp = (Inr st, s') \<Longrightarrow> list_ports s' = list_ports s @ [st]"
  using add_ok [of s e sp st s'] by (auto simp: list_table map_put_fresh)

lemma list_after_failed_add:
  "invar s \<Longrightarrow> env_ok e s \<Longrightarrow> add_port e s sp = (Inl er, s') \<Longrightarrow> list_ports s' = list_ports s"
  using add_err [of s e sp er s'] by (auto simp: list_table)

lemma list_after_remove:
  assumes "invar s" and "remove_port e s i = (Inr u, s')"
  shows "list_ports s' = filter (\<lambda>st. ID st \<noteq> i) (list_ports s)"
proof -
  have "map snd (map_del i (table s)) = filter (\<lambda>st. ID st \<noteq> i) (map snd (table s))"
    using invar_wf [OF assms(1)] by (rule map_snd_del)
  then show ?thesis using remove_ok [OF assms] assms(1) by (simp add: list_table)
qed

text \<open>Adding a port and removing it again leaves what was listed before.\<close>

lemma add_then_remove:
  assumes "invar s" and "env_ok e s" and "add_port e s sp = (Inr st, s1)"
    and "remove_port e' s1 (ID st) = (Inr u, s2)"
  shows "list_ports s2 = list_ports s"
proof -
  note a = add_ok [OF assms(1-3)]
  with remove_ok [of s1 e' "ID st" u s2] assms(1,4) show ?thesis
    by (auto simp: list_table map_del_put_fresh)
qed

lemma invar_add:
  assumes "invar s" and "env_ok e s"
  shows "invar (snd (add_port e s sp))"
proof (cases "add_port e s sp")
  case (Pair r s')
  show ?thesis
  proof (cases r)
    case (Inl er)
    with Pair add_err [OF assms, of sp er s'] show ?thesis by simp
  next
    case (Inr st)
    with Pair add_ok [OF assms, of sp st s'] show ?thesis by simp
  qed
qed

lemma invar_remove:
  assumes "invar s"
  shows "invar (snd (remove_port e s i))"
proof (cases "remove_port e s i")
  case (Pair r s')
  show ?thesis
  proof (cases r)
    case (Inl er)
    with Pair remove_err [OF assms, of e i er s'] show ?thesis by simp
  next
    case (Inr u)
    with Pair remove_ok [OF assms, of e i u s'] show ?thesis by simp
  qed
qed

end

end
