(* ===== verification/Go_Os.thy ===== *)
theory Go_Os
  imports Messages Port
begin

text \<open>
  Programs that talk to the operating system. A program is a tree: it has returned, or it
  makes a call and continues with the answer. Calls cover the packages \<^verbatim>\<open>os\<close>, \<^verbatim>\<open>os/exec\<close>,
  \<^verbatim>\<open>syscall\<close> and \<^verbatim>\<open>golang.org/x/sys/unix\<close> as far as the program uses them, and the handshake
  messages on the two pipes. The answer holds an error or values; a call reads the value it
  returns in Go. Programs are run against an environment that maps the calls made so far and
  the next call to an answer, so that a theorem over all environments covers every behaviour
  of the system; the concurrent runs of the parent and the child are in \<open>Handshake\<close>.
\<close>

datatype (plugins only: code size) call =
    Getenv string
  | Setenv string string
  | Unsetenv string
  | Environ
  | Args
  | Executable
  | Getpid
  | Geteuid
  | Getegid
  | Hostname
  | Stat string
  | MkdirAll string
  | MkdirTemp string string
  | RemoveAll string
  | ReadDir string
  | ReadFile string
  | WriteFile string string
  | Symlink string string
  | Readlink string
  | OpenDir string
  | LockShared string
  | TryLock string
  | Unlock string
  | OpenPipe string
  | ClosePipe string
  | Mount string string string "string list"
  | EnterNetns string
  | LeaveNetns string
  | Run "string list"
  | RunAs string "string list"
  | LookPath string
  | StartCmd "string list" "string list" "string list" "string list"
  | Wait int
  | WaitProc int
  | Wait4
  | Kill int
  | Capget
  | Prctl string
  | Sleep int
  | Execve string "string list"
  | NotifySigchld
  | ForwardSignals int
  | StopSignals int
  | Listen string
  | CloseListener string
  | SendMsg string Message
  | WaitMsg string string
  | PortStart ChildContext
  | PortInit
  | PortAdd Spec
  | PortChildStart "(string \<times> string) list" string
  | PortQuit
  | PortResult
  | Driver string "string list"

record ans =
  a_err :: "err option"
  a_str :: string
  a_int :: int
  a_strs :: "string list"
  a_links :: "string list"
  a_batch :: "(int \<times> int) list"
  a_msg :: Message

definition ok_ans :: ans where
  "ok_ans = \<lparr>a_err = None, a_str = [], a_int = 0, a_strs = [], a_links = [], a_batch = [],
     a_msg = \<lparr>m_Name = [], m_U = nil_U\<rparr>\<rparr>"

lemma ok_ans_sel [simp]:
  "a_err ok_ans = None" "a_str ok_ans = []" "a_int ok_ans = 0" "a_strs ok_ans = []" "a_links ok_ans = []"
  "a_batch ok_ans = []"
  by (simp_all add: ok_ans_def)

datatype 'a prog =
    Ret 'a
  | Do call "ans \<Rightarrow> 'a prog"

primrec pbind :: "'a prog \<Rightarrow> ('a \<Rightarrow> 'b prog) \<Rightarrow> 'b prog" where
  "pbind (Ret x) k = k x"
| "pbind (Do c f) k = Do c (\<lambda>a. pbind (f a) k)"

text \<open>Go's \<^verbatim>\<open>if err != nil { return err }\<close>.\<close>

definition tryp :: "'a res prog \<Rightarrow> ('a \<Rightarrow> 'b res prog) \<Rightarrow> 'b res prog" where
  "tryp m k = pbind m (\<lambda>r. case r of Inl e \<Rightarrow> Ret (Inl e) | Inr x \<Rightarrow> k x)"

text \<open>The same with \<^verbatim>\<open>fmt.Errorf\<close> around the error.\<close>

definition tryw :: "string \<Rightarrow> string list \<Rightarrow> 'a res prog \<Rightarrow> ('a \<Rightarrow> 'b res prog) \<Rightarrow> 'b res prog" where
  "tryw fmt args m k = pbind m (\<lambda>r. case r of Inl e \<Rightarrow> Ret (Inl (Wrapf fmt args e)) | Inr x \<Rightarrow> k x)"

text \<open>A call whose error is ignored or only logged.\<close>

definition ignore :: "'a prog \<Rightarrow> 'b prog \<Rightarrow> 'b prog" where
  "ignore m k = pbind m (\<lambda>_. k)"

text \<open>\<^verbatim>\<open>defer\<close>: the cleanup runs whatever the rest returns, and its own result is dropped.\<close>

definition defer_call :: "'c prog \<Rightarrow> 'a prog \<Rightarrow> 'a prog" where
  "defer_call cleanup body = pbind body (\<lambda>r. pbind cleanup (\<lambda>_. Ret r))"

definition sys_unit :: "call \<Rightarrow> unit res prog" where
  "sys_unit c = Do c (\<lambda>a. Ret (case a_err a of Some e \<Rightarrow> Inl e | None \<Rightarrow> Inr ()))"

definition sys_str :: "call \<Rightarrow> string res prog" where
  "sys_str c = Do c (\<lambda>a. Ret (case a_err a of Some e \<Rightarrow> Inl e | None \<Rightarrow> Inr (a_str a)))"

definition sys_int :: "call \<Rightarrow> int res prog" where
  "sys_int c = Do c (\<lambda>a. Ret (case a_err a of Some e \<Rightarrow> Inl e | None \<Rightarrow> Inr (a_int a)))"

definition sys_strs :: "call \<Rightarrow> string list res prog" where
  "sys_strs c = Do c (\<lambda>a. Ret (case a_err a of Some e \<Rightarrow> Inl e | None \<Rightarrow> Inr (a_strs a)))"

definition sys_msg :: "call \<Rightarrow> Message res prog" where
  "sys_msg c = Do c (\<lambda>a. Ret (case a_err a of Some e \<Rightarrow> Inl e | None \<Rightarrow> Inr (a_msg a)))"

text \<open>Calls that cannot fail.\<close>

definition get_env :: "string \<Rightarrow> string prog" where
  "get_env k = Do (Getenv k) (\<lambda>a. Ret (a_str a))"

definition get_str_of :: "call \<Rightarrow> string prog" where
  "get_str_of c = Do c (\<lambda>a. Ret (a_str a))"

definition get_int_of :: "call \<Rightarrow> int prog" where
  "get_int_of c = Do c (\<lambda>a. Ret (a_int a))"

definition get_strs_of :: "call \<Rightarrow> string list prog" where
  "get_strs_of c = Do c (\<lambda>a. Ret (a_strs a))"

fun seq_calls :: "unit res prog list \<Rightarrow> unit res prog" where
  "seq_calls [] = Ret (Inr ())"
| "seq_calls (p # ps) = tryp p (\<lambda>_. seq_calls ps)"

section \<open>Messages of the handshake\<close>

definition empty_Message :: "U \<Rightarrow> Message" where
  "empty_Message u = \<lparr>m_Name = [], m_U = u\<rparr>"

definition send :: "string \<Rightarrow> Message \<Rightarrow> unit res prog" where
  "send p m = sys_unit (SendMsg p m)"

definition wait_for :: "string \<Rightarrow> string \<Rightarrow> Message res prog" where
  "wait_for p n = sys_msg (WaitMsg p n)"

section \<open>Running a program\<close>

type_synonym os = "call list \<Rightarrow> call \<Rightarrow> ans"

primrec run :: "'a prog \<Rightarrow> os \<Rightarrow> call list \<Rightarrow> 'a \<times> call list" where
  "run (Ret x) os h = (x, h)"
| "run (Do c f) os h = run (f (os h c)) os (h @ [c])"

lemma run_bind: "run (pbind m k) os h = (case run m os h of (x, h') \<Rightarrow> run (k x) os h')"
  by (induction m arbitrary: h) auto

lemma run_try: "run (tryp m k) os h = (case run m os h of (Inl e, h') \<Rightarrow> (Inl e, h') | (Inr x, h') \<Rightarrow> run (k x) os h')"
  by (simp add: tryp_def run_bind split: prod.splits sum.splits)

lemma run_tryw: "run (tryw f as m k) os h =
  (case run m os h of (Inl e, h') \<Rightarrow> (Inl (Wrapf f as e), h') | (Inr x, h') \<Rightarrow> run (k x) os h')"
  by (simp add: tryw_def run_bind split: prod.splits sum.splits)

lemma run_ignore: "run (ignore m k) os h = run k os (snd (run m os h))"
  by (simp add: ignore_def run_bind split: prod.splits)

lemma run_defer: "run (defer_call c m) os h = (fst (run m os h), snd (run c os (snd (run m os h))))"
  by (simp add: defer_call_def run_bind split: prod.splits)

lemma run_sys_unit: "run (sys_unit c) os h = ((case a_err (os h c) of Some e \<Rightarrow> Inl e | None \<Rightarrow> Inr ()), h @ [c])"
  by (simp add: sys_unit_def)

lemma run_sys_vals:
  "run (sys_str c) os h = ((case a_err (os h c) of Some e \<Rightarrow> Inl e | None \<Rightarrow> Inr (a_str (os h c))), h @ [c])"
  "run (sys_int c) os h = ((case a_err (os h c) of Some e \<Rightarrow> Inl e | None \<Rightarrow> Inr (a_int (os h c))), h @ [c])"
  "run (sys_strs c) os h = ((case a_err (os h c) of Some e \<Rightarrow> Inl e | None \<Rightarrow> Inr (a_strs (os h c))), h @ [c])"
  "run (sys_msg c) os h = ((case a_err (os h c) of Some e \<Rightarrow> Inl e | None \<Rightarrow> Inr (a_msg (os h c))), h @ [c])"
  "run (get_env k) os h = (a_str (os h (Getenv k)), h @ [Getenv k])"
  "run (get_str_of c) os h = (a_str (os h c), h @ [c])"
  "run (get_int_of c) os h = (a_int (os h c), h @ [c])"
  "run (get_strs_of c) os h = (a_strs (os h c), h @ [c])"
  by (simp_all add: sys_str_def sys_int_def sys_strs_def sys_msg_def get_env_def get_str_of_def get_int_of_def
      get_strs_of_def)

lemmas run_simps = run_bind run_try run_tryw run_ignore run_defer run_sys_unit

text \<open>The history only grows.\<close>

lemma run_prefix: "\<exists>t. snd (run m os h) = h @ t"
proof (induction m arbitrary: h)
  case (Do c f)
  have "\<exists>t. snd (run (f (os h c)) os (h @ [c])) = (h @ [c]) @ t" by (rule Do) simp
  then show ?case by auto
qed simp

text \<open>The calls a program makes, given the history before it.\<close>

definition calls :: "'a prog \<Rightarrow> os \<Rightarrow> call list \<Rightarrow> call list" where
  "calls m os h = drop (length h) (snd (run m os h))"

lemma run_calls: "snd (run m os h) = h @ calls m os h"
  using run_prefix [of m os h] by (auto simp: calls_def)

section \<open>A program logic\<close>

text \<open>
  A monitor watches the calls of a program: \<open>ok s c\<close> says that the call is allowed in the
  monitor state, \<open>al s c a\<close> which answers the system may give, and \<open>upd\<close> is the next state.
  The check of a program is its weakest precondition for allowed calls only and a
  postcondition on the final monitor state and the result.
\<close>

record 's monitor =
  mo_ok :: "'s \<Rightarrow> call \<Rightarrow> bool"
  mo_al :: "'s \<Rightarrow> call \<Rightarrow> ans \<Rightarrow> bool"
  mo_upd :: "'s \<Rightarrow> call \<Rightarrow> ans \<Rightarrow> 's"

primrec check :: "'s monitor \<Rightarrow> ('s \<Rightarrow> 'a \<Rightarrow> bool) \<Rightarrow> 'a prog \<Rightarrow> 's \<Rightarrow> bool" where
  "check M Q (Ret x) s = Q s x"
| "check M Q (Do c f) s = (mo_ok M s c \<and> (\<forall>a. mo_al M s c a \<longrightarrow> check M Q (f a) (mo_upd M s c a)))"

lemma check_bind: "check M Q (pbind m k) s = check M (\<lambda>s' x. check M Q (k x) s') m s"
  by (induction m arbitrary: s) auto

lemma check_conseq: "check M Q m s \<Longrightarrow> (\<And>s' x. Q s' x \<Longrightarrow> R s' x) \<Longrightarrow> check M R m s"
  by (induction m arbitrary: s) auto

lemma check_try: "check M Q (tryp m k) s =
  check M (\<lambda>s' r. case r of Inl e \<Rightarrow> Q s' (Inl e) | Inr x \<Rightarrow> check M Q (k x) s') m s"
  unfolding tryp_def check_bind
  by (rule arg_cong [where f = "\<lambda>R. check M R m s"]) (auto simp: fun_eq_iff split: sum.splits)

lemma check_tryw: "check M Q (tryw f as m k) s =
  check M (\<lambda>s' r. case r of Inl e \<Rightarrow> Q s' (Inl (Wrapf f as e)) | Inr x \<Rightarrow> check M Q (k x) s') m s"
  unfolding tryw_def check_bind
  by (rule arg_cong [where f = "\<lambda>R. check M R m s"]) (auto simp: fun_eq_iff split: sum.splits)

lemma check_ignore: "check M Q (ignore m k) s = check M (\<lambda>s' _. check M Q k s') m s"
  by (simp add: ignore_def check_bind)

lemma check_defer: "check M Q (defer_call c m) s = check M (\<lambda>s' r. check M (\<lambda>s'' _. Q s'' r) c s') m s"
  by (simp add: defer_call_def check_bind)

lemma check_sys:
  "check M Q (sys_unit c) s \<longleftrightarrow> mo_ok M s c \<and>
     (\<forall>a. mo_al M s c a \<longrightarrow> Q (mo_upd M s c a) (case a_err a of Some e \<Rightarrow> Inl e | None \<Rightarrow> Inr ()))"
  "check M Q2 (sys_str c) s \<longleftrightarrow> mo_ok M s c \<and>
     (\<forall>a. mo_al M s c a \<longrightarrow> Q2 (mo_upd M s c a) (case a_err a of Some e \<Rightarrow> Inl e | None \<Rightarrow> Inr (a_str a)))"
  "check M Q3 (sys_int c) s \<longleftrightarrow> mo_ok M s c \<and>
     (\<forall>a. mo_al M s c a \<longrightarrow> Q3 (mo_upd M s c a) (case a_err a of Some e \<Rightarrow> Inl e | None \<Rightarrow> Inr (a_int a)))"
  "check M Q4 (sys_strs c) s \<longleftrightarrow> mo_ok M s c \<and>
     (\<forall>a. mo_al M s c a \<longrightarrow> Q4 (mo_upd M s c a) (case a_err a of Some e \<Rightarrow> Inl e | None \<Rightarrow> Inr (a_strs a)))"
  "check M Q5 (sys_msg c) s \<longleftrightarrow> mo_ok M s c \<and>
     (\<forall>a. mo_al M s c a \<longrightarrow> Q5 (mo_upd M s c a) (case a_err a of Some e \<Rightarrow> Inl e | None \<Rightarrow> Inr (a_msg a)))"
  by (simp_all add: sys_unit_def sys_str_def sys_int_def sys_strs_def sys_msg_def)

lemma check_get:
  "check M Q (get_env k) s \<longleftrightarrow> mo_ok M s (Getenv k) \<and> (\<forall>a. mo_al M s (Getenv k) a \<longrightarrow> Q (mo_upd M s (Getenv k) a) (a_str a))"
  "check M Q (get_str_of c) s \<longleftrightarrow> mo_ok M s c \<and> (\<forall>a. mo_al M s c a \<longrightarrow> Q (mo_upd M s c a) (a_str a))"
  "check M Q2 (get_int_of c) s \<longleftrightarrow> mo_ok M s c \<and> (\<forall>a. mo_al M s c a \<longrightarrow> Q2 (mo_upd M s c a) (a_int a))"
  "check M Q3 (get_strs_of c) s \<longleftrightarrow> mo_ok M s c \<and> (\<forall>a. mo_al M s c a \<longrightarrow> Q3 (mo_upd M s c a) (a_strs a))"
  by (simp_all add: get_env_def get_str_of_def get_int_of_def get_strs_of_def)

lemma check_seq_calls_Cons: "check M Q (seq_calls (p # ps)) s =
  check M (\<lambda>s' r. case r of Inl e \<Rightarrow> Q s' (Inl e) | Inr _ \<Rightarrow> check M Q (seq_calls ps) s') p s"
  by (simp add: check_try)

lemmas check_simps = check_bind check_try check_tryw check_ignore check_defer check_sys check_get

text \<open>Programs all of whose calls have a property, whatever the answers.\<close>

primrec only :: "(call \<Rightarrow> bool) \<Rightarrow> 'a prog \<Rightarrow> bool" where
  "only P (Ret x) = True"
| "only P (Do c f) = (P c \<and> (\<forall>a. only P (f a)))"

definition any_monitor :: "(call \<Rightarrow> bool) \<Rightarrow> unit monitor" where
  "any_monitor P = \<lparr>mo_ok = (\<lambda>_. P), mo_al = (\<lambda>_ _ _. True), mo_upd = (\<lambda>_ _ _. ())\<rparr>"

lemma only_check: "only P m = check (any_monitor P) (\<lambda>_ _. True) m ()"
  by (induction m) (auto simp: any_monitor_def)

lemma only_bind: "only P m \<Longrightarrow> (\<And>x. only P (k x)) \<Longrightarrow> only P (pbind m k)"
  by (induction m) auto

lemma only_tryp: "only P m \<Longrightarrow> (\<And>x. only P (k x)) \<Longrightarrow> only P (tryp m k)"
  unfolding tryp_def by (auto intro!: only_bind split: sum.splits)

lemma only_tryw: "only P m \<Longrightarrow> (\<And>x. only P (k x)) \<Longrightarrow> only P (tryw f as m k)"
  unfolding tryw_def by (auto intro!: only_bind split: sum.splits)

lemma only_ignore: "only P m \<Longrightarrow> only P k \<Longrightarrow> only P (ignore m k)"
  unfolding ignore_def by (auto intro!: only_bind)

lemma only_defer: "only P m \<Longrightarrow> only P c \<Longrightarrow> only P (defer_call c m)"
  unfolding defer_call_def by (auto intro!: only_bind)

lemmas only_combinators = only_bind only_tryp only_tryw only_ignore only_defer

lemma only_sys [simp]:
  "only P (sys_unit c) = P c" "only P (sys_str c) = P c" "only P (sys_int c) = P c"
  "only P (sys_strs c) = P c" "only P (sys_msg c) = P c" "only P (get_env k) = P (Getenv k)"
  "only P (get_str_of c) = P c" "only P (get_int_of c) = P c" "only P (get_strs_of c) = P c"
  by (simp_all add: sys_unit_def sys_str_def sys_int_def sys_strs_def sys_msg_def get_env_def get_str_of_def
      get_int_of_def get_strs_of_def)

lemma only_seq_calls: "(\<And>p. p \<in> set ps \<Longrightarrow> only P p) \<Longrightarrow> only P (seq_calls ps)"
  by (induction ps) (auto intro!: only_combinators)

lemma only_mono: "only P m \<Longrightarrow> (\<And>c. P c \<Longrightarrow> P' c) \<Longrightarrow> only P' m"
  by (induction m) auto

text \<open>A program that makes only calls the monitor does not look at keeps the monitor state.\<close>

lemma check_only:
  "only P m \<Longrightarrow> (\<And>c a. P c \<Longrightarrow> mo_ok M s c \<and> mo_upd M s c a = s) \<Longrightarrow> (\<And>x. Q s x) \<Longrightarrow> check M Q m s"
  by (induction m) auto

text \<open>A property of every value a program may return.\<close>

primrec returns :: "('a \<Rightarrow> bool) \<Rightarrow> 'a prog \<Rightarrow> bool" where
  "returns P (Ret x) = P x"
| "returns P (Do c f) = (\<forall>a. returns P (f a))"

lemma returns_bind: "returns P (pbind m k) = returns (\<lambda>x. returns P (k x)) m"
  by (induction m) auto

lemma returns_mono: "returns P m \<Longrightarrow> (\<And>x. P x \<Longrightarrow> P' x) \<Longrightarrow> returns P' m"
  by (induction m) auto

lemma check_only_returns:
  "only P m \<Longrightarrow> returns R m \<Longrightarrow> (\<And>c a. P c \<Longrightarrow> mo_ok M s c \<and> mo_upd M s c a = s) \<Longrightarrow>
   (\<And>x. R x \<Longrightarrow> Q s x) \<Longrightarrow> check M Q m s"
  by (induction m) auto

text \<open>Checked programs, run in an environment that gives only expected answers, make allowed calls only.\<close>

fun mon_trace :: "'s monitor \<Rightarrow> os \<Rightarrow> call list \<Rightarrow> 's \<Rightarrow> call list \<Rightarrow> 's" where
  "mon_trace M os h s [] = s"
| "mon_trace M os h s (c # cs) = mon_trace M os (h @ [c]) (mo_upd M s c (os h c)) cs"

lemma check_run:
  assumes "check M Q m s" and "\<And>s h c. mo_al M s c (os h c)" and "run m os h = (x, h')"
  shows "\<exists>cs. h' = h @ cs \<and> Q (mon_trace M os h s cs) x"
  using assms(1,3)
proof (induction m arbitrary: s h)
  case (Ret y)
  then show ?case by (intro exI [of _ "[]"]) simp
next
  case (Do c f)
  then have "check M Q (f (os h c)) (mo_upd M s c (os h c))" "run (f (os h c)) os (h @ [c]) = (x, h')"
    using assms(2) by auto
  then obtain cs where "h' = (h @ [c]) @ cs" "Q (mon_trace M os (h @ [c]) (mo_upd M s c (os h c)) cs) x"
    using Do.IH [OF rangeI] by blast
  then show ?case by (intro exI [of _ "c # cs"]) simp
qed

end
