(* ===== verification/Subids.thy ===== *)
theory Subids
  imports Go_Os "HOL-Library.Sublist"
begin

text \<open>
  Subordinate user and group ids: \<^verbatim>\<open>pkg/parent/idtools\<close> (the files \<^verbatim>\<open>/etc/subuid\<close> and
  \<^verbatim>\<open>/etc/subgid\<close>), \<^verbatim>\<open>pkg/parent/dynidtools\<close> (the command \<^verbatim>\<open>getsubids\<close>) and the part of
  \<^verbatim>\<open>pkg/parent\<close> that turns them into the arguments of \<^verbatim>\<open>newuidmap\<close> and \<^verbatim>\<open>newgidmap\<close>. File
  contents, the environment variable and the outputs of commands are the environment.
\<close>

record SubIDRange =
  Start :: int
  Length :: int

section \<open>Lines\<close>

text \<open>
  \<^verbatim>\<open>bufio.Scanner\<close> with the default split function: lines without their end, a carriage
  return before it removed, and an error at the first line that does not fit the buffer of
  64 KiB.
\<close>

definition strip_cr :: "string \<Rightarrow> string" where
  "strip_cr l = (if l \<noteq> [] \<and> last l = CHR 0x0D then butlast l else l)"

definition raw_lines :: "string \<Rightarrow> string list" where
  "raw_lines s = (let ls = Split s CHR 0x0A in if last ls = [] then butlast ls else ls)"

definition fits_buffer :: "string \<Rightarrow> bool" where
  "fits_buffer l \<longleftrightarrow> int (length l) < 65536"

definition scan_lines :: "string \<Rightarrow> string list \<times> unit res" where
  "scan_lines s =
     (let ls = raw_lines s in
      (map strip_cr (takeWhile fits_buffer ls),
       if list_all fits_buffer ls then Inr () else Inl (Sys ''bufio.Scanner: token too long'')))"

section \<open>idtools\<close>

definition subuidFileName :: string where
  "subuidFileName = ''/etc/subuid''"

definition subgidFileName :: string where
  "subgidFileName = ''/etc/subgid''"

fun parse_subid_lines :: "string \<Rightarrow> int \<Rightarrow> string \<Rightarrow> string list \<Rightarrow> SubIDRange list res" where
  "parse_subid_lines path uid username [] = Inr []"
| "parse_subid_lines path uid username (l # ls) =
     (let text = TrimSpace l in
      if text = [] \<or> HasPrefix text ''#'' then parse_subid_lines path uid username ls
      else
        (case Split text CHR '':'' of
           [p0, p1, p2] \<Rightarrow>
             if p0 = strconv_Itoa uid \<or> (username \<noteq> [] \<and> p0 = username) then
               (case strconv_Atoi p1 of
                  Inl e \<Rightarrow> Inl (Wrapf ''String to int conversion failed during subuid/gid parsing of %s: %v'' [path] e)
                | Inr startid \<Rightarrow>
                    (case strconv_Atoi p2 of
                       Inl e \<Rightarrow> Inl (Wrapf ''String to int conversion failed during subuid/gid parsing of %s: %v'' [path] e)
                     | Inr len \<Rightarrow>
                         (case parse_subid_lines path uid username ls of
                            Inl e \<Rightarrow> Inl e
                          | Inr rs \<Rightarrow> Inr (\<lparr>Start = startid, Length = len\<rparr> # rs))))
             else parse_subid_lines path uid username ls
         | _ \<Rightarrow> Inl (Errorf ''Cannot parse subuid/gid information: Format not correct for %s file'' [path])))"

text \<open>The caller uses the ranges only when there is no error.\<close>

definition parseSubidFile :: "(string \<Rightarrow> string res) \<Rightarrow> string \<Rightarrow> int \<Rightarrow> string \<Rightarrow> SubIDRange list res" where
  "parseSubidFile open_file path uid username =
     (case open_file path of
        Inl e \<Rightarrow> Inl e
      | Inr content \<Rightarrow>
          (case scan_lines content of
             (ls, serr) \<Rightarrow>
               (case parse_subid_lines path uid username ls of
                  Inl e \<Rightarrow> Inl e
                | Inr rs \<Rightarrow> (case serr of Inl e \<Rightarrow> Inl e | Inr _ \<Rightarrow> Inr rs))))"

definition parseSubuid :: "(string \<Rightarrow> string res) \<Rightarrow> int \<Rightarrow> string \<Rightarrow> SubIDRange list res" where
  "parseSubuid open_file uid username = parseSubidFile open_file subuidFileName uid username"

definition parseSubgid :: "(string \<Rightarrow> string res) \<Rightarrow> int \<Rightarrow> string \<Rightarrow> SubIDRange list res" where
  "parseSubgid open_file uid username = parseSubidFile open_file subgidFileName uid username"

declare parseSubuid_def [simp] parseSubgid_def [simp]

definition GetSubIDRanges :: "(string \<Rightarrow> string res) \<Rightarrow> int \<Rightarrow> string \<Rightarrow> (SubIDRange list \<times> SubIDRange list) res" where
  "GetSubIDRanges open_file uid username =
     (case parseSubuid open_file uid username of
        Inl e \<Rightarrow> Inl e
      | Inr us \<Rightarrow>
          (case parseSubgid open_file uid username of
             Inl e \<Rightarrow> Inl e
           | Inr gs \<Rightarrow>
               if us = [] then Inl (Errorf ''No subuid ranges found for user %d (%q)'' [strconv_Itoa uid, username])
               else if gs = [] then Inl (Errorf ''No subgid ranges found for user %d (%q)'' [strconv_Itoa uid, username])
               else Inr (us, gs)))"

section \<open>dynidtools\<close>

fun without_dups :: "SubIDRange list \<Rightarrow> SubIDRange list \<Rightarrow> SubIDRange list" where
  "without_dups seen [] = []"
| "without_dups seen (x # xs) =
     (if x \<in> set seen then without_dups seen xs else x # without_dups (x # seen) xs)"

definition withoutDuplicates :: "SubIDRange list \<Rightarrow> SubIDRange list" where
  "withoutDuplicates xs = without_dups [] xs"

text \<open>\<open>i\<close> counts the lines; the warnings are only logged. \<^const>\<open>Inl\<close> is the error return, at which the
  ranges read so far are returned as well.\<close>

fun parse_getsubids :: "int \<Rightarrow> string list \<Rightarrow> SubIDRange list \<times> string list \<times> unit res" where
  "parse_getsubids i [] = ([], [], Inr ())"
| "parse_getsubids i (l # ls) =
     (let line = TrimSpace l; n = strconv_Itoa (i + 1) in
      if line = [] \<or> HasPrefix line ''#'' then parse_getsubids (i + 1) ls
      else
        (let byColon = Split line CHR '':'' in
         if length byColon < 2 then ([], [], Inl (Errorf ''line %d: unparsable line %q'' [n, line]))
         else
           (let w = render ''line %d: line %q contains unknown fields'' [n, line];
                w1 = (if length byColon = 2 then [] else [w]);
                triplet = Fields (TrimSpace (byColon ! 1))
            in if length triplet < 3 then ([], w1, Inl (Errorf ''line %d: unparsable line %q'' [n, line]))
               else
                 (let w2 = w1 @ (if length triplet = 3 then [] else [w]) in
                  case strconv_Atoi (triplet ! 1) of
                    Inl e \<Rightarrow> ([], w2, Inl (Wrapf ''line %d: unparsable line %q: failed to Atoi(%q): %w'' [n, line, triplet ! 1] e))
                  | Inr st \<Rightarrow>
                      (case strconv_Atoi (triplet ! 2) of
                         Inl e \<Rightarrow> ([], w2, Inl (Wrapf ''line %d: unparsable line %q: failed to Atoi(%q): %w'' [n, line, triplet ! 2] e))
                       | Inr len \<Rightarrow>
                           (case parse_getsubids (i + 1) ls of
                              (rs, ws, e) \<Rightarrow> (\<lparr>Start = st, Length = len\<rparr> # rs, w2 @ ws, e)))))))"

definition parseGetsubidsOutput :: "string \<Rightarrow> SubIDRange list \<times> string list \<times> unit res" where
  "parseGetsubidsOutput out =
     (case scan_lines out of
        (ls, serr) \<Rightarrow>
          (case parse_getsubids 0 ls of
             (rs, ws, Inl e) \<Rightarrow> (rs, ws, Inl e)
           | (rs, ws, Inr _) \<Rightarrow> (rs, ws, serr)))"

record getsubids_env =
  gs_Getenv :: string
  gs_LookPath :: "string \<Rightarrow> string res"
  gs_Output :: "string \<Rightarrow> string list \<Rightarrow> string res"

definition execGetsubids :: "getsubids_env \<Rightarrow> string \<Rightarrow> bool \<Rightarrow> string \<Rightarrow> SubIDRange list \<times> unit res" where
  "execGetsubids env exe g s =
     (let args = (if g then [''-g''] else []) @ [s] in
      case gs_Output env exe args of
        Inl e \<Rightarrow> ([], Inl (Wrapf ''failed to exec %v: %w'' [Join (exe # args) '' ''] e))
      | Inr out \<Rightarrow> (case parseGetsubidsOutput out of (rs, ws, e) \<Rightarrow> (rs, e)))"

definition dyn_GetSubIDRanges :: "getsubids_env \<Rightarrow> int \<Rightarrow> string \<Rightarrow> (SubIDRange list \<times> SubIDRange list) res" where
  "dyn_GetSubIDRanges env uid username =
     (let name = (if gs_Getenv env \<noteq> [] then gs_Getenv env else ''getsubids'') in
      case gs_LookPath env name of
        Inl e \<Rightarrow> Inl (Wrapf ''subid-source:dynamic: %w'' [] e)
      | Inr exe \<Rightarrow>
          (let (uName, uNameErr) = execGetsubids env exe False username;
               (uUID, uUIDErr) = execGetsubids env exe False (strconv_Itoa uid)
           in case (uNameErr, uUIDErr) of
                (Inl e1, Inl e2) \<Rightarrow>
                  Inl (Wrapf (''subid-source:dynamic: failed to get subuids by the username %q: %w; also failed to get subuids by the UID '' @
                              strconv_Itoa uid @ '': '' @ err_text e2) [username] e1)
              | _ \<Rightarrow>
                  (let (gName, gNameErr) = execGetsubids env exe True username;
                       (gUID, gUIDErr) = execGetsubids env exe True (strconv_Itoa uid)
                   in case (gNameErr, gUIDErr) of
                        (Inl e1, Inl e2) \<Rightarrow>
                          Inl (Wrapf (''subid-source:dynamic: failed to get subgids by the username %q: %w; also failed to get subuids by the UID '' @
                                      strconv_Itoa uid @ '': '' @ err_text e2) [username] e1)
                      | _ \<Rightarrow> Inr (withoutDuplicates (uName @ uUID), withoutDuplicates (gName @ gUID)))))"

section \<open>The maps of the user namespace\<close>

record user =
  u_Uid :: string
  u_Gid :: string
  u_Username :: string

definition SubidSourceAuto :: string where "SubidSourceAuto = ''auto''"
definition SubidSourceDynamic :: string where "SubidSourceDynamic = ''dynamic''"
definition SubidSourceStatic :: string where "SubidSourceStatic = ''static''"

definition subid_static :: "(string \<Rightarrow> string res) \<Rightarrow> user \<Rightarrow> (SubIDRange list \<times> SubIDRange list) res" where
  "subid_static open_file u =
     (case strconv_Atoi (u_Uid u) of Inl e \<Rightarrow> Inl e | Inr uid \<Rightarrow> GetSubIDRanges open_file uid (u_Username u))"

definition subid_dynamic :: "getsubids_env \<Rightarrow> user \<Rightarrow> (SubIDRange list \<times> SubIDRange list) res" where
  "subid_dynamic env u =
     (case strconv_Atoi (u_Uid u) of Inl e \<Rightarrow> Inl e | Inr uid \<Rightarrow> dyn_GetSubIDRanges env uid (u_Username u))"

definition getSubIDRanges ::
  "(string \<Rightarrow> string res) \<Rightarrow> getsubids_env \<Rightarrow> user \<Rightarrow> string \<Rightarrow> (SubIDRange list \<times> SubIDRange list) res" where
  "getSubIDRanges open_file env u source =
     (case strconv_Atoi (u_Uid u) of
        Inl e \<Rightarrow> Inl e
      | Inr uid \<Rightarrow>
          if source = SubidSourceStatic then subid_static open_file u
          else if source = SubidSourceDynamic then subid_dynamic env u
          else if source = [] \<or> source = SubidSourceAuto then
            (case subid_dynamic env u of
               Inl e \<Rightarrow> subid_static open_file u
             | Inr (us, gs) \<Rightarrow> if 0 < length us \<and> 0 < length gs then Inr (us, gs) else subid_static open_file u)
          else Inl (Errorf ''unknown subid source %q'' [source]))"

fun map_args :: "int \<Rightarrow> SubIDRange list \<Rightarrow> string list" where
  "map_args mapLast [] = []"
| "map_args mapLast (f # fs) =
     [strconv_Itoa mapLast, strconv_Itoa (Start f), strconv_Itoa (Length f)] @ map_args (wrap64 (mapLast + Length f)) fs"

definition newugidmapArgsFromSubIDRanges :: "user \<Rightarrow> SubIDRange list \<Rightarrow> SubIDRange list \<Rightarrow> string list \<times> string list" where
  "newugidmapArgsFromSubIDRanges u us gs =
     ([''0'', u_Uid u, ''1''] @ map_args 1 us, [''0'', u_Gid u, ''1''] @ map_args 1 gs)"

definition newugidmapArgs ::
  "(string \<Rightarrow> string res) \<Rightarrow> getsubids_env \<Rightarrow> user res \<Rightarrow> string \<Rightarrow> (string list \<times> string list) res" where
  "newugidmapArgs open_file env current source =
     (case current of
        Inl e \<Rightarrow> Inl e
      | Inr u \<Rightarrow>
          (case getSubIDRanges open_file env u source of
             Inl e \<Rightarrow> Inl e
           | Inr (us, gs) \<Rightarrow> Inr (newugidmapArgsFromSubIDRanges u us gs)))"

definition setupUIDGIDMap :: "int \<Rightarrow> (string list \<times> string list) res \<Rightarrow> unit res prog" where
  "setupUIDGIDMap pid args =
     (case args of
        Inl e \<Rightarrow> Ret (Inl (Wrapf ''failed to compute uid/gid map: %w'' [] e))
      | Inr (uArgs, gArgs) \<Rightarrow>
          (let pidS = strconv_Itoa pid in
           tryw ''newuidmap %s %v failed: %w'' [pidS, Join uArgs '' ''] (sys_unit (Run (''newuidmap'' # pidS # uArgs))) (\<lambda>_.
           tryw ''newgidmap %s %v failed: %w'' [pidS, Join gArgs '' ''] (sys_unit (Run (''newgidmap'' # pidS # gArgs))) (\<lambda>_.
           Ret (Inr ())))))"

section \<open>The maps cover the id space without gap or overlap\<close>

type_synonym entry = "int \<times> int \<times> int"

fun map_entries :: "int \<Rightarrow> SubIDRange list \<Rightarrow> entry list" where
  "map_entries mapLast [] = []"
| "map_entries mapLast (f # fs) = (mapLast, Start f, Length f) # map_entries (mapLast + Length f) fs"

definition entry_args :: "entry \<Rightarrow> string list" where
  "entry_args e = (case e of (inside, outside, len) \<Rightarrow> [strconv_Itoa inside, strconv_Itoa outside, strconv_Itoa len])"

definition covers :: "int \<Rightarrow> entry \<Rightarrow> bool" where
  "covers n e \<longleftrightarrow> (case e of (inside, outside, len) \<Rightarrow> inside \<le> n \<and> n < inside + len)"

lemma covers_triple [simp]: "covers n (inside, outside, len) \<longleftrightarrow> inside \<le> n \<and> n < inside + len"
  by (simp add: covers_def)

definition total :: "SubIDRange list \<Rightarrow> int" where
  "total rs = sum_list (map Length rs)"

lemma total_simps [simp]: "total [] = 0" "total (f # fs) = Length f + total fs"
  by (simp_all add: total_def)

lemma total_nonneg: "\<forall>r\<in>set rs. 0 \<le> Length r \<Longrightarrow> 0 \<le> total rs"
  by (induction rs) auto

lemma map_args_entries:
  "0 \<le> k \<Longrightarrow> \<forall>r\<in>set rs. 0 \<le> Length r \<Longrightarrow> k + total rs < 2 ^ 63 \<Longrightarrow>
   map_args k rs = concat (map entry_args (map_entries k rs))"
proof (induction k rs rule: map_args.induct)
  case (2 k f fs)
  have "0 \<le> total fs" using 2(3) by (simp add: total_nonneg)
  then have "wrap64 (k + Length f) = k + Length f"
    using 2(2-4) by (intro wrap64_id) (simp add: int64_ok_def)
  with 2 show ?case by (simp add: entry_args_def add.assoc)
qed simp

lemma covered_once:
  "\<forall>r\<in>set rs. 0 \<le> Length r \<Longrightarrow>
   length (filter (covers n) (map_entries k rs)) = (if k \<le> n \<and> n < k + total rs then 1 else 0)"
proof (induction k rs rule: map_entries.induct)
  case (2 k f fs)
  have "0 \<le> total fs" "0 \<le> Length f" using 2(2) by (simp_all add: total_nonneg)
  moreover have "length (filter (covers n) (map_entries (k + Length f) fs)) =
      (if k + Length f \<le> n \<and> n < k + Length f + total fs then 1 else 0)"
    using 2 by simp
  ultimately show ?case by auto
qed simp

text \<open>C21: the id map of the user namespace. The arguments built for \<^verbatim>\<open>newuidmap\<close> are triples that map
  id 0 to the user and then the subordinate ranges one after the other: every id of the
  namespace from 0 up to the sum of all lengths is mapped by exactly one triple, every other
  id by none, as long as the ranges have non-negative lengths and their sum fits 63 bits.\<close>

theorem uidmap_tiles:
  assumes "\<forall>r\<in>set us. 0 \<le> Length r" and "1 + total us < 2 ^ 63"
  shows "fst (newugidmapArgsFromSubIDRanges u us gs) = [''0'', u_Uid u, ''1''] @ concat (map entry_args (map_entries 1 us)) \<and>
    (\<forall>n outside. length (filter (covers n) ((0, outside, 1) # map_entries 1 us)) = (if 0 \<le> n \<and> n < 1 + total us then 1 else 0))"
proof -
  have "map_args 1 us = concat (map entry_args (map_entries 1 us))"
    using assms by (intro map_args_entries) auto
  moreover have "length (filter (covers n) ((0, outside, 1) # map_entries 1 us)) = (if 0 \<le> n \<and> n < 1 + total us then 1 else 0)"
    for n outside
    using covered_once [OF assms(1), of n 1] total_nonneg [OF assms(1)] by auto
  ultimately show ?thesis by (simp add: newugidmapArgsFromSubIDRanges_def)
qed

theorem uidmap_tiles_witness:
  "length (filter (covers 65537) ((0, 1000, 1) # map_entries 1 [\<lparr>Start = 100000, Length = 65536\<rparr>, \<lparr>Start = 300000, Length = 10\<rparr>])) = 1"
  using uidmap_tiles [of "[\<lparr>Start = 100000, Length = 65536\<rparr>, \<lparr>Start = 300000, Length = 10\<rparr>]"]
  by simp

section \<open>Parsing the subid files\<close>

lemma dropWhile_no_space: "\<forall>c\<in>set s. \<not> is_space c \<Longrightarrow> dropWhile is_space s = s"
  by (cases s) auto

lemma TrimSpace_no_space: "\<forall>c\<in>set s. \<not> is_space c \<Longrightarrow> TrimSpace s = s"
  by (simp add: TrimSpace_def dropWhile_no_space)

definition subid_line :: "string \<times> int \<times> int \<Rightarrow> string" where
  "subid_line e = (case e of (name, st, len) \<Rightarrow> name @ '':'' @ strconv_Itoa st @ '':'' @ strconv_Itoa len)"

definition plain_name :: "string \<Rightarrow> bool" where
  "plain_name name \<longleftrightarrow> name \<noteq> [] \<and> hd name \<noteq> CHR ''#'' \<and> (\<forall>c\<in>set name. c \<noteq> CHR '':'' \<and> \<not> is_space c)"

definition subid_entry_ok :: "string \<times> int \<times> int \<Rightarrow> bool" where
  "subid_entry_ok e \<longleftrightarrow> (case e of (name, st, len) \<Rightarrow>
     plain_name name \<and> int64_ok st \<and> int64_ok len \<and> fits_buffer (subid_line e))"

definition belongs :: "int \<Rightarrow> string \<Rightarrow> string \<times> int \<times> int \<Rightarrow> bool" where
  "belongs uid username e \<longleftrightarrow> fst e = strconv_Itoa uid \<or> username \<noteq> [] \<and> fst e = username"

definition range_of :: "string \<times> int \<times> int \<Rightarrow> SubIDRange" where
  "range_of e = \<lparr>Start = fst (snd e), Length = snd (snd e)\<rparr>"

lemma Itoa_plain: "c \<in> set (strconv_Itoa i) \<Longrightarrow> \<not> is_space c \<and> c \<noteq> CHR '':'' \<and> c \<noteq> CHR 0x0A"
  by (auto dest!: Itoa_chars simp: is_space_def is_digit_def)

lemma subid_line_props:
  assumes "subid_entry_ok e"
  shows "\<forall>c\<in>set (subid_line e). \<not> is_space c" and "subid_line e \<noteq> []" and "\<not> HasPrefix (subid_line e) ''#''"
    and "Split (subid_line e) CHR '':'' = [fst e, strconv_Itoa (fst (snd e)), strconv_Itoa (snd (snd e))]"
proof -
  obtain name st len where e: "e = (name, st, len)" by (cases e) auto
  have n: "plain_name name" using assms e by (simp add: subid_entry_ok_def)
  show "\<forall>c\<in>set (subid_line e). \<not> is_space c"
    using n Itoa_plain by (auto simp: e subid_line_def plain_name_def is_space_def)
  show "subid_line e \<noteq> []" "\<not> HasPrefix (subid_line e) ''#''"
    using n by (cases name; auto simp: e subid_line_def plain_name_def)+
  have "CHR '':'' \<notin> set name" "CHR '':'' \<notin> set (strconv_Itoa st)" "CHR '':'' \<notin> set (strconv_Itoa len)"
    using n Itoa_plain by (auto simp: plain_name_def)
  then show "Split (subid_line e) CHR '':'' = [fst e, strconv_Itoa (fst (snd e)), strconv_Itoa (snd (snd e))]"
    by (simp add: e subid_line_def Split_append Split_no_sep)
qed

lemma parse_subid_lines_entries:
  "list_all subid_entry_ok es \<Longrightarrow>
   parse_subid_lines path uid username (map subid_line es) = Inr (map range_of (filter (belongs uid username) es))"
proof (induction es)
  case (Cons e es)
  then have ok: "subid_entry_ok e" by simp
  note p = subid_line_props [OF ok]
  have "TrimSpace (subid_line e) = subid_line e" using p(1) by (rule TrimSpace_no_space)
  moreover have "strconv_Atoi (strconv_Itoa (fst (snd e))) = Inr (fst (snd e))" "strconv_Atoi (strconv_Itoa (snd (snd e))) = Inr (snd (snd e))"
    using ok by (auto simp: subid_entry_ok_def Atoi_Itoa split: prod.splits)
  ultimately show ?case
    using Cons p(2-4) by (simp add: Let_def belongs_def range_of_def)
qed simp

lemma raw_lines_concat:
  "\<forall>l\<in>set ls. CHR 0x0A \<notin> set l \<Longrightarrow> raw_lines (concat (map (\<lambda>l. l @ [CHR 0x0A]) ls)) = ls"
proof -
  assume nl: "\<forall>l\<in>set ls. CHR 0x0A \<notin> set l"
  then have "Split (concat (map (\<lambda>l. l @ [CHR 0x0A]) ls)) CHR 0x0A = ls @ [[]]"
    by (induction ls) (auto simp: Split_append)
  then show ?thesis by (simp add: raw_lines_def)
qed

text \<open>C36: the subid file. A file with one line per entry, made of a name, a start and a length,
  gives the ranges of the entries for the user's name or number, in the order of the file.\<close>

theorem parseSubidFile_entries:
  assumes "list_all subid_entry_ok es" and "open_file path = Inr (concat (map (\<lambda>e. subid_line e @ [CHR 0x0A]) es))"
  shows "parseSubidFile open_file path uid username = Inr (map range_of (filter (belongs uid username) es))"
proof -
  let ?ls = "map subid_line es"
  have sp: "\<forall>c\<in>set l. \<not> is_space c" "fits_buffer l" if "l \<in> set ?ls" for l
    using that assms(1) subid_line_props(1) by (auto simp: list_all_iff subid_entry_ok_def)
  have "raw_lines (concat (map (\<lambda>l. l @ [CHR 0x0A]) ?ls)) = ?ls"
    using sp(1) by (intro raw_lines_concat) (auto simp: is_space_def)
  then have raw: "raw_lines (concat (map (\<lambda>e. subid_line e @ [CHR 0x0A]) es)) = ?ls"
    by (simp add: comp_def)
  have tw: "takeWhile fits_buffer ?ls = ?ls" unfolding takeWhile_eq_all_conv using sp(2) by blast
  have "strip_cr l = l" if "l \<in> set ?ls" for l
  proof -
    have "is_space CHR 0x0D" by (simp add: is_space_def)
    then have "\<not> (l \<noteq> [] \<and> last l = CHR 0x0D)" using sp(1) [OF that] last_in_set [of l] by metis
    then show ?thesis unfolding strip_cr_def by (rule if_not_P)
  qed
  then have cr: "map strip_cr ?ls = ?ls" by (intro map_idI) simp
  have all: "list_all fits_buffer ?ls" unfolding list_all_iff using sp(2) by blast
  have "scan_lines (concat (map (\<lambda>e. subid_line e @ [CHR 0x0A]) es)) = (?ls, Inr ())"
    unfolding scan_lines_def raw Let_def tw cr using all by (simp only: if_True)
  then show ?thesis
    using assms(2) parse_subid_lines_entries [OF assms(1)] by (simp add: parseSubidFile_def)
qed

theorem parseSubidFile_entries_witness:
  "parseSubidFile (\<lambda>_. Inr (concat (map (\<lambda>e. subid_line e @ [CHR 0x0A]) [(''alice'', 100000, 65536), (''bob'', 165536, 65536), (''1001'', 300000, 10)])))
     ''/etc/subuid'' 1001 ''alice'' = Inr [\<lparr>Start = 100000, Length = 65536\<rparr>, \<lparr>Start = 300000, Length = 10\<rparr>]"
proof -
  let ?es = "[(''alice'', 100000, 65536), (''bob'', 165536, 65536), (''1001'', 300000, 10)]"
  have ok: "list_all subid_entry_ok ?es" by code_simp
  have "map range_of (filter (belongs 1001 ''alice'') ?es) = [\<lparr>Start = 100000, Length = 65536\<rparr>, \<lparr>Start = 300000, Length = 10\<rparr>]"
    by code_simp
  with parseSubidFile_entries [OF ok, of "\<lambda>_. Inr (concat (map (\<lambda>e. subid_line e @ [CHR 0x0A]) ?es))" "''/etc/subuid''" 1001 "''alice''"]
  show ?thesis by simp
qed

section \<open>Duplicates and sources\<close>

lemma without_dups_props:
  "distinct (without_dups seen xs) \<and> set (without_dups seen xs) = set xs - set seen \<and> subseq (without_dups seen xs) xs"
  by (induction seen xs rule: without_dups.induct) auto

text \<open>Removing duplicate ranges keeps each range once, in the order of the input, and loses
  none.\<close>

theorem withoutDuplicates_props:
  "distinct (withoutDuplicates xs) \<and> set (withoutDuplicates xs) = set xs \<and> subseq (withoutDuplicates xs) xs"
  using without_dups_props [of "[]" xs] by (simp add: withoutDuplicates_def)

text \<open>The automatic source. It gives the ranges of the dynamic source exactly when that source
  succeeds with both kinds of ranges, and otherwise what the static source gives; it never
  reports the error of the dynamic source.\<close>

theorem getSubIDRanges_auto:
  assumes "source = [] \<or> source = SubidSourceAuto"
  shows "getSubIDRanges open_file env u source =
    (case getSubIDRanges open_file env u SubidSourceDynamic of
       Inr (us, gs) \<Rightarrow> if us \<noteq> [] \<and> gs \<noteq> [] then Inr (us, gs) else getSubIDRanges open_file env u SubidSourceStatic
     | Inl e \<Rightarrow> getSubIDRanges open_file env u SubidSourceStatic)"
proof -
  have src: "SubidSourceStatic \<noteq> SubidSourceDynamic" "SubidSourceAuto \<noteq> SubidSourceStatic" "SubidSourceAuto \<noteq> SubidSourceDynamic"
    "[] \<noteq> SubidSourceStatic" "[] \<noteq> SubidSourceDynamic"
    by (simp_all add: SubidSourceStatic_def SubidSourceDynamic_def SubidSourceAuto_def)
  have s: "source \<noteq> SubidSourceStatic" "source \<noteq> SubidSourceDynamic" using assms src by auto
  show ?thesis
  proof (cases "strconv_Atoi (u_Uid u)")
    case (Inl e)
    then show ?thesis by (simp add: getSubIDRanges_def)
  next
    case (Inr uid)
    then show ?thesis using assms s src
      by (auto simp: getSubIDRanges_def split: sum.splits prod.splits)
  qed
qed

theorem getSubIDRanges_auto_witness:
  "getSubIDRanges (\<lambda>_. Inr ''alice:100000:65536'') \<lparr>gs_Getenv = [], gs_LookPath = (\<lambda>_. Inl (Sys ''not found'')), gs_Output = (\<lambda>_ _. Inl (Sys ''none''))\<rparr>
     \<lparr>u_Uid = ''1000'', u_Gid = ''1000'', u_Username = ''alice''\<rparr> [] =
   Inr ([\<lparr>Start = 100000, Length = 65536\<rparr>], [\<lparr>Start = 100000, Length = 65536\<rparr>])"
proof -
  let ?f = "\<lambda>_::string. Inr ''alice:100000:65536'' :: string res"
  let ?e = "\<lparr>gs_Getenv = [], gs_LookPath = (\<lambda>_. Inl (Sys ''not found'')), gs_Output = (\<lambda>_ _. Inl (Sys ''none''))\<rparr>"
  let ?u = "\<lparr>u_Uid = ''1000'', u_Gid = ''1000'', u_Username = ''alice''\<rparr>"
  have d: "getSubIDRanges ?f ?e ?u SubidSourceDynamic = Inl (Wrapf ''subid-source:dynamic: %w'' [] (Sys ''not found''))"
    by code_simp
  have s: "getSubIDRanges ?f ?e ?u SubidSourceStatic = Inr ([\<lparr>Start = 100000, Length = 65536\<rparr>], [\<lparr>Start = 100000, Length = 65536\<rparr>])"
    by code_simp
  show ?thesis using getSubIDRanges_auto [of "[]" ?f ?e ?u] by (simp add: d s)
qed

end
