(* ===== verification/Go_Path.thy ===== *)
theory Go_Path
  imports Go_Strings
begin

text \<open>
  \<^verbatim>\<open>path/filepath\<close> on Unix: \<^verbatim>\<open>Clean\<close>, \<^verbatim>\<open>Join\<close>, \<^verbatim>\<open>Base\<close> and \<^verbatim>\<open>IsAbs\<close>.
\<close>

definition IsAbs :: "string \<Rightarrow> bool" where
  "IsAbs p \<longleftrightarrow> HasPrefix p ''/''"

text \<open>
  The elements of a cleaned path, in reverse. Empty elements and dots disappear, two dots
  remove the element before them, at the root they disappear and in a relative path they
  stay in front.
\<close>

fun clean_elems :: "bool \<Rightarrow> string list \<Rightarrow> string list \<Rightarrow> string list" where
  "clean_elems rooted acc [] = acc"
| "clean_elems rooted acc (e # es) =
     (if e = [] \<or> e = ''.'' then clean_elems rooted acc es
      else if e = ''..'' then
        (case acc of
           [] \<Rightarrow> if rooted then clean_elems rooted [] es else clean_elems rooted [''..''] es
         | a # as \<Rightarrow> if a = ''..'' then clean_elems rooted (''..'' # acc) es else clean_elems rooted as es)
      else clean_elems rooted (e # acc) es)"

definition Clean :: "string \<Rightarrow> string" where
  "Clean p =
     (let es = rev (clean_elems (IsAbs p) [] (Split p CHR ''/'')); body = Join es ''/'' in
      if IsAbs p then CHR ''/'' # body else if body = [] then ''.'' else body)"

definition filepath_Join :: "string list \<Rightarrow> string" where
  "filepath_Join elems =
     (let ne = dropWhile (\<lambda>e. e = []) elems in if ne = [] then [] else Clean (Join ne ''/''))"

definition filepath_Base :: "string \<Rightarrow> string" where
  "filepath_Base p =
     (if p = [] then ''.''
      else
        (let t = rev (dropWhile (\<lambda>c. c = CHR ''/'') (rev p)) in
         if t = [] then ''/'' else last (Split t CHR ''/'')))"

lemma clean_elems_plain:
  "\<forall>e\<in>set es. e \<noteq> [] \<and> e \<noteq> ''.'' \<and> e \<noteq> ''..'' \<Longrightarrow> clean_elems r acc es = rev es @ acc"
  by (induction es arbitrary: acc) auto

text \<open>No element of a cleaned absolute path is empty, a dot or two dots: it stays below the root.\<close>

definition plain_elem :: "string \<Rightarrow> bool" where
  "plain_elem e \<longleftrightarrow> e \<noteq> [] \<and> e \<noteq> ''.'' \<and> e \<noteq> ''..''"

lemma clean_elems_rooted:
  "list_all plain_elem acc \<Longrightarrow> list_all plain_elem (clean_elems True acc es)"
proof (induction es arbitrary: acc)
  case (Cons e es)
  then show ?case by (cases acc) (simp_all add: plain_elem_def)
qed simp

lemma clean_elems_no_slash:
  "list_all (\<lambda>e. c \<notin> set e) acc \<Longrightarrow> list_all (\<lambda>e. c \<notin> set e) es \<Longrightarrow> c \<noteq> CHR ''.'' \<Longrightarrow>
   list_all (\<lambda>e. c \<notin> set e) (clean_elems r acc es)"
proof (induction es arbitrary: acc)
  case (Cons e es)
  then show ?case by (cases acc; cases r) simp_all
qed simp

lemma Split_Join_elems:
  "es \<noteq> [] \<Longrightarrow> \<forall>e\<in>set es. c \<notin> set e \<Longrightarrow> Split (Join es [c]) c = es"
proof (induction es)
  case (Cons e es)
  then show ?case by (cases es) (auto simp: Split_no_sep Split_append)
qed simp

text \<open>Cleaning an absolute path twice is cleaning it once.\<close>

lemma Clean_idem:
  assumes "IsAbs p"
  shows "Clean (Clean p) = Clean p"
proof -
  define es where "es = rev (clean_elems True [] (Split p CHR ''/''))"
  have plain: "\<forall>e\<in>set es. e \<noteq> [] \<and> e \<noteq> ''.'' \<and> e \<noteq> ''..''"
    unfolding es_def using clean_elems_rooted [of "[]" "Split p CHR ''/''"] by (auto simp: list_all_iff plain_elem_def)
  have slash: "\<forall>e\<in>set es. CHR ''/'' \<notin> set e"
    unfolding es_def using clean_elems_no_slash [of "CHR ''/''" "[]" "Split p CHR ''/''" True] Split_fields_no_sep
    by (force simp: list_all_iff)
  have c: "Clean p = CHR ''/'' # Join es ''/''" using assms by (simp add: Clean_def es_def Let_def)
  have "rev (clean_elems True [] (Split (CHR ''/'' # Join es ''/'') CHR ''/'')) = es"
  proof (cases "es = []")
    case True
    then show ?thesis by simp
  next
    case False
    then have "Split (CHR ''/'' # Join es ''/'') CHR ''/'' = [] # es" using slash by (simp add: Split_Join_elems)
    then show ?thesis using plain by (simp add: clean_elems_plain)
  qed
  then show ?thesis unfolding c by (simp add: Clean_def IsAbs_def Let_def)
qed

text \<open>Cleaning makes a path longer by at most one character.\<close>

definition elems_size :: "string list \<Rightarrow> nat" where
  "elems_size es = sum_list (map (\<lambda>e. Suc (length e)) es)"

lemma elems_size_simps [simp]:
  "elems_size [] = 0" "elems_size (e # es) = Suc (length e) + elems_size es" "elems_size (rev es) = elems_size es"
  by (simp_all add: elems_size_def rev_map [symmetric])

lemma length_Join: "es \<noteq> [] \<Longrightarrow> Suc (length (Join es [c])) = elems_size es"
  by (induction es "[c]" rule: Join.induct) auto

lemma clean_elems_size: "elems_size (clean_elems r acc es) \<le> elems_size acc + elems_size es"
proof (induction es arbitrary: acc)
  case (Cons e es)
  show ?case
    using Cons.IH [of acc] Cons.IH [of "[]"] Cons.IH [of "[''..'']"] Cons.IH [of "''..'' # acc"] Cons.IH [of "tl acc"]
      Cons.IH [of "e # acc"]
    by (cases acc) auto
qed simp

lemma length_Clean: "length (Clean p) \<le> Suc (length p)"
proof -
  define es where "es = rev (clean_elems (IsAbs p) [] (Split p CHR ''/''))"
  have "elems_size es \<le> elems_size (Split p CHR ''/'')"
    unfolding es_def using clean_elems_size [of "IsAbs p" "[]" "Split p CHR ''/''"] by simp
  also have "\<dots> = Suc (length p)" using length_Join [of "Split p CHR ''/''" "CHR ''/''"] by (simp add: Split_Join)
  finally have "length (Join es ''/'') \<le> length p" using length_Join [of es "CHR ''/''"] by (cases "es = []") auto
  then show ?thesis by (simp add: Clean_def es_def [symmetric] Let_def)
qed

lemma length_filepath_Join: "length (filepath_Join es) \<le> Suc (elems_size es)"
proof (cases "dropWhile (\<lambda>e. e = []) es = []")
  case False
  define ne where "ne = dropWhile (\<lambda>e. e = []) es"
  have "elems_size ne \<le> elems_size es" unfolding ne_def by (induction es) auto
  moreover have "Suc (length (Join ne ''/'')) = elems_size ne" using False length_Join by (simp add: ne_def)
  ultimately show ?thesis
    using False length_Clean [of "Join ne ''/''"] by (simp add: filepath_Join_def ne_def [symmetric] Let_def)
qed (simp add: filepath_Join_def Let_def)

end
