(* ===== verification/Cgrouputil.thy ===== *)
theory Cgrouputil
  imports Go_Os Go_Path
begin

text \<open>
  \<^verbatim>\<open>pkg/parent/cgrouputil\<close>: moving the processes of the current cgroup into a sub-group, so that
  controllers can be enabled for its siblings. The list of mounts comes from a third-party
  package and is a call to the environment.
\<close>

text \<open>
  A mount entry of moby/sys/mountinfo as reflection shows it: the fields of the struct in order with name,
  type and value. The field with the type of the file system has another name in older versions
  of the package. The filter says whether to skip an entry and whether to stop; \<^const>\<open>None\<close> is a panic.
\<close>

record mount_field =
  mf_Name :: string
  mf_Type :: string
  mf_Value :: string

definition mountinfoFSType :: "mount_field list \<Rightarrow> string option" where
  "mountinfoFSType m = map_option mf_Value (find (\<lambda>f. map ToLower_char (mf_Name f) = ''fstype'' \<and> mf_Type f = ''string'') m)"

definition mountinfoFSTypeFilter :: "string list \<Rightarrow> mount_field list \<Rightarrow> (bool \<times> bool) option" where
  "mountinfoFSTypeFilter fstype m =
     (case mountinfoFSType m of
        None \<Rightarrow> None
      | Some t \<Rightarrow> Some (if t \<in> set fstype then (False, False) else (True, False)))"

definition findCgroup2Mountpoint :: "string prog" where
  "findCgroup2Mountpoint =
     pbind (sys_strs (Driver ''mountinfo.GetMounts'' [''cgroup2'']))
       (\<lambda>r. Ret (case r of Inl e \<Rightarrow> [] | Inr mounts \<Rightarrow> if mounts = [] then [] else hd mounts))"

fun first_v2_group :: "string list \<Rightarrow> string" where
  "first_v2_group [] = []"
| "first_v2_group (l # ls) = (if HasPrefix l ''0::'' then TrimPrefix l ''0::'' else first_v2_group ls)"

definition getCgroup2FromProcPidCgroup :: "string \<Rightarrow> string" where
  "getCgroup2FromProcPidCgroup b = first_v2_group (Split b CHR 0x0A)"

definition getCgroup2 :: "int \<Rightarrow> string prog" where
  "getCgroup2 pid =
     pbind (sys_str (ReadFile (''/proc/'' @ strconv_Itoa pid @ ''/cgroup'')))
       (\<lambda>r. Ret (case r of Inl e \<Rightarrow> [] | Inr b \<Rightarrow> getCgroup2FromProcPidCgroup b))"

text \<open>Writes whose errors are only logged.\<close>

fun write_all :: "string \<Rightarrow> string list \<Rightarrow> unit prog" where
  "write_all path [] = Ret ()"
| "write_all path (s # ss) = ignore (sys_unit (WriteFile path s)) (write_all path ss)"

definition EvacuateCgroup2 :: "string \<Rightarrow> unit res prog" where
  "EvacuateCgroup2 evac =
     (if evac = [] then Ret (Inl (New ''got empty evacuation group name''))
      else if Contains evac ''/'' then Ret (Inl (Errorf (''unexpected evacuation group name %q: must not contain '' @ quote ''/'') [evac]))
      else
        pbind findCgroup2Mountpoint (\<lambda>mountpoint.
        if mountpoint = [] then Ret (Inr ())
        else
          pbind (get_int_of Getpid) (\<lambda>pid.
          pbind (getCgroup2 pid) (\<lambda>oldGroup.
          if mountpoint = [] then Ret (Inr ())
          else
            (let newGroup = filepath_Join [oldGroup, evac];
                 oldPath = filepath_Join [mountpoint, oldGroup];
                 newPath = filepath_Join [mountpoint, newGroup]
             in
               tryp (sys_unit (MkdirAll newPath)) (\<lambda>_.
               tryp (sys_str (ReadFile (filepath_Join [oldPath, ''cgroup.procs'']))) (\<lambda>procs.
               ignore (write_all (filepath_Join [newPath, ''cgroup.procs''])
                         (filter (\<lambda>p. p \<noteq> [] \<and> p \<noteq> ''0'') (Split procs CHR 0x0A)))
               (tryp (sys_str (ReadFile (filepath_Join [oldPath, ''cgroup.controllers'']))) (\<lambda>ctrl.
                ignore (write_all (filepath_Join [oldPath, ''cgroup.subtree_control''])
                          (map (\<lambda>c. CHR ''+'' # c) (Fields ctrl)))
                (Ret (Inr ())))))))))))"

section \<open>Properties\<close>

text \<open>Both spellings of the field are found, whatever fields come before, and the scan never stops early.\<close>

lemma mountinfoFSType_spellings:
  assumes "list_all (\<lambda>f. map ToLower_char (mf_Name f) \<noteq> ''fstype'') before" and "n \<in> {''Fstype'', ''FSType''}"
  shows "mountinfoFSTypeFilter ts (before @ \<lparr>mf_Name = n, mf_Type = ''string'', mf_Value = v\<rparr> # after) = Some (v \<notin> set ts, False)"
proof -
  have "map ToLower_char n = ''fstype''" using assms(2) by auto (code_simp+)
  then have "mountinfoFSType (before @ \<lparr>mf_Name = n, mf_Type = ''string'', mf_Value = v\<rparr> # after) = Some v"
    using assms(1) by (induction before) (auto simp: mountinfoFSType_def)
  then show ?thesis by (simp add: mountinfoFSTypeFilter_def)
qed

lemma run_write_all: "run (write_all p ss) os h = ((), h @ map (WriteFile p) ss)"
  by (induction ss arbitrary: h) (auto simp: run_ignore run_sys_unit)

definition evac_os :: "string \<Rightarrow> string \<Rightarrow> string \<Rightarrow> string \<Rightarrow> os" where
  "evac_os mnt cg procs ctrl h c =
     ok_ans\<lparr>a_str := (case c of ReadFile p \<Rightarrow>
                 if HasSuffix p ''/cgroup'' then cg else if HasSuffix p ''cgroup.procs'' then procs else ctrl | _ \<Rightarrow> []),
      a_int := 7, a_strs := [mnt]\<rparr>"

text \<open>A defect. When the process has no cgroup2 group, the second check tests the mount point
  again instead of the group, so the evacuation is not discarded: the sub-group is made in the
  root of the hierarchy and the processes of the root group are moved.\<close>

theorem evacuates_root_group:
  "run (EvacuateCgroup2 ''evac'') (evac_os ''/sys/fs/cgroup'' ''12:cpu:/x'' ''1'' ''cpu'') [] =
     (Inr (), [Driver ''mountinfo.GetMounts'' [''cgroup2''], Getpid, ReadFile ''/proc/7/cgroup'',
        MkdirAll ''/sys/fs/cgroup/evac'', ReadFile ''/sys/fs/cgroup/cgroup.procs'',
        WriteFile ''/sys/fs/cgroup/evac/cgroup.procs'' ''1'', ReadFile ''/sys/fs/cgroup/cgroup.controllers'',
        WriteFile ''/sys/fs/cgroup/cgroup.subtree_control'' ''+cpu''])"
  by code_simp

text \<open>Evacuation. When the reads and the creation of the sub-group succeed, whatever the writes
  return, the run makes the sub-group first, then moves every process of the old group to it,
  one write per process id, and only then enables every controller for the children of the
  old group.\<close>

theorem evacuation_order:
  assumes "evac \<noteq> []" and "CHR ''/'' \<notin> set evac" and "mnt \<noteq> []"
    and mounts: "\<And>h. a_err (os h (Driver ''mountinfo.GetMounts'' [''cgroup2''])) = None \<and>
      a_strs (os h (Driver ''mountinfo.GetMounts'' [''cgroup2''])) = mnt # ms"
    and pid: "\<And>h. a_int (os h Getpid) = pid"
    and mkdir: "\<And>h p. a_err (os h (MkdirAll p)) = None"
    and reads: "\<And>h p. a_err (os h (ReadFile p)) = None \<and> a_str (os h (ReadFile p)) = file p"
  shows "run (EvacuateCgroup2 evac) os [] =
    (let proc = ''/proc/'' @ strconv_Itoa pid @ ''/cgroup'';
         old = getCgroup2FromProcPidCgroup (file proc);
         oldPath = filepath_Join [mnt, old];
         newPath = filepath_Join [mnt, filepath_Join [old, evac]];
         pids = filter (\<lambda>p. p \<noteq> [] \<and> p \<noteq> ''0'') (Split (file (filepath_Join [oldPath, ''cgroup.procs''])) CHR 0x0A);
         ctrls = Fields (file (filepath_Join [oldPath, ''cgroup.controllers'']))
     in (Inr (), [Driver ''mountinfo.GetMounts'' [''cgroup2''], Getpid, ReadFile proc, MkdirAll newPath,
           ReadFile (filepath_Join [oldPath, ''cgroup.procs''])] @
         map (WriteFile (filepath_Join [newPath, ''cgroup.procs''])) pids @
         [ReadFile (filepath_Join [oldPath, ''cgroup.controllers''])] @
         map (\<lambda>c. WriteFile (filepath_Join [oldPath, ''cgroup.subtree_control'']) (CHR ''+'' # c)) ctrls))"
  using assms
  by (simp add: EvacuateCgroup2_def findCgroup2Mountpoint_def getCgroup2_def run_simps run_write_all run_sys_vals
      Contains_single Let_def comp_def)

theorem evacuation_order_witness:
  "run (EvacuateCgroup2 ''evac'') (evac_os ''/sys/fs/cgroup'' ''0::/user.slice'' ''12'' ''cpu'') [] =
     (Inr (), [Driver ''mountinfo.GetMounts'' [''cgroup2''], Getpid, ReadFile ''/proc/7/cgroup'',
        MkdirAll ''/sys/fs/cgroup/user.slice/evac'', ReadFile ''/sys/fs/cgroup/user.slice/cgroup.procs'',
        WriteFile ''/sys/fs/cgroup/user.slice/evac/cgroup.procs'' ''12'',
        ReadFile ''/sys/fs/cgroup/user.slice/cgroup.controllers'',
        WriteFile ''/sys/fs/cgroup/user.slice/cgroup.subtree_control'' ''+cpu''])"
proof -
  define rd where "rd p = (if HasSuffix p ''/cgroup'' then ''0::/user.slice'' else if HasSuffix p ''cgroup.procs'' then ''12'' else ''cpu'')"
    for p
  have "run (EvacuateCgroup2 ''evac'') (evac_os ''/sys/fs/cgroup'' ''0::/user.slice'' ''12'' ''cpu'') [] =
    (let proc = ''/proc/'' @ strconv_Itoa 7 @ ''/cgroup'';
         old = getCgroup2FromProcPidCgroup (rd proc);
         oldPath = filepath_Join [''/sys/fs/cgroup'', old];
         newPath = filepath_Join [''/sys/fs/cgroup'', filepath_Join [old, ''evac'']];
         pids = filter (\<lambda>p. p \<noteq> [] \<and> p \<noteq> ''0'') (Split (rd (filepath_Join [oldPath, ''cgroup.procs''])) CHR 0x0A);
         ctrls = Fields (rd (filepath_Join [oldPath, ''cgroup.controllers'']))
     in (Inr (), [Driver ''mountinfo.GetMounts'' [''cgroup2''], Getpid, ReadFile proc, MkdirAll newPath,
           ReadFile (filepath_Join [oldPath, ''cgroup.procs''])] @
         map (WriteFile (filepath_Join [newPath, ''cgroup.procs''])) pids @
         [ReadFile (filepath_Join [oldPath, ''cgroup.controllers''])] @
         map (\<lambda>c. WriteFile (filepath_Join [oldPath, ''cgroup.subtree_control'']) (CHR ''+'' # c)) ctrls))"
    by (rule evacuation_order [where ms = "[]"]) (simp_all add: evac_os_def rd_def)
  also have "\<dots> = (Inr (), [Driver ''mountinfo.GetMounts'' [''cgroup2''], Getpid, ReadFile ''/proc/7/cgroup'',
        MkdirAll ''/sys/fs/cgroup/user.slice/evac'', ReadFile ''/sys/fs/cgroup/user.slice/cgroup.procs'',
        WriteFile ''/sys/fs/cgroup/user.slice/evac/cgroup.procs'' ''12'',
        ReadFile ''/sys/fs/cgroup/user.slice/cgroup.controllers'',
        WriteFile ''/sys/fs/cgroup/user.slice/cgroup.subtree_control'' ''+cpu''])"
    unfolding rd_def by code_simp
  finally show ?thesis .
qed

end
