(* ===== verification/Rk_Parent.thy ===== *)
theory Rk_Parent
  imports Subids Cgrouputil
begin

text \<open>
  \<^verbatim>\<open>pkg/parent/parent.go\<close>: the parent process, from the state directory and its locks over
  the start of the child and the handshake to the REST API and the shutdown. A network driver
  is its method \<^verbatim>\<open>ConfigureNetwork\<close>, a program that returns the message for the child, a
  cleanup function and an error. A port driver is the map it passes to the child; its
  methods are calls, because the driver runs in a goroutine of its own. The log messages of
  \<^verbatim>\<open>warn.go\<close> change nothing and are left out. The inputs of the id maps (the subordinate id
  files, \<^verbatim>\<open>getsubids\<close> and the current user) are the record \<open>host\<close>.
\<close>

type_synonym net_result = "ParentInitNetworkDriverCompleted option \<times> unit prog option \<times> err option"

type_synonym net_driver = "int \<Rightarrow> string \<Rightarrow> string \<Rightarrow> net_result prog"

record host =
  h_open_file :: "string \<Rightarrow> string res"
  h_getsubids :: getsubids_env
  h_user :: "user res"

record Opt =
  PipeFDEnvKey :: string
  ChildUseActivationEnvKey :: string
  StateDir :: string
  StateDirEnvKey :: string
  NetworkDriver :: "net_driver option"
  PortDriver :: "(string \<times> string) list option"
  PublishPorts :: "Spec list"
  CreatePIDNS :: bool
  CreateCgroupNS :: bool
  CreateUTSNS :: bool
  CreateIPCNS :: bool
  DetachNetNS :: bool
  ParentEUIDEnvKey :: string
  ParentEGIDEnvKey :: string
  Propagation :: string
  Opt_EvacuateCgroup2 :: string
  Opt_SubidSource :: string

definition StateFileLock :: string where "StateFileLock = ''lock''"
definition StateFileChildPID :: string where "StateFileChildPID = ''child_pid''"
definition StateFileAPISock :: string where "StateFileAPISock = ''api.sock''"

section \<open>The state directory\<close>

text \<open>The answer of \<^verbatim>\<open>Stat\<close> holds 1 for a directory. Without an error the verb \<^verbatim>\<open>%w\<close> gets nil.\<close>

definition checkPreflight :: "Opt \<Rightarrow> unit res prog" where
  "checkPreflight opt =
     (if PipeFDEnvKey opt = [] then Ret (Inl (New ''pipe FD env key is not set''))
      else if StateDir opt = [] then Ret (Inl (New ''state dir is not set''))
      else if \<not> IsAbs (StateDir opt) then Ret (Inl (New ''state dir must be absolute''))
      else
        pbind (sys_int (Stat (StateDir opt))) (\<lambda>st.
        case st of
          Inl e \<Rightarrow> Ret (Inl (Wrapf ''state dir is inaccessible: %w'' [] e))
        | Inr isdir \<Rightarrow>
            if isdir \<noteq> 1 then Ret (Inl (Errorf ''state dir is inaccessible: %w'' [''%!w(<nil>)'']))
            else pbind (get_int_of Geteuid) (\<lambda>_. Ret (Inr ()))))"

definition createCleanupLock :: "string \<Rightarrow> unit res prog" where
  "createCleanupLock sDir =
     tryp (sys_unit (OpenDir sDir)) (\<lambda>_. ignore (sys_unit (LockShared sDir)) (Ret (Inr ())))"

text \<open>The answer of \<^verbatim>\<open>TryLock\<close> holds 1 when the lock was free. The result is the path of the lock.\<close>

definition LockStateDir :: "string \<Rightarrow> string res prog" where
  "LockStateDir stateDir =
     (let lockPath = filepath_Join [stateDir, StateFileLock] in
      tryw ''failed to lock %s: %w'' [lockPath] (sys_int (TryLock lockPath)) (\<lambda>locked.
      if locked \<noteq> 1
      then Ret (Inl (Errorf ''failed to lock %s, another RootlessKit is running with the same state directory?'' [lockPath]))
      else Ret (Inr lockPath)))"

fun remove_stuffs :: "string \<Rightarrow> string list \<Rightarrow> unit res prog" where
  "remove_stuffs stateDir [] = Ret (Inr ())"
| "remove_stuffs stateDir (f # fs) =
     (if f = StateFileLock then remove_stuffs stateDir fs
      else
        (let p = filepath_Join [stateDir, f] in
         tryw ''failed to remove %s: %w'' [p] (sys_unit (RemoveAll p)) (\<lambda>_. remove_stuffs stateDir fs)))"

definition InitStateDir :: "string \<Rightarrow> unit res prog" where
  "InitStateDir stateDir =
     tryp (sys_unit (MkdirAll stateDir)) (\<lambda>_.
     tryp (LockStateDir stateDir) (\<lambda>lk.
     defer_call (sys_unit (Unlock lk))
       (tryp (sys_strs (ReadDir stateDir)) (\<lambda>stuffs. remove_stuffs stateDir stuffs))))"

section \<open>Starting the child\<close>

definition listenFdsStart :: int where "listenFdsStart = 3"

text \<open>
  A failed \<^verbatim>\<open>Atoi\<close> leaves 0 or an extreme value in \<^verbatim>\<open>listenPid\<close>, neither of which is a
  process id.
\<close>

definition listen_fds :: "string \<Rightarrow> string \<Rightarrow> int" where
  "listen_fds pid_text fds_text =
     (case (strconv_Atoi pid_text, strconv_Atoi fds_text) of
        (Inr _, Inr n) \<Rightarrow> if 0 < n then n else 0
      | _ \<Rightarrow> 0)"

definition listen_files :: "int \<Rightarrow> string list" where
  "listen_files n = map (\<lambda>i. ''LISTEN_FD_'' @ strconv_Itoa (listenFdsStart + int i)) [0..<nat n]"

definition setupFilesAndEnv :: "string \<Rightarrow> string \<Rightarrow> Opt \<Rightarrow> (string list \<times> string list) prog" where
  "setupFilesAndEnv readPipe writePipe opt =
     pbind (get_env ''LISTEN_PID'') (\<lambda>pid_text.
     pbind (get_env ''LISTEN_FDS'') (\<lambda>fds_text.
     pbind (get_strs_of Environ) (\<lambda>cmdEnv.
     pbind (get_int_of Getpid) (\<lambda>pid.
     (let listenFds = listen_fds pid_text fds_text;
          use = (case strconv_Atoi pid_text of Inr p \<Rightarrow> p = pid | Inl _ \<Rightarrow> False)
      in Ret (listen_files listenFds @ [readPipe, writePipe],
              cmdEnv @
              [PipeFDEnvKey opt @ ''='' @ strconv_Itoa (listenFdsStart + listenFds) @ '','' @
                 strconv_Itoa (listenFdsStart + listenFds + 1),
               ChildUseActivationEnvKey opt @ ''='' @ strconv_FormatBool use]))))))"

definition clone_flags :: "Opt \<Rightarrow> string list" where
  "clone_flags opt =
     [''clone:NEWUSER'', ''clone:NEWNS''] @
     (if NetworkDriver opt \<noteq> None \<and> \<not> DetachNetNS opt then [''unshare:NEWNET''] else []) @
     (if CreatePIDNS opt then [''clone:NEWPID''] else []) @
     (if CreateCgroupNS opt then [''unshare:NEWCGROUP''] else []) @
     (if CreateUTSNS opt then [''unshare:NEWUTS''] else []) @
     (if CreateIPCNS opt then [''unshare:NEWIPC''] else [])"

definition id_env :: "string \<Rightarrow> call \<Rightarrow> string list prog" where
  "id_env key c = (if key = [] then Ret [] else pbind (get_int_of c) (\<lambda>n. Ret [key @ ''='' @ strconv_Itoa n]))"

definition start_child :: "Opt \<Rightarrow> int res prog" where
  "start_child opt =
     pbind (get_strs_of Args) (\<lambda>args.
     pbind (setupFilesAndEnv ''pipeR'' ''pipe2W'' opt) (\<lambda>(files, env).
     pbind (id_env (ParentEUIDEnvKey opt) Geteuid) (\<lambda>euid.
     pbind (id_env (ParentEGIDEnvKey opt) Getegid) (\<lambda>egid.
     tryw ''failed to start the child: %w'' []
       (sys_int (StartCmd (''/proc/self/exe'' # drop 1 args)
          (env @ (if StateDirEnvKey opt = [] then [] else [StateDirEnvKey opt @ ''='' @ StateDir opt]) @ euid @ egid)
          files (clone_flags opt)))
       (\<lambda>pid. Ret (Inr pid))))))"

section \<open>The handshake\<close>

definition msgParentHello :: Message where
  "msgParentHello = empty_Message (nil_U\<lparr>u_ParentHello := True\<rparr>)"

definition msgParentInitIdmapCompleted :: Message where
  "msgParentInitIdmapCompleted = empty_Message (nil_U\<lparr>u_ParentInitIdmapCompleted := True\<rparr>)"

definition net_Message :: "ParentInitNetworkDriverCompleted option \<Rightarrow> Message" where
  "net_Message p = empty_Message (nil_U\<lparr>u_ParentInitNetworkDriverCompleted := p\<rparr>)"

definition port_Message :: "(string \<times> string) list \<Rightarrow> Message" where
  "port_Message opq = empty_Message (nil_U\<lparr>u_ParentInitPortDriverCompleted := Some \<lparr>pm_PortDriverOpaque = opq\<rparr>\<rparr>)"

definition detached_netns :: "Opt \<Rightarrow> int \<Rightarrow> string" where
  "detached_netns opt pid =
     (if DetachNetNS opt
      then filepath_Join [''/proc'', strconv_Itoa pid, ''root'', Clean (StateDir opt), ''netns''] else [])"

text \<open>The child context that the port driver gets.\<close>

definition child_context :: "ParentInitNetworkDriverCompleted \<Rightarrow> ChildContext" where
  "child_context net =
     \<lparr>cctx_IP = To4 (ParseIP (nm_IP net)), cctx_Network = (nm_Network net \<noteq> JNull),
      cctx_GatewayIP = To4 (ParseIP (nm_Gateway net))\<rparr>"

fun publish :: "Spec list \<Rightarrow> unit res prog" where
  "publish [] = Ret (Inr ())"
| "publish (p # ps) =
     tryw ''failed to expose port %v: %w'' [Proto p] (sys_unit (PortAdd p)) (\<lambda>_. publish ps)"

definition listenServeAPI :: "string \<Rightarrow> unit res prog" where
  "listenServeAPI socketPath =
     tryp (sys_unit (RemoveAll socketPath)) (\<lambda>_. sys_unit (Listen socketPath))"

text \<open>From the API socket to the exit of the child; the error of the port driver is the result.\<close>

definition serve_until_exit :: "Opt \<Rightarrow> int \<Rightarrow> unit res prog" where
  "serve_until_exit opt pid =
     (let childPIDPath = filepath_Join [StateDir opt, StateFileChildPID];
          apiSockPath = filepath_Join [StateDir opt, StateFileAPISock]
      in
        tryw ''failed to write the child PID %d to %s: %w'' [strconv_Itoa pid, childPIDPath]
          (sys_unit (WriteFile childPIDPath (strconv_Itoa pid))) (\<lambda>_.
        tryp (listenServeAPI apiSockPath) (\<lambda>_.
        tryw ''child exited: %w'' [] (sys_unit (Wait pid)) (\<lambda>_.
        tryw ''failed to close %s: %w'' [apiSockPath] (sys_unit (CloseListener apiSockPath)) (\<lambda>_.
        if PortDriver opt = None then Ret (Inr ())
        else ignore (sys_unit PortQuit) (sys_unit PortResult))))))"

text \<open>
  The wait for the port driver and the publication of the ports. The answer of the
  \<^verbatim>\<open>select\<close> holds 1 when the driver returned before it was ready; its error, which may be
  nil, is then the result of the parent.
\<close>

definition ports_ready :: "Opt \<Rightarrow> unit res prog \<Rightarrow> unit res prog" where
  "ports_ready opt cont =
     (if PortDriver opt = None then cont
      else
        Do PortInit (\<lambda>a.
          if a_int a = 1 then Ret (case a_err a of Some e \<Rightarrow> Inl e | None \<Rightarrow> Inr ())
          else tryp (publish (PublishPorts opt)) (\<lambda>_. cont)))"

definition run_ports :: "Opt \<Rightarrow> int \<Rightarrow> ParentInitNetworkDriverCompleted option \<Rightarrow> unit res prog" where
  "run_ports opt pid net =
     ignore (case PortDriver opt of
               None \<Rightarrow> Ret (Inr ())
             | Some opq \<Rightarrow> sys_unit (PortStart (child_context (case net of Some n \<Rightarrow> n | None \<Rightarrow> zero_net))))
       (tryp (send ''pipe'' (port_Message (case PortDriver opt of None \<Rightarrow> [] | Some opq \<Rightarrow> opq))) (\<lambda>_.
        tryp (sys_unit (ClosePipe ''pipeW'')) (\<lambda>_.
        ports_ready opt (serve_until_exit opt pid))))"

definition defer_opt :: "unit prog option \<Rightarrow> 'a prog \<Rightarrow> 'a prog" where
  "defer_opt c m = (case c of None \<Rightarrow> m | Some p \<Rightarrow> defer_call p m)"

definition run_network :: "Opt \<Rightarrow> int \<Rightarrow> unit res prog" where
  "run_network opt pid =
     (case NetworkDriver opt of
        None \<Rightarrow> tryp (send ''pipe'' (net_Message (Some zero_net))) (\<lambda>_. run_ports opt pid (Some zero_net))
      | Some drv \<Rightarrow>
          pbind (drv pid (StateDir opt) (detached_netns opt pid)) (\<lambda>(netMsg, cleanupNetwork, er).
          defer_opt cleanupNetwork
            (case er of
               Some e \<Rightarrow> Ret (Inl (Wrapf ''failed to setup network %+v: %w'' [] e))
             | None \<Rightarrow> tryp (send ''pipe'' (net_Message netMsg)) (\<lambda>_. run_ports opt pid netMsg))))"

definition handshake :: "host \<Rightarrow> Opt \<Rightarrow> int \<Rightarrow> unit res prog" where
  "handshake host opt pid =
     tryp (send ''pipe'' msgParentHello) (\<lambda>_.
     tryp (wait_for ''pipe2'' ''ChildHello'') (\<lambda>_.
     tryw ''failed to setup UID/GID map: %w'' []
       (setupUIDGIDMap pid (newugidmapArgs (h_open_file host) (h_getsubids host) (h_user host) (Opt_SubidSource opt))) (\<lambda>_.
     tryp (send ''pipe'' msgParentInitIdmapCompleted) (\<lambda>_.
     tryp (wait_for ''pipe2'' ''ChildInitUserNSCompleted'') (\<lambda>_.
     ignore (sys_unit (ForwardSignals pid))
       (defer_call (sys_unit (StopSignals pid))
         (tryp (if Opt_EvacuateCgroup2 opt = [] then Ret (Inr ()) else EvacuateCgroup2 (Opt_EvacuateCgroup2 opt)) (\<lambda>_.
          run_network opt pid))))))))"

definition locked_part :: "host \<Rightarrow> Opt \<Rightarrow> unit res prog" where
  "locked_part host opt =
     tryp (sys_unit (OpenPipe ''pipe'')) (\<lambda>_.
     tryp (sys_unit (OpenPipe ''pipe2'')) (\<lambda>_.
     tryp (start_child opt) (\<lambda>pid. handshake host opt pid)))"

definition Parent :: "host \<Rightarrow> Opt \<Rightarrow> unit res prog" where
  "Parent host opt =
     tryp (checkPreflight opt) (\<lambda>_.
     tryp (createCleanupLock (StateDir opt)) (\<lambda>_.
     tryp (LockStateDir (StateDir opt)) (\<lambda>lock.
     defer_call (sys_unit (RemoveAll (StateDir opt)))
       (defer_call (sys_unit (Unlock lock)) (locked_part host opt)))))"

section \<open>Properties\<close>

lemma run_LockStateDir:
  "run (LockStateDir d) os h =
     (let lk = filepath_Join [d, StateFileLock]; a = os h (TryLock lk) in
      (case a_err a of
         Some e \<Rightarrow> Inl (Wrapf ''failed to lock %s: %w'' [lk] e)
       | None \<Rightarrow> if a_int a = 1 then Inr lk
           else Inl (Errorf ''failed to lock %s, another RootlessKit is running with the same state directory?'' [lk]),
       h @ [TryLock lk]))"
  by (simp add: LockStateDir_def run_simps run_sys_vals Let_def split: option.splits)

lemma run_remove_stuffs:
  "fst (run (remove_stuffs d fs) os h) = Inr () \<Longrightarrow>
   snd (run (remove_stuffs d fs) os h) =
     h @ map (\<lambda>f. RemoveAll (filepath_Join [d, f])) (filter (\<lambda>f. f \<noteq> StateFileLock) fs)"
proof (induction fs arbitrary: h)
  case (Cons f fs)
  show ?case
    using Cons.prems Cons.IH [of h] Cons.IH [of "h @ [RemoveAll (filepath_Join [d, f])]"]
    by (auto simp: run_simps Let_def split: if_splits option.splits)
qed simp

text \<open>Preparing the state directory. When \<^verbatim>\<open>InitStateDir\<close> succeeds it has made the directory, taken
  the lock, removed every entry that the listing showed except the lock file, and released the
  lock, and nothing else.\<close>

theorem InitStateDir_ok:
  assumes "run (InitStateDir d) os [] = (Inr (), h)"
  shows "h = [MkdirAll d, TryLock (filepath_Join [d, StateFileLock]), ReadDir d] @
    map (\<lambda>f. RemoveAll (filepath_Join [d, f]))
      (filter (\<lambda>f. f \<noteq> StateFileLock)
        (a_strs (os [MkdirAll d, TryLock (filepath_Join [d, StateFileLock])] (ReadDir d)))) @
    [Unlock (filepath_Join [d, StateFileLock])]"
  using assms
  by (auto simp: InitStateDir_def run_simps run_LockStateDir run_sys_vals Let_def
      run_remove_stuffs split: option.splits sum.splits prod.splits if_splits)

definition state_os :: os where
  "state_os h c = ok_ans\<lparr>a_int := 1,
     a_strs := (case c of ReadDir p \<Rightarrow> [''api.sock'', ''lock'', ''child_pid''] | _ \<Rightarrow> [])\<rparr>"

theorem InitStateDir_ok_witness:
  "snd (run (InitStateDir ''/run/rk'') state_os []) =
     [MkdirAll ''/run/rk'', TryLock ''/run/rk/lock'', ReadDir ''/run/rk'', RemoveAll ''/run/rk/api.sock'',
      RemoveAll ''/run/rk/child_pid'', Unlock ''/run/rk/lock'']"
proof -
  have j: "filepath_Join [''/run/rk'', ''lock''] = ''/run/rk/lock''"
    "filepath_Join [''/run/rk'', ''api.sock''] = ''/run/rk/api.sock''"
    "filepath_Join [''/run/rk'', ''child_pid''] = ''/run/rk/child_pid''"
    by code_simp+
  obtain h where h: "run (InitStateDir ''/run/rk'') state_os [] = (Inr (), h)"
    by (simp add: InitStateDir_def run_simps run_LockStateDir run_sys_vals Let_def state_os_def StateFileLock_def)
  from InitStateDir_ok [OF h] show ?thesis
    unfolding h by (simp add: state_os_def StateFileLock_def j)
qed


end
