(* ===== verification/Common.thy ===== *)
theory Common
  imports Go_Os Go_Path
begin

text \<open>
  \<^verbatim>\<open>pkg/common\<close> (running commands, exit status), \<^verbatim>\<open>pkg/network/parentutils\<close> and the wait status
  of \<^verbatim>\<open>syscall\<close> with the error type \<^verbatim>\<open>reaperErr\<close> of \<^verbatim>\<open>pkg/child\<close> that carries it.
\<close>

definition Seq :: "unit res prog list \<Rightarrow> unit res prog" where
  "Seq fns = seq_calls fns"

definition Execs :: "string list list \<Rightarrow> unit res prog" where
  "Execs cmds = seq_calls (map (\<lambda>cmd. sys_unit (Run cmd)) cmds)"

text \<open>\<^verbatim>\<open>syscall.WaitStatus\<close> on Linux.\<close>

definition Exited :: "int \<Rightarrow> bool" where
  "Exited ws \<longleftrightarrow> ws mod 128 = 0"

definition Signaled :: "int \<Rightarrow> bool" where
  "Signaled ws \<longleftrightarrow> ws mod 128 \<noteq> 127 \<and> ws mod 128 \<noteq> 0"

definition ExitStatus :: "int \<Rightarrow> int" where
  "ExitStatus ws = (if \<not> Exited ws then - 1 else ws div 256 mod 256)"

definition Signal_String :: "int \<Rightarrow> string" where
  "Signal_String n =
     (if 1 \<le> n \<and> n \<le> 15
      then [''hangup'', ''interrupt'', ''quit'', ''illegal instruction'', ''trace/breakpoint trap'', ''aborted'',
            ''bus error'', ''floating point exception'', ''killed'', ''user defined signal 1'', ''segmentation fault'',
            ''user defined signal 2'', ''broken pipe'', ''alarm clock'', ''terminated''] ! nat (n - 1)
      else ''signal '' @ strconv_Itoa n)"

definition hex8 :: "int \<Rightarrow> string" where
  "hex8 n = (let h = hex_of n in replicate (8 - length h) CHR ''0'' @ h)"

definition reaperErr_Error :: "int \<Rightarrow> string" where
  "reaperErr_Error ws =
     (if Exited ws then ''exit status '' @ strconv_Itoa (ExitStatus ws)
      else if Signaled ws then ''signal: '' @ Signal_String (ws mod 128)
      else ''exited with WAITSTATUS=0x'' @ hex8 ws)"

definition reaperErr :: "int \<Rightarrow> err" where
  "reaperErr ws = WaitErr (reaperErr_Error ws) ws"

text \<open>The exit status of the wrapped error and whether there is one.\<close>

definition GetExecExitStatus :: "err \<Rightarrow> int \<times> bool" where
  "GetExecExitStatus e =
     (case errors_Unwrap e of
        Some (WaitErr t ws) \<Rightarrow> (ExitStatus ws, True)
      | _ \<Rightarrow> (0, False))"

section \<open>parentutils\<close>

definition nsenter :: "int \<Rightarrow> string \<Rightarrow> string list \<Rightarrow> string list" where
  "nsenter childPID childNetNsPath cmd =
     [''nsenter'', ''-t'', strconv_Itoa childPID] @
     (if childNetNsPath \<noteq> [] then [''-n'' @ childNetNsPath] else [''-n'']) @
     [''-m'', ''-U'', ''--preserve-credentials''] @ cmd"

definition PrepareTap :: "int \<Rightarrow> string \<Rightarrow> string \<Rightarrow> unit res prog" where
  "PrepareTap childPID childNetNsPath tap =
     tryw ''executing %v: %w'' [tap]
       (Execs [nsenter childPID childNetNsPath [''ip'', ''tuntap'', ''add'', ''name'', tap, ''mode'', ''tap''],
               nsenter childPID childNetNsPath [''ip'', ''link'', ''set'', tap, ''up'']])
       (\<lambda>_. Ret (Inr ()))"

section \<open>Lemmas\<close>

lemma only_Execs: "(\<And>cmd. P (Run cmd)) \<Longrightarrow> only P (Execs cmds)"
  by (auto simp: Execs_def intro!: only_seq_calls)

lemma only_PrepareTap: "(\<And>cmd. P (Run cmd)) \<Longrightarrow> only P (PrepareTap p n t)"
  by (auto simp: PrepareTap_def intro!: only_combinators only_Execs)

text \<open>The commands run are a prefix of the list, all of them exactly when there is no error.\<close>

lemma run_Execs:
  "\<exists>k \<le> length cmds. snd (run (Execs cmds) os h) = h @ map Run (take k cmds) \<and>
     (fst (run (Execs cmds) os h) = Inr () \<longrightarrow> k = length cmds)"
proof (induction cmds arbitrary: h)
  case Nil
  show ?case by (simp add: Execs_def)
next
  case (Cons c cs)
  show ?case
  proof (cases "a_err (os h (Run c))")
    case None
    from Cons obtain k where k: "k \<le> length cs"
      "snd (run (Execs cs) os (h @ [Run c])) = (h @ [Run c]) @ map Run (take k cs)"
      "fst (run (Execs cs) os (h @ [Run c])) = Inr () \<longrightarrow> k = length cs" by blast
    show ?thesis by (rule exI [of _ "Suc k"]) (use None k in \<open>simp add: Execs_def run_simps\<close>)
  next
    case (Some e)
    show ?thesis by (rule exI [of _ 1]) (simp add: Execs_def run_simps Some)
  qed
qed

lemma GetExecExitStatus_wrapped:
  "GetExecExitStatus (Wrapf f as (reaperErr ws)) = (ExitStatus ws, True)"
  by (simp add: GetExecExitStatus_def reaperErr_def)

lemma ExitStatus_exited: "0 \<le> n \<Longrightarrow> n < 256 \<Longrightarrow> ExitStatus (256 * n) = n"
  by (auto simp: ExitStatus_def Exited_def)

end
