(* ===== verification/Copyup.thy ===== *)
theory Copyup
  imports Common
begin

text \<open>
  \<^verbatim>\<open>pkg/copyup/tmpfssymlink\<close>: a directory is replaced by a tmpfs with symbolic links to the
  entries of the original, which is moved to a read-only-named directory inside the tmpfs.
  The listing of a directory holds the names and, separately, the names of symbolic links.
\<close>

definition MS_BIND :: string where "MS_BIND = ''MS_BIND''"
definition MS_REC :: string where "MS_REC = ''MS_REC''"
definition MS_MOVE :: string where "MS_MOVE = ''MS_MOVE''"

fun link_files :: "string \<Rightarrow> string \<Rightarrow> string list \<Rightarrow> string list \<Rightarrow> unit res prog" where
  "link_files d bind1 links [] = Ret (Inr ())"
| "link_files d bind1 links (f # fs) =
     (let fFull = filepath_Join [bind1, f]; symlinkDst = filepath_Join [d, f] in
      tryp (if f \<in> set links
            then tryw ''reading dir %s: %w'' [fFull] (sys_str (Readlink fFull)) (\<lambda>s. Ret (Inr s))
            else Ret (Inr (filepath_Join [filepath_Base bind1, f]))) (\<lambda>symlinkSrc.
      tryw ''removing %s: %w'' [symlinkDst] (sys_unit (RemoveAll symlinkDst)) (\<lambda>_.
      tryw ''symlinking %s to %s: %w'' [symlinkSrc, symlinkDst] (sys_unit (Symlink symlinkSrc symlinkDst)) (\<lambda>_.
      link_files d bind1 links fs))))"

definition list_dir :: "string \<Rightarrow> (string list \<times> string list) res prog" where
  "list_dir p = Do (ReadDir p) (\<lambda>a. Ret (case a_err a of Some e \<Rightarrow> Inl e | None \<Rightarrow> Inr (a_strs a, a_links a)))"

definition copy_dir :: "string \<Rightarrow> string \<Rightarrow> unit res prog" where
  "copy_dir bind0 d =
     (if d = ''/tmp'' then Ret (Inl (New ''/tmp cannot be copied up''))
      else
        tryw ''failed to create bind mount on %s: %w'' [d] (sys_unit (Mount d bind0 [] [MS_BIND, MS_REC])) (\<lambda>_.
        tryw ''failed to mount tmpfs on %s: %w'' [d] (sys_unit (Mount ''none'' d ''tmpfs'' [])) (\<lambda>_.
        tryw ''creating a directory under %s: %w'' [d] (sys_str (MkdirTemp d ''.ro'')) (\<lambda>bind1.
        tryw ''failed to move mount point from %s to %s: %w'' [bind0, bind1] (sys_unit (Mount bind0 bind1 [] [MS_MOVE])) (\<lambda>_.
        tryw ''reading dir %s: %w'' [bind1] (list_dir bind1) (\<lambda>(files, links).
        link_files d bind1 links files))))))"

fun copy_dirs :: "string \<Rightarrow> string list \<Rightarrow> string list \<Rightarrow> (string list \<times> unit res) prog" where
  "copy_dirs bind0 copied [] = Ret (copied, Inr ())"
| "copy_dirs bind0 copied (d # ds) =
     pbind (copy_dir bind0 (Clean d)) (\<lambda>r.
       case r of
         Inl e \<Rightarrow> Ret (copied, Inl e)
       | Inr _ \<Rightarrow> copy_dirs bind0 (copied @ [Clean d]) ds)"

definition CopyUp :: "string list \<Rightarrow> (string list \<times> unit res) prog" where
  "CopyUp dirs =
     pbind (sys_str (MkdirTemp ''/tmp'' ''rootlesskit-b'')) (\<lambda>r.
       case r of
         Inl e \<Rightarrow> Ret ([], Inl (Wrapf ''creating bind0 directory under /tmp: %w'' [] e))
       | Inr bind0 \<Rightarrow> defer_call (sys_unit (RemoveAll bind0)) (copy_dirs bind0 [] dirs))"

section \<open>Properties\<close>

lemma run_link_files:
  "fst (run (link_files d b links fs) os h) = Inr () \<Longrightarrow> f \<in> set fs \<Longrightarrow>
   \<exists>src. Symlink src (filepath_Join [d, f]) \<in> set (snd (run (link_files d b links fs) os h)) \<and>
     (f \<notin> set links \<longrightarrow> src = filepath_Join [filepath_Base b, f])"
proof (induction fs arbitrary: h)
  case (Cons g fs)
  let ?rest = "\<lambda>h. run (link_files d b links fs) os h"
  have grow: "c \<in> set h' \<Longrightarrow> c \<in> set (snd (?rest h'))" for c h'
    using run_prefix [of "link_files d b links fs" os h'] by auto
  show ?case
  proof (cases "f = g")
    case True
    then show ?thesis using Cons.prems
      by (auto simp: run_simps run_sys_vals Let_def split: if_splits option.splits intro!: grow)
  next
    case False
    then show ?thesis using Cons.prems Cons.IH
      by (auto simp: run_simps run_sys_vals Let_def split: if_splits option.splits)
  qed
qed simp

lemma run_copy_dirs:
  "run (copy_dirs b copied ds) os h = ((cs, r), h') \<Longrightarrow>
   \<exists>k \<le> length ds. cs = copied @ map Clean (take k ds) \<and> (r = Inr () \<longrightarrow> k = length ds) \<and>
     ''/tmp'' \<notin> set (map Clean (take k ds))"
proof (induction ds arbitrary: copied h)
  case Nil
  then show ?case by simp
next
  case (Cons d ds)
  show ?case
  proof (cases "run (copy_dir b (Clean d)) os h")
    case (Pair r1 h1)
    show ?thesis
    proof (cases r1)
      case (Inl e)
      then show ?thesis using Cons.prems Pair by (intro exI [of _ 0]) (auto simp: run_simps)
    next
      case (Inr u)
      have nt: "Clean d \<noteq> ''/tmp''" using Pair Inr by (auto simp: copy_dir_def)
      from Cons.prems Pair Inr have "run (copy_dirs b (copied @ [Clean d]) ds) os h1 = ((cs, r), h')"
        by (simp add: run_simps)
      from Cons.IH [OF this] obtain k where "k \<le> length ds" "cs = copied @ Clean d # map Clean (take k ds)"
        "r = Inr () \<longrightarrow> k = length ds" "''/tmp'' \<notin> set (map Clean (take k ds))" by auto
      then show ?thesis using nt by (intro exI [of _ "Suc k"]) auto
    qed
  qed
qed

text \<open>Copy-up. The directories reported as copied are the cleaned names of a prefix of the request, the
  whole request when there is no error, and \<^verbatim>\<open>/tmp\<close>, where the temporary mount point is, is never
  among them.\<close>

theorem CopyUp_copied:
  "case run (CopyUp dirs) os [] of ((copied, r), h) \<Rightarrow>
     \<exists>k \<le> length dirs. copied = map Clean (take k dirs) \<and> (r = Inr () \<longrightarrow> k = length dirs) \<and>
       ''/tmp'' \<notin> set copied"
proof (cases "a_err (os [] (MkdirTemp ''/tmp'' ''rootlesskit-b''))")
  case (Some e)
  then show ?thesis by (auto simp: CopyUp_def run_simps run_sys_vals)
next
  case None
  let ?h = "[MkdirTemp ''/tmp'' ''rootlesskit-b'']"
  obtain cs r h' where r: "run (copy_dirs (a_str (os [] (MkdirTemp ''/tmp'' ''rootlesskit-b''))) [] dirs) os ?h = ((cs, r), h')"
    by (metis prod.collapse)
  from run_copy_dirs [OF r] None r show ?thesis
    by (auto simp: CopyUp_def run_simps run_sys_vals)
qed

text \<open>C37: a hazard of the cleanup. When the tmpfs cannot be mounted over a directory that was already bind
  mounted to the temporary directory, the deferred removal deletes the temporary directory
  recursively while the bind mount is still in place: no call unmounts or moves it in between.\<close>

theorem CopyUp_removes_through_bind:
  assumes "Clean d \<noteq> ''/tmp''"
    and "\<And>h. a_err (os h (MkdirTemp ''/tmp'' ''rootlesskit-b'')) = None"
    and "\<And>h. a_str (os h (MkdirTemp ''/tmp'' ''rootlesskit-b'')) = b"
    and "\<And>h. a_err (os h (Mount (Clean d) b [] [MS_BIND, MS_REC])) = None"
    and "\<And>h. a_err (os h (Mount ''none'' (Clean d) ''tmpfs'' [])) = Some e"
  shows "run (CopyUp (d # ds)) os [] =
    (([], Inl (Wrapf ''failed to mount tmpfs on %s: %w'' [Clean d] e)),
     [MkdirTemp ''/tmp'' ''rootlesskit-b'', Mount (Clean d) b [] [MS_BIND, MS_REC],
      Mount ''none'' (Clean d) ''tmpfs'' [], RemoveAll b])"
  using assms by (simp add: CopyUp_def copy_dir_def run_simps run_sys_vals)

definition no_tmpfs_os :: os where
  "no_tmpfs_os h c = ok_ans\<lparr>a_str := ''/tmp/b'',
     a_err := (if c = Mount ''none'' ''/home/u'' ''tmpfs'' [] then Some (Sys ''EPERM'') else None)\<rparr>"

theorem CopyUp_removes_through_bind_witness:
  "snd (run (CopyUp [''/home/u'']) no_tmpfs_os []) =
     [MkdirTemp ''/tmp'' ''rootlesskit-b'', Mount ''/home/u'' ''/tmp/b'' [] [MS_BIND, MS_REC],
      Mount ''none'' ''/home/u'' ''tmpfs'' [], RemoveAll ''/tmp/b'']"
proof -
  have c: "Clean ''/home/u'' = ''/home/u''" by code_simp
  show ?thesis
    using CopyUp_removes_through_bind [of "''/home/u''" no_tmpfs_os "''/tmp/b''" "Sys ''EPERM''" "[]"]
    by (simp add: c no_tmpfs_os_def)
qed

end
