(* ===== verification/Rk_Child.thy ===== *)
theory Rk_Child
  imports Copyup
begin

text \<open>
  \<^verbatim>\<open>pkg/child\<close>: the child process. It takes part in the handshake, re-executes itself to gain
  its capabilities, sets up mounts and the network and runs the target command. A child
  network driver is its method \<^verbatim>\<open>ConfigureNetworkChild\<close>, which returns the device and the
  altered message, and the flag of \<^verbatim>\<open>ChildDriverInfo\<close>; a copy-up driver is its method
  \<^verbatim>\<open>CopyUp\<close>; the port driver runs in a goroutine and its methods are calls. A run-time panic
  is an error with its text. The reaper waits for signals in a loop without bound: it has
  fuel, the number of signals it handles.
\<close>

record child_net_driver =
  cn_ConfigureNetworkChild :: "ParentInitNetworkDriverCompleted \<Rightarrow> string \<Rightarrow> (string \<times> ParentInitNetworkDriverCompleted) res prog"
  cn_ConfiguresInterface :: bool

record child_Opt =
  co_PipeFDEnvKey :: string
  co_RunActivationHelperEnvKey :: string
  co_ChildUseActivationEnvKey :: string
  co_StateDirEnvKey :: string
  co_TargetCmd :: "string list"
  co_NetworkDriver :: "child_net_driver option"
  co_CopyUpDriver :: "(string list \<Rightarrow> (string list \<times> unit res) prog) option"
  co_CopyUpDirs :: "string list"
  co_DetachNetNS :: bool
  co_PortDriver :: bool
  co_MountProcfs :: bool
  co_Propagation :: string
  co_Reaper :: bool
  co_EvacuateCgroup2 :: bool

definition MS_RDONLY :: string where "MS_RDONLY = ''MS_RDONLY''"

definition go_panic :: "string \<Rightarrow> err" where
  "go_panic s = Sys (''panic: '' @ s)"

definition propagationStates :: "string \<Rightarrow> string list option" where
  "propagationStates = map_of
     [(''private'', [''MS_PRIVATE'']), (''rprivate'', [MS_REC, ''MS_PRIVATE'']),
      (''shared'', [''MS_SHARED'']), (''rshared'', [MS_REC, ''MS_SHARED'']),
      (''slave'', [''MS_SLAVE'']), (''rslave'', [MS_REC, ''MS_SLAVE''])]"

section \<open>The command\<close>

text \<open>The files passed to the command: a negative number makes \<^verbatim>\<open>make\<close> panic.\<close>

definition setupFiles :: "string \<Rightarrow> string list res" where
  "setupFiles v =
     (if v = [] then Inr []
      else (case strconv_Atoi v of
              Inl _ \<Rightarrow> Inr []
            | Inr num \<Rightarrow>
                if num < 0 then Inl (go_panic ''runtime error: makeslice: len out of range'')
                else Inr (map (\<lambda>fd. ''fd '' @ strconv_Itoa (3 + int fd)) [0..<nat num])))"

record Cmd =
  cmd_Args :: "string list"
  cmd_Env :: "string list"
  cmd_ExtraFiles :: "string list"
  cmd_Attr :: "string list"

definition createCmd :: "child_Opt \<Rightarrow> Cmd res prog" where
  "createCmd opt =
     pbind (get_env (co_ChildUseActivationEnvKey opt)) (\<lambda>v.
     ignore (sys_unit (Unsetenv (co_ChildUseActivationEnvKey opt)))
       (pbind (get_strs_of Environ) (\<lambda>cmdEnv.
        tryp (if strconv_ParseBool v = Inr True
              then pbind (get_strs_of Args) (\<lambda>args.
                Ret (Inr (''/proc/self/exe'' # drop 1 args, cmdEnv @ [co_RunActivationHelperEnvKey opt @ ''=true''])))
              else if co_TargetCmd opt = [] then Ret (Inl (go_panic ''runtime error: index out of range [0] with length 0''))
              else Ret (Inr (co_TargetCmd opt, cmdEnv))) (\<lambda>(argv, env).
        pbind (get_env ''LISTEN_FDS'') (\<lambda>fds.
        tryp (Ret (setupFiles fds)) (\<lambda>files.
        Ret (Inr \<lparr>cmd_Args = argv, cmd_Env = env, cmd_ExtraFiles = files, cmd_Attr = [''Pdeathsig:SIGKILL'']\<rparr>)))))))"

section \<open>Mounts\<close>

definition cgroupDir :: string where "cgroupDir = ''/sys/fs/cgroup''"

definition mountSysfs :: "bool \<Rightarrow> bool \<Rightarrow> unit res prog" where
  "mountSysfs hostNetwork evacuateCgroup2 =
     (if hostNetwork then
        (if evacuateCgroup2 then
           tryw ''failed to mount tmpfs on %s: %w'' [cgroupDir] (sys_unit (Mount ''none'' cgroupDir ''tmpfs'' [])) (\<lambda>_.
           tryw ''failed to mount cgroup2 on %s: %w'' [cgroupDir] (sys_unit (Mount ''none'' cgroupDir ''cgroup2'' [])) (\<lambda>_.
           Ret (Inr ())))
         else Ret (Inr ()))
      else
        tryw ''creating a directory under /tmp: %w'' [] (sys_str (MkdirTemp ''/tmp'' ''rksys'')) (\<lambda>tmp.
        defer_call (sys_unit (RemoveAll tmp))
         (tryp (if evacuateCgroup2 then Ret (Inr ())
                else tryw ''failed to create bind mount on %s: %w'' [cgroupDir]
                       (sys_unit (Mount cgroupDir tmp [] [MS_BIND, MS_REC])) (\<lambda>_. Ret (Inr ()))) (\<lambda>_.
          pbind (sys_unit (Mount ''none'' ''/sys'' ''sysfs'' [])) (\<lambda>r.
          ignore (case r of
                    Inl e \<Rightarrow> sys_unit (Mount ''none'' ''/sys'' ''sysfs'' [MS_RDONLY])
                  | Inr _ \<Rightarrow> Ret (Inr ()))
          (if evacuateCgroup2 then
             tryw ''failed to mount cgroup2 on %s: %w'' [cgroupDir] (sys_unit (Mount ''none'' cgroupDir ''cgroup2'' [])) (\<lambda>_.
             Ret (Inr ()))
           else
             tryw ''failed to move mount point from %s to %s: %w'' [tmp, cgroupDir]
               (sys_unit (Mount tmp cgroupDir [] [MS_MOVE])) (\<lambda>_. Ret (Inr ()))))))))"

definition mountProcfs :: "unit res prog" where
  "mountProcfs =
     pbind (sys_unit (Mount ''none'' ''/proc'' ''proc'' [])) (\<lambda>r.
     ignore (case r of
               Inl e \<Rightarrow> sys_unit (Mount ''none'' ''/proc'' ''proc'' [MS_RDONLY])
             | Inr _ \<Rightarrow> Ret (Inr ()))
     (Ret (Inr ())))"

definition setMountPropagation :: "string \<Rightarrow> unit res prog" where
  "setMountPropagation propagation =
     (case propagationStates propagation of
        None \<Rightarrow> Ret (Inr ())
      | Some flags \<Rightarrow>
          tryw ''failed to share mount point: /: %w'' [] (sys_unit (Mount ''none'' ''/'' [] flags)) (\<lambda>_. Ret (Inr ())))"

definition setupCopyDir ::
  "(string list \<Rightarrow> (string list \<times> unit res) prog) option \<Rightarrow> string list \<Rightarrow> (bool \<times> unit res) prog" where
  "setupCopyDir driver dirs =
     (case driver of
        Some copy_up \<Rightarrow> pbind (copy_up dirs) (\<lambda>(copied, er). Ret (''/etc'' \<in> set copied, er))
      | None \<Rightarrow>
          if dirs \<noteq> [] then Ret (False, Inl (New ''copy-up driver is not specified''))
          else Ret (False, Inr ()))"

section \<open>Network\<close>

definition activateLoopback :: "unit res prog" where
  "activateLoopback =
     tryw ''executing %v: %w'' [''ip link set lo up''] (Execs [[''ip'', ''link'', ''set'', ''lo'', ''up'']]) (\<lambda>_. Ret (Inr ()))"

definition activate_cmds :: "string \<Rightarrow> string \<Rightarrow> int \<Rightarrow> string \<Rightarrow> int \<Rightarrow> string list list" where
  "activate_cmds dev ip netmask gateway mtu =
     [[''ip'', ''link'', ''set'', dev, ''up''],
      [''ip'', ''link'', ''set'', ''dev'', dev, ''mtu'', strconv_Itoa mtu],
      [''ip'', ''addr'', ''add'', ip @ ''/'' @ strconv_Itoa netmask, ''dev'', dev],
      [''ip'', ''route'', ''add'', ''default'', ''via'', gateway, ''dev'', dev]]"

definition activateDev :: "string \<Rightarrow> string \<Rightarrow> int \<Rightarrow> string \<Rightarrow> int \<Rightarrow> unit res prog" where
  "activateDev dev ip netmask gateway mtu =
     tryw ''executing %v: %w'' [dev] (Execs (activate_cmds dev ip netmask gateway mtu)) (\<lambda>_. Ret (Inr ()))"

definition generateEtcHosts :: "string res prog" where
  "generateEtcHosts =
     tryp (sys_str (ReadFile ''/etc/hosts'')) (\<lambda>etcHosts.
     tryp (sys_str Hostname) (\<lambda>hostname.
     Ret (Inr (etcHosts @ [CHR 0x0A] @ ''127.0.0.1 '' @ hostname @ [CHR 0x0A] @ ''::1 '' @ hostname @ [CHR 0x0A]))))"

fun generateResolvConf :: "string list \<Rightarrow> string" where
  "generateResolvConf [] = []"
| "generateResolvConf (d # ds) = ''nameserver '' @ d @ [CHR 0x0A] @ generateResolvConf ds"

text \<open>\<^verbatim>\<open>ns.WithNetNSPath\<close>: the function runs inside the namespace.\<close>

definition with_netns :: "string \<Rightarrow> 'a res prog \<Rightarrow> 'a res prog" where
  "with_netns p m = tryp (sys_unit (EnterNetns p)) (\<lambda>_. defer_call (sys_unit (LeaveNetns p)) m)"

fun blank_files :: "string list \<Rightarrow> unit res prog" where
  "blank_files [] = Ret (Inr ())"
| "blank_files (f # fs) =
     tryw ''failed to remove copied-up link %q: %w'' [f] (sys_unit (RemoveAll f)) (\<lambda>_.
     tryw ''writing %s: %w'' [f] (sys_unit (WriteFile f [])) (\<lambda>_. blank_files fs))"

definition configure_dev :: "child_net_driver \<Rightarrow> string \<Rightarrow> ParentInitNetworkDriverCompleted \<Rightarrow> unit res prog" where
  "configure_dev drv dev msg =
     (if cn_ConfiguresInterface drv then Ret (Inr ())
      else activateDev dev (nm_IP msg) (nm_Netmask msg) (nm_Gateway msg) (nm_MTU msg))"

definition setup_attached ::
  "string \<Rightarrow> string \<Rightarrow> ParentInitNetworkDriverCompleted \<Rightarrow> bool \<Rightarrow> child_net_driver \<Rightarrow> unit res prog" where
  "setup_attached resolv hosts msg etcWasCopied drv =
     tryp activateLoopback (\<lambda>_.
     tryp (cn_ConfigureNetworkChild drv msg []) (\<lambda>(dev, msg').
     tryw ''writing %s: %w'' [resolv] (sys_unit (WriteFile resolv (generateResolvConf (nm_DNS msg')))) (\<lambda>_.
     tryp (configure_dev drv dev msg') (\<lambda>_.
     tryp (if etcWasCopied then blank_files [''/etc/resolv.conf'', ''/etc/hosts''] else Ret (Inr ())) (\<lambda>_.
     tryw ''failed to create bind mount /etc/resolv.conf for %s: %w'' [resolv]
       (sys_unit (Mount resolv ''/etc/resolv.conf'' [] [MS_BIND])) (\<lambda>_.
     tryw ''failed to create bind mount /etc/hosts for %s: %w'' [hosts]
       (sys_unit (Mount hosts ''/etc/hosts'' [] [MS_BIND])) (\<lambda>_. Ret (Inr ()))))))))"

definition setup_detached ::
  "string \<Rightarrow> ParentInitNetworkDriverCompleted \<Rightarrow> child_net_driver \<Rightarrow> string \<Rightarrow> unit res prog" where
  "setup_detached resolv msg drv netns =
     tryp (with_netns netns activateLoopback) (\<lambda>_.
     tryp (cn_ConfigureNetworkChild drv msg netns) (\<lambda>(dev, msg').
     tryw ''writing %s: %w'' [resolv] (sys_unit (WriteFile resolv (generateResolvConf (nm_DNS msg')))) (\<lambda>_.
     tryp (with_netns netns (configure_dev drv dev msg')) (\<lambda>_. Ret (Inr ())))))"

definition setupNet ::
  "string \<Rightarrow> ParentInitNetworkDriverCompleted option \<Rightarrow> bool \<Rightarrow> child_net_driver option \<Rightarrow> string \<Rightarrow> unit res prog" where
  "setupNet stateDir msg etcWasCopied driver detachedNetNSPath =
     (case driver of
        None \<Rightarrow> Ret (Inr ())
      | Some drv \<Rightarrow>
          (let resolv = filepath_Join [stateDir, ''resolv.conf'']; hosts = filepath_Join [stateDir, ''hosts''] in
           tryp generateEtcHosts (\<lambda>content.
           tryw ''writing %s: %w'' [hosts] (sys_unit (WriteFile hosts content)) (\<lambda>_.
           case msg of
             None \<Rightarrow> Ret (Inl (go_panic ''runtime error: invalid memory address or nil pointer dereference''))
           | Some m \<Rightarrow>
               if detachedNetNSPath = [] then setup_attached resolv hosts m etcWasCopied drv
               else setup_detached resolv m drv detachedNetNSPath))))"

definition NewNetNsWithPathWithoutEnter :: "string \<Rightarrow> unit res prog" where
  "NewNetNsWithPathWithoutEnter p =
     tryp (sys_unit (WriteFile p [])) (\<lambda>_.
     tryp (sys_str Executable) (\<lambda>selfExe.
     tryw ''failed to execute %v: %w (out=%q)'' [p]
       (sys_unit (RunAs selfExe [''unshare'', ''-n'', ''mount'', ''--bind'', ''/proc/self/ns/net'', p])) (\<lambda>_.
     Ret (Inr ()))))"

section \<open>Capabilities\<close>

text \<open>The answers of \<^verbatim>\<open>Stat\<close> on a namespace link and of \<^verbatim>\<open>Capget\<close> hold the inode and the effective set.\<close>

definition statPIDNS :: "int \<Rightarrow> int res prog" where
  "statPIDNS pid = sys_int (Stat (''/proc/'' @ strconv_Itoa pid @ ''/ns/pid''))"

definition hasCaps :: "bool res prog" where
  "hasCaps =
     pbind (get_int_of Getpid) (\<lambda>pid.
     tryw ''failed to get the current caps: %w'' [] (sys_int Capget) (\<lambda>eff. Ret (Inr (eff \<noteq> 0))))"

definition reexec_env :: "int \<Rightarrow> int \<Rightarrow> string" where
  "reexec_env pidns pid = ''_ROOTLESSKIT_REEXEC_COUNT_'' @ strconv_Itoa pidns @ ''_'' @ strconv_Itoa pid"

definition gainCaps :: "unit res prog" where
  "gainCaps =
     pbind (get_int_of Getpid) (\<lambda>pid.
     pbind (statPIDNS pid) (\<lambda>st.
     (let envName = reexec_env (case st of Inl e \<Rightarrow> 0 | Inr n \<Rightarrow> n) pid in
      pbind (get_env envName) (\<lambda>v.
      tryp (if v = [] then Ret (Inr 0)
            else Ret (case strconv_Atoi v of
                        Inl e \<Rightarrow> Inl (Wrapf ''failed to parse %s value %q: %w'' [envName, v] e)
                      | Inr n \<Rightarrow> Inr n)) (\<lambda>n.
      ignore (if 5 < n then sys_unit (Sleep (10 * n)) else Ret (Inr ()))
       (if 10 < n
        then Ret (Inl (Errorf ''no capabilities was gained after reexecuting the child (%s=%d)'' [envName, strconv_Itoa n]))
        else
          ignore (sys_unit (Setenv envName (strconv_Itoa (n + 1))))
           (pbind (get_strs_of Args) (\<lambda>args.
            tryp (sys_unit (Execve ''/proc/self/exe'' args)) (\<lambda>_.
            Ret (Inl (go_panic ''should not reach here'')))))))))))"

section \<open>Running and reaping\<close>

definition runWithoutReap :: "Cmd \<Rightarrow> unit res prog" where
  "runWithoutReap cmd =
     tryp (sys_int (StartCmd (cmd_Args cmd) (cmd_Env cmd) (cmd_ExtraFiles cmd) (cmd_Attr cmd))) (\<lambda>pid.
     ignore (sys_unit (ForwardSignals pid))
       (defer_call (sys_unit (StopSignals pid)) (sys_unit (Wait pid))))"

text \<open>
  One round of \<^verbatim>\<open>wait4(-1, WNOHANG)\<close>: the answers until there is an error or no more process;
  the status of the own process is kept.
\<close>

fun reap :: "int \<Rightarrow> int option \<Rightarrow> (int \<times> int) list \<Rightarrow> int option" where
  "reap myPid res [] = res"
| "reap myPid res ((pid, ws) # ps) =
     (if pid \<le> 0 then res else reap myPid (if pid = myPid then Some ws else res) ps)"

definition reap_result :: "int \<Rightarrow> unit res" where
  "reap_result ws = (if Exited ws \<and> ExitStatus ws = 0 then Inr () else Inl (reaperErr ws))"

fun reaper_loop :: "nat \<Rightarrow> int \<Rightarrow> unit res prog" where
  "reaper_loop 0 pid = Ret (Inl (Sys ''out of fuel''))"
| "reaper_loop (Suc n) pid =
     ignore (sys_unit NotifySigchld)
       (Do Wait4 (\<lambda>a. case reap pid None (a_batch a) of
                          None \<Rightarrow> reaper_loop n pid
                        | Some ws \<Rightarrow> Ret (reap_result ws)))"

definition runAndReap :: "nat \<Rightarrow> Cmd \<Rightarrow> unit res prog" where
  "runAndReap n cmd =
     tryp (sys_int (StartCmd (cmd_Args cmd) (cmd_Env cmd) (cmd_ExtraFiles cmd) (cmd_Attr cmd @ [''Setsid'']))) (\<lambda>pid.
     ignore (sys_unit (ForwardSignals pid))
       (defer_call (sys_unit (StopSignals pid)) (reaper_loop n pid)))"

section \<open>The child\<close>

text \<open>
  \<^verbatim>\<open>fmt.Sscanf\<close> with the format \<^verbatim>\<open>%d,%d\<close>: spaces before a number are skipped, a sign and
  digits follow, the comma must match, and what follows the second number is not looked at.
\<close>

definition scan_space :: "char \<Rightarrow> bool" where
  "scan_space c \<longleftrightarrow> is_space c \<and> c \<noteq> CHR 0x0A"

definition scan_int :: "string \<Rightarrow> (int \<times> string) res" where
  "scan_int s =
     (let t = dropWhile scan_space s;
          sign = (if t \<noteq> [] \<and> (hd t = CHR ''-'' \<or> hd t = CHR ''+'') then [hd t] else []);
          u = drop (length sign) t;
          ds = takeWhile is_digit u
      in if ds = [] then Inl (Sys ''expected integer'')
         else (case strconv_Atoi (sign @ ds) of
                 Inl e \<Rightarrow> Inl (Sys ''integer overflow on token'')
               | Inr n \<Rightarrow> Inr (n, drop (length ds) u)))"

definition Sscanf_pair :: "string \<Rightarrow> (int \<times> int) res" where
  "Sscanf_pair s =
     (case scan_int s of
        Inl e \<Rightarrow> Inl e
      | Inr (a, t) \<Rightarrow>
          if t = [] \<or> hd t \<noteq> CHR '','' then Inl (Sys ''input does not match format'')
          else (case scan_int (tl t) of Inl e \<Rightarrow> Inl e | Inr (b, _) \<Rightarrow> Inr (a, b)))"

definition msgChildHello :: Message where
  "msgChildHello = empty_Message (nil_U\<lparr>u_ChildHello := True\<rparr>)"

definition msgChildInitUserNSCompleted :: Message where
  "msgChildInitUserNSCompleted = empty_Message (nil_U\<lparr>u_ChildInitUserNSCompleted := True\<rparr>)"

definition first_execution :: "unit res prog" where
  "first_execution =
     tryp (wait_for ''pipe'' ''ParentHello'') (\<lambda>_.
     tryp (send ''pipe2'' msgChildHello) (\<lambda>_.
     tryp (wait_for ''pipe'' ''ParentInitIdmapCompleted'') (\<lambda>_.
     tryw ''failed to gain the caps inside the user namespace: %w'' [] gainCaps (\<lambda>_. Ret (Inr ())))))"

definition run_target :: "nat \<Rightarrow> child_Opt \<Rightarrow> unit res prog" where
  "run_target n opt =
     tryp (createCmd opt) (\<lambda>cmd.
     tryw ''command %v exited: %w'' [Join (co_TargetCmd opt) '' '']
       (tryp (sys_unit (Prctl ''PR_SET_PDEATHSIG'')) (\<lambda>_.
        if co_Reaper opt then runAndReap n cmd else runWithoutReap cmd)) (\<lambda>_.
     if co_PortDriver opt then ignore (sys_unit PortQuit) (sys_unit PortResult)
     else Ret (Inr ())))"

definition setup_and_run ::
  "nat \<Rightarrow> child_Opt \<Rightarrow> string \<Rightarrow> string \<Rightarrow> int \<Rightarrow> ParentInitNetworkDriverCompleted option \<Rightarrow>
   ParentInitPortDriverCompleted option \<Rightarrow> unit res prog" where
  "setup_and_run n opt stateDir netns pipeFD netMsg portMsg =
     ignore (sys_unit (Unsetenv (co_PipeFDEnvKey opt)))
      (tryw ''failed to close fd %d: %w'' [strconv_Itoa pipeFD] (sys_unit (ClosePipe ''pipeR'')) (\<lambda>_.
       tryp (setMountPropagation (co_Propagation opt)) (\<lambda>_.
       pbind (setupCopyDir (co_CopyUpDriver opt) (co_CopyUpDirs opt)) (\<lambda>(etcWasCopied, er).
       tryp (Ret er) (\<lambda>_.
       tryp (if netns = [] then mountSysfs (co_NetworkDriver opt = None) (co_EvacuateCgroup2 opt) else Ret (Inr ())) (\<lambda>_.
       tryp (setupNet stateDir netMsg etcWasCopied (co_NetworkDriver opt) netns) (\<lambda>_.
       ignore (if co_PortDriver opt
               then sys_unit (PortChildStart (case portMsg of None \<Rightarrow> [] | Some p \<Rightarrow> pm_PortDriverOpaque p) netns)
               else Ret (Inr ()))
        (run_target n opt))))))))"

definition second_execution :: "nat \<Rightarrow> child_Opt \<Rightarrow> string \<Rightarrow> int \<Rightarrow> unit res prog" where
  "second_execution n opt stateDir pipeFD =
     tryp (if co_MountProcfs opt then mountProcfs else Ret (Inr ())) (\<lambda>_.
     (let netns = (if co_DetachNetNS opt then filepath_Join [stateDir, ''netns''] else []) in
      tryp (if co_DetachNetNS opt
            then tryw ''failed to create a detached netns on %q: %w'' [netns] (NewNetNsWithPathWithoutEnter netns) (\<lambda>_. Ret (Inr ()))
            else Ret (Inr ())) (\<lambda>_.
      tryp (send ''pipe2'' msgChildInitUserNSCompleted) (\<lambda>_.
      tryp (wait_for ''pipe'' ''ParentInitNetworkDriverCompleted'') (\<lambda>m1.
      tryp (wait_for ''pipe'' ''ParentInitPortDriverCompleted'') (\<lambda>m2.
      setup_and_run n opt stateDir netns pipeFD
        (u_ParentInitNetworkDriverCompleted (m_U m1)) (u_ParentInitPortDriverCompleted (m_U m2))))))))"

definition Child :: "nat \<Rightarrow> child_Opt \<Rightarrow> unit res prog" where
  "Child n opt =
     (if co_PipeFDEnvKey opt = [] then Ret (Inl (New ''pipe FD env key is not set''))
      else
        pbind (get_env (co_PipeFDEnvKey opt)) (\<lambda>pipeFDStr.
        if pipeFDStr = [] then Ret (Inl (Errorf ''%s is not set'' [co_PipeFDEnvKey opt]))
        else
          (case Sscanf_pair pipeFDStr of
             Inl e \<Rightarrow> Ret (Inl (Wrapf ''unexpected fd value: %s: %w'' [pipeFDStr] e))
           | Inr (pipeFD, pipe2FD) \<Rightarrow>
               pbind (get_env (if co_StateDirEnvKey opt = [] then ''ROOTLESSKIT_STATE_DIR'' else co_StateDirEnvKey opt)) (\<lambda>stateDir.
               if stateDir = [] then Ret (Inl (New ''got empty StateDir''))
               else
                 tryp hasCaps (\<lambda>ok.
                 tryp (if ok then Ret (Inr ()) else first_execution) (\<lambda>_.
                 second_execution n opt stateDir pipeFD))))))"

section \<open>Properties\<close>

lemma scan_int_Itoa:
  assumes "0 \<le> n" and "int64_ok n" and "rest = [] \<or> \<not> is_digit (hd rest)"
  shows "scan_int (strconv_Itoa n @ rest) = Inr (n, rest)"
proof -
  let ?d = "strconv_Itoa n"
  have dig: "\<forall>c\<in>set ?d. is_digit c" using assms(1) Itoa_nonneg_digits by blast
  obtain c cs where c: "?d = c # cs" by (cases "?d") auto
  have "is_digit c" using dig c by simp
  then have nsp: "\<not> scan_space c" "c \<noteq> CHR ''-''" "c \<noteq> CHR ''+''"
    by (auto simp: scan_space_def is_space_def is_digit_def)
  have tk: "takeWhile is_digit (?d @ rest) = ?d" "drop (length ?d) (?d @ rest) = rest"
    using dig assms(3) by (auto simp: takeWhile_append2 takeWhile_eq_Nil_iff)
  have dw: "dropWhile scan_space (?d @ rest) = ?d @ rest" using c nsp(1) by simp
  show ?thesis
    unfolding scan_int_def dw using tk c nsp Atoi_Itoa [OF assms(2)] by (simp add: Let_def)
qed

lemma Sscanf_pair_Itoa:
  assumes "0 \<le> a" "int64_ok a" "0 \<le> b" "int64_ok b"
  shows "Sscanf_pair (strconv_Itoa a @ '','' @ strconv_Itoa b) = Inr (a, b)"
proof -
  have "scan_int (strconv_Itoa a @ '','' @ strconv_Itoa b) = Inr (a, '','' @ strconv_Itoa b)"
    using assms by (intro scan_int_Itoa) (auto simp: is_digit_def)
  moreover have "scan_int (strconv_Itoa b @ []) = Inr (b, [])" using assms by (intro scan_int_Itoa) auto
  ultimately show ?thesis by (simp add: Sscanf_pair_def)
qed

lemma run_gainCaps_prefix:
  assumes "\<And>h. a_int (os h Getpid) = pid"
    and "\<And>h. a_err (os h (Stat (''/proc/'' @ strconv_Itoa pid @ ''/ns/pid''))) = None \<and>
      a_int (os h (Stat (''/proc/'' @ strconv_Itoa pid @ ''/ns/pid''))) = pidns"
    and "\<And>h. a_str (os h (Getenv (reexec_env pidns pid))) = (if n = 0 then [] else strconv_Itoa n)"
    and "int64_ok n"
  shows "run gainCaps os [] =
    run (ignore (if 5 < n then sys_unit (Sleep (10 * n)) else Ret (Inr ()))
       (if 10 < n
        then Ret (Inl (Errorf ''no capabilities was gained after reexecuting the child (%s=%d)'' [reexec_env pidns pid, strconv_Itoa n]))
        else
          ignore (sys_unit (Setenv (reexec_env pidns pid) (strconv_Itoa (n + 1))))
           (pbind (get_strs_of Args) (\<lambda>args.
            tryp (sys_unit (Execve ''/proc/self/exe'' args)) (\<lambda>_.
            Ret (Inl (go_panic ''should not reach here''))))))) os
      [Getpid, Stat (''/proc/'' @ strconv_Itoa pid @ ''/ns/pid''), Getenv (reexec_env pidns pid)]"
  using assms Atoi_Itoa [OF assms(4)]
  by (simp add: gainCaps_def statPIDNS_def run_bind run_try run_sys_vals Let_def)

text \<open>The re-execution counter. With the counter at n, taken from the environment variable of this process
  (absent for 0), the process waits a little when n is over 5, and it re-executes itself with the
  counter increased when n is at most 10; with a larger counter it returns the error and does
  not re-execute. A process is therefore re-executed at most 11 times.\<close>

theorem gainCaps_counter:
  assumes "\<And>h. a_int (os h Getpid) = pid"
    and "\<And>h. a_err (os h (Stat (''/proc/'' @ strconv_Itoa pid @ ''/ns/pid''))) = None \<and>
      a_int (os h (Stat (''/proc/'' @ strconv_Itoa pid @ ''/ns/pid''))) = pidns"
    and "\<And>h. a_str (os h (Getenv (reexec_env pidns pid))) = (if n = 0 then [] else strconv_Itoa n)"
    and "int64_ok n"
  shows "snd (run gainCaps os []) =
      [Getpid, Stat (''/proc/'' @ strconv_Itoa pid @ ''/ns/pid''), Getenv (reexec_env pidns pid)] @
      (if 5 < n then [Sleep (10 * n)] else []) @
      (if 10 < n then []
       else [Setenv (reexec_env pidns pid) (strconv_Itoa (n + 1)), Args, Execve ''/proc/self/exe'' (a_strs (os
         ([Getpid, Stat (''/proc/'' @ strconv_Itoa pid @ ''/ns/pid''), Getenv (reexec_env pidns pid)] @
          (if 5 < n then [Sleep (10 * n)] else []) @ [Setenv (reexec_env pidns pid) (strconv_Itoa (n + 1))]) Args))]) \<and>
    (10 < n \<longrightarrow> fst (run gainCaps os []) =
       Inl (Errorf ''no capabilities was gained after reexecuting the child (%s=%d)'' [reexec_env pidns pid, strconv_Itoa n]))"
  unfolding run_gainCaps_prefix [OF assms]
  by (simp add: run_simps run_sys_vals split: option.splits)

definition caps_os :: "int \<Rightarrow> os" where
  "caps_os n h c = ok_ans\<lparr>a_int := 5, a_strs := [''rootlesskit'', ''bash''],
     a_str := (if n = 0 then [] else strconv_Itoa n)\<rparr>"

theorem gainCaps_counter_witness:
  "snd (run gainCaps (caps_os 7) []) =
     [Getpid, Stat ''/proc/5/ns/pid'', Getenv ''_ROOTLESSKIT_REEXEC_COUNT_5_5'', Sleep 70,
      Setenv ''_ROOTLESSKIT_REEXEC_COUNT_5_5'' ''8'', Args, Execve ''/proc/self/exe'' [''rootlesskit'', ''bash'']]"
proof -
  have t: "strconv_Itoa 5 = ''5''" "strconv_Itoa 8 = ''8''" by code_simp+
  have e: "reexec_env 5 5 = ''_ROOTLESSKIT_REEXEC_COUNT_5_5''" by (simp add: reexec_env_def t)
  show ?thesis
    using gainCaps_counter [of "caps_os 7" 5 5 7] by (simp add: caps_os_def e t int64_ok_def)
qed

text \<open>The status that a round of waiting keeps is the one of the own process.\<close>

lemma reap_in: "reap pid None ps = Some ws \<Longrightarrow> (pid, ws) \<in> set ps"
proof -
  have "reap pid res ps = Some ws \<Longrightarrow> (pid, ws) \<in> set ps \<or> res = Some ws" for res
    by (induction pid res ps rule: reap.induct) (auto split: if_splits)
  then show "reap pid None ps = Some ws \<Longrightarrow> (pid, ws) \<in> set ps" by fastforce
qed

definition rounds :: "nat \<Rightarrow> call list" where
  "rounds k = concat (replicate k [NotifySigchld, Wait4])"

lemma rounds_Suc: "rounds (Suc k) = [NotifySigchld, Wait4] @ rounds k"
  by (simp add: rounds_def)

lemma run_reaper_loop:
  assumes "k < n"
    and "\<And>i. i < k \<Longrightarrow> reap pid None (a_batch (os (h @ rounds i @ [NotifySigchld]) Wait4)) = None"
    and "reap pid None (a_batch (os (h @ rounds k @ [NotifySigchld]) Wait4)) = Some ws"
  shows "run (reaper_loop n pid) os h = (reap_result ws, h @ rounds (Suc k))"
  using assms
proof (induction k arbitrary: n h)
  case 0
  then obtain m where "n = Suc m" by (cases n) auto
  with 0 show ?case by (simp add: run_simps rounds_def)
next
  case (Suc k)
  then obtain m where m: "n = Suc m" by (cases n) auto
  have none: "reap pid None (a_batch (os (h @ [NotifySigchld]) Wait4)) = None"
    using Suc.prems(2) [of 0] by (simp add: rounds_def)
  have "run (reaper_loop m pid) os (h @ [NotifySigchld, Wait4]) = (reap_result ws, (h @ [NotifySigchld, Wait4]) @ rounds (Suc k))"
  proof (rule Suc.IH)
    show "k < m" using Suc.prems(1) m by simp
    show "reap pid None (a_batch (os ((h @ [NotifySigchld, Wait4]) @ rounds i @ [NotifySigchld]) Wait4)) = None" if "i < k" for i
      using Suc.prems(2) [of "Suc i"] that by (simp add: rounds_Suc)
    show "reap pid None (a_batch (os ((h @ [NotifySigchld, Wait4]) @ rounds k @ [NotifySigchld]) Wait4)) = Some ws"
      using Suc.prems(3) by (simp add: rounds_Suc)
  qed
  then show ?case using m none by (simp add: run_simps rounds_Suc)
qed


definition reap_os :: os where
  "reap_os h c = ok_ans\<lparr>a_int := 42, a_batch := (if length h < 4 then [(9, 0)] else [(8, 0), (42, 256 * 3)])\<rparr>"


end
