(* ===== verification/Handshake.thy ===== *)
theory Handshake
  imports Rk_Parent Rk_Child
begin

text \<open>
  The parent and the child together. Their programs run concurrently and exchange frames
  over the two pipes, at the level of bytes: a sent message is the frame that \<^verbatim>\<open>messages.Send\<close>
  writes, and a wait decodes the next frame with \<^verbatim>\<open>messages.WaitFor\<close>. Every other call is
  answered by the system in any way. First each program is checked against its role in the
  protocol with the program logic of \<open>Go_Os\<close>; then the composition is analysed with
  an invariant that relates the two positions to the contents of the pipes.
\<close>

section \<open>Messages that arrive\<close>

definition deliverable :: "string \<Rightarrow> Message \<Rightarrow> bool" where
  "deliverable n m \<longleftrightarrow> wf_Message m \<and> m_Name m = [] \<and> (\<exists>ns. U_fields (m_U m) = n # ns) \<and>
     fits (enc_Message (named m))"

definition frame_of :: "Message \<Rightarrow> string" where
  "frame_of m = frame (enc_Message (named m))"

definition arrives :: "Message \<Rightarrow> Message" where
  "arrives m = received (named m)"

lemma Send_deliverable: "deliverable n m \<Longrightarrow> Send Buffer_Write m [] = (Inr (), frame_of m)"
  unfolding deliverable_def frame_of_def
  by (rule Send_frame [where k = "length (frame (enc_Message (named m)))"]) (auto simp: Buffer_Write_def)

lemma WaitFor_deliverable:
  assumes "deliverable n m"
  shows "WaitFor (frame_of m # cs) n = (Inr (arrives m), cs)"
proof -
  from assms obtain ns where d: "wf_Message (named m)" "fits (enc_Message (named m))" "U_fields (m_U m) = n # ns"
    "m_Name m = []" by (auto simp: deliverable_def)
  then have nm: "m_Name (named m) = n" "m_Name (named m) \<noteq> []" using named_name [of m] by (auto simp: named_def)
  then show ?thesis
    unfolding frame_of_def WaitFor_def arrives_def Recv_frame [OF d(1) nm(2) d(2)]
    by (simp add: received_def)
qed

lemma deliverable_fixed:
  "deliverable ''ParentHello'' msgParentHello"
  "deliverable ''ParentInitIdmapCompleted'' msgParentInitIdmapCompleted"
  "deliverable ''ChildHello'' msgChildHello"
  "deliverable ''ChildInitUserNSCompleted'' msgChildInitUserNSCompleted"
  "deliverable ''ParentInitNetworkDriverCompleted'' (net_Message (Some zero_net))"
proof -
  have small: "deliverable n m"
    if "wf_Message m" "m_Name m = []" "U_fields (m_U m) = [n]" "length (print_json (enc_Message (named m))) \<le> 300" for n m
    using that wf_enc_Message [of "named m"] by (simp add: deliverable_def fits_def maxLength_def)
  show "deliverable ''ParentHello'' msgParentHello" by (rule small) code_simp+
  show "deliverable ''ParentInitIdmapCompleted'' msgParentInitIdmapCompleted" by (rule small) code_simp+
  show "deliverable ''ChildHello'' msgChildHello" by (rule small) code_simp+
  show "deliverable ''ChildInitUserNSCompleted'' msgChildInitUserNSCompleted" by (rule small) code_simp+
  show "deliverable ''ParentInitNetworkDriverCompleted'' (net_Message (Some zero_net))" by (rule small) code_simp+
qed

section \<open>The role of the parent\<close>

text \<open>
  Positions: 0 the child is not started, 1 hello, 2 wait for the hello of the child,
  3 \<^verbatim>\<open>newuidmap\<close>, 4 \<^verbatim>\<open>newgidmap\<close>, 5 the id maps are reported, 6 wait for the namespaces,
  7 network, 8 port driver, 9 done, 10 communication failed.
\<close>

definition parent_ok :: "nat \<Rightarrow> call \<Rightarrow> bool" where
  "parent_ok i c =
     (case c of
        SendMsg p m \<Rightarrow> p = ''pipe'' \<and>
          (i = 1 \<and> deliverable ''ParentHello'' m \<or> i = 5 \<and> deliverable ''ParentInitIdmapCompleted'' m \<or>
           i = 7 \<and> deliverable ''ParentInitNetworkDriverCompleted'' m \<or>
           i = 8 \<and> deliverable ''ParentInitPortDriverCompleted'' m)
      | WaitMsg p n \<Rightarrow> p = ''pipe2'' \<and> (i = 2 \<and> n = ''ChildHello'' \<or> i = 6 \<and> n = ''ChildInitUserNSCompleted'')
      | Wait pid \<Rightarrow> i = 9
      | StartCmd a e f x \<Rightarrow> i = 0 \<or> 7 \<le> i
      | _ \<Rightarrow> True)"

definition parent_upd :: "nat \<Rightarrow> call \<Rightarrow> ans \<Rightarrow> nat" where
  "parent_upd i c a =
     (case c of
        SendMsg p m \<Rightarrow> if a_err a = None then Suc i else 10
      | WaitMsg p n \<Rightarrow> if a_err a = None then Suc i else 10
      | StartCmd ar e f x \<Rightarrow> if i = 0 \<and> a_err a = None then 1 else i
      | Run cmd \<Rightarrow>
          if a_err a = None \<and> i = 3 \<and> take 1 cmd = [''newuidmap''] then 4
          else if a_err a = None \<and> i = 4 \<and> take 1 cmd = [''newgidmap''] then 5 else i
      | _ \<Rightarrow> i)"

definition parent_role :: "nat monitor" where
  "parent_role = \<lparr>mo_ok = parent_ok, mo_al = (\<lambda>_ _ _. True), mo_upd = parent_upd\<rparr>"

text \<open>Calls that a network driver may make.\<close>

definition psilent :: "call \<Rightarrow> bool" where
  "psilent c = (case c of SendMsg p m \<Rightarrow> False | WaitMsg p n \<Rightarrow> False | Wait p \<Rightarrow> False | _ \<Rightarrow> True)"

definition driver_ok :: "string \<Rightarrow> net_driver \<Rightarrow> bool" where
  "driver_ok sd drv \<longleftrightarrow> (\<forall>pid ns. only psilent (drv pid sd ns) \<and>
     returns (\<lambda>(m, cl, er). (er = None \<longrightarrow> deliverable ''ParentInitNetworkDriverCompleted'' (net_Message m)) \<and>
       (case cl of None \<Rightarrow> True | Some c \<Rightarrow> only psilent c)) (drv pid sd ns))"

definition parent_opt_ok :: "Opt \<Rightarrow> bool" where
  "parent_opt_ok opt \<longleftrightarrow>
     (case NetworkDriver opt of None \<Rightarrow> True | Some drv \<Rightarrow> driver_ok (StateDir opt) drv) \<and>
     deliverable ''ParentInitPortDriverCompleted'' (port_Message (case PortDriver opt of None \<Rightarrow> [] | Some opq \<Rightarrow> opq))"

abbreviation conforms :: "'a prog \<Rightarrow> nat \<Rightarrow> bool" where
  "conforms m i \<equiv> check parent_role (\<lambda>_ _. True) m i"

lemma parent_role_sel [simp]:
  "mo_ok parent_role = parent_ok" "mo_al parent_role s c a = True" "mo_upd parent_role = parent_upd"
  by (simp_all add: parent_role_def)

lemma psilent_role: "psilent c \<Longrightarrow> 7 \<le> i \<Longrightarrow> parent_ok i c \<and> parent_upd i c a = i"
  by (auto simp: psilent_def parent_ok_def parent_upd_def split: call.splits)

lemma conforms_silent: "only psilent m \<Longrightarrow> 7 \<le> i \<Longrightarrow> (\<And>x. Q i x) \<Longrightarrow> check parent_role Q m i"
  by (rule check_only [where P = psilent]) (auto simp: psilent_role)

lemma parent_upd_7: "7 \<le> i \<Longrightarrow> 7 \<le> parent_upd i c a"
  by (auto simp: parent_upd_def split: call.splits)

lemma conforms_7: "check parent_role Q m i \<Longrightarrow> 7 \<le> i \<Longrightarrow> check parent_role (\<lambda>i x. 7 \<le> i \<and> Q i x) m i"
  by (induction m arbitrary: i) (auto simp: parent_upd_7)

lemma conforms_cleanup:
  assumes "conforms m i" and "7 \<le> i" and "only psilent c"
  shows "conforms (defer_call c m) i"
  unfolding check_defer
  by (rule check_conseq [OF conforms_7 [OF assms(1,2)]]) (auto intro: conforms_silent [OF assms(3)])

lemma conforms_defer_opt:
  "conforms m i \<Longrightarrow> 7 \<le> i \<Longrightarrow> (case cl of None \<Rightarrow> True | Some c \<Rightarrow> only psilent c) \<Longrightarrow> conforms (defer_opt cl m) i"
  by (cases cl) (auto simp: defer_opt_def intro: conforms_cleanup)

lemma check_True: "check M Q m s \<Longrightarrow> check M (\<lambda>_ _. True) m s"
  by (rule check_conseq) auto

lemma publish_silent: "only psilent (publish ps)"
  by (induction ps) (auto simp: psilent_def intro!: only_combinators)

lemma write_all_silent: "only psilent (write_all p ss)"
  by (induction ss) (auto simp: psilent_def intro!: only_combinators)

lemma EvacuateCgroup2_silent: "only psilent (EvacuateCgroup2 evac)"
  unfolding EvacuateCgroup2_def findCgroup2Mountpoint_def getCgroup2_def Let_def
  by (auto simp: psilent_def intro!: only_combinators only_bind write_all_silent)


lemma serve_conforms: "conforms (serve_until_exit opt pid) 9"
  unfolding serve_until_exit_def listenServeAPI_def Let_def
  by (simp add: check_simps parent_ok_def parent_upd_def split: option.splits sum.splits)

lemma ports_ready_conforms: "conforms (ports_ready opt (serve_until_exit opt pid)) 9"
proof -
  have "check parent_role (\<lambda>s' r. case r of Inl e \<Rightarrow> True | Inr x \<Rightarrow> conforms (serve_until_exit opt pid) s') (publish (PublishPorts opt)) 9"
    by (rule conforms_silent) (auto simp: publish_silent serve_conforms split: sum.splits)
  then show ?thesis
    by (simp add: ports_ready_def serve_conforms check_try parent_ok_def parent_upd_def)
qed

lemma run_ports_conforms:
  assumes "parent_opt_ok opt"
  shows "conforms (run_ports opt pid net) 8"
proof -
  have p: "deliverable ''ParentInitPortDriverCompleted'' (port_Message (case PortDriver opt of None \<Rightarrow> [] | Some opq \<Rightarrow> opq))"
    using assms by (simp add: parent_opt_ok_def)
  have "conforms (tryp (send ''pipe'' (port_Message (case PortDriver opt of None \<Rightarrow> [] | Some opq \<Rightarrow> opq))) (\<lambda>_.
        tryp (sys_unit (ClosePipe ''pipeW'')) (\<lambda>_. ports_ready opt (serve_until_exit opt pid)))) 8"
    using p ports_ready_conforms
    by (simp add: check_simps send_def parent_ok_def parent_upd_def split: option.splits sum.splits)
  then show ?thesis
    unfolding run_ports_def check_ignore
    by (rule conforms_silent [rotated 2]) (auto simp: psilent_def split: option.splits)
qed

lemma run_network_conforms:
  assumes "parent_opt_ok opt"
  shows "conforms (run_network opt pid) 7"
proof (cases "NetworkDriver opt")
  case None
  then show ?thesis
    using run_ports_conforms [OF assms] deliverable_fixed(5)
    by (simp add: run_network_def check_simps send_def parent_ok_def parent_upd_def split: option.splits sum.splits)
next
  case (Some drv)
  let ?d = "drv pid (StateDir opt) (detached_netns opt pid)"
  have d: "only psilent ?d" and r: "returns (\<lambda>(m, cl, er). (er = None \<longrightarrow> deliverable ''ParentInitNetworkDriverCompleted'' (net_Message m)) \<and>
       (case cl of None \<Rightarrow> True | Some c \<Rightarrow> only psilent c)) ?d"
    using assms Some by (auto simp: parent_opt_ok_def driver_ok_def)
  have body: "conforms (case er of
               Some e \<Rightarrow> Ret (Inl (Wrapf ''failed to setup network %+v: %w'' [] e))
             | None \<Rightarrow> tryp (send ''pipe'' (net_Message m)) (\<lambda>_. run_ports opt pid m)) 7"
    if "er = None \<longrightarrow> deliverable ''ParentInitNetworkDriverCompleted'' (net_Message m)" for m er
    using that run_ports_conforms [OF assms]
    by (auto simp: check_simps send_def parent_ok_def parent_upd_def split: option.splits sum.splits)
  have "conforms (case x of (m, cl, er) \<Rightarrow> defer_opt cl (case er of
               Some e \<Rightarrow> Ret (Inl (Wrapf ''failed to setup network %+v: %w'' [] e))
             | None \<Rightarrow> tryp (send ''pipe'' (net_Message m)) (\<lambda>_. run_ports opt pid m))) 7"
    if "case x of (m, cl, er) \<Rightarrow> (er = None \<longrightarrow> deliverable ''ParentInitNetworkDriverCompleted'' (net_Message m)) \<and>
       (case cl of None \<Rightarrow> True | Some c \<Rightarrow> only psilent c)" for x
    using that by (cases x) (simp only: prod.case, blast intro: conforms_defer_opt body)
  then show ?thesis
    unfolding run_network_def using Some d r
    by (auto simp: check_bind intro!: check_only_returns [OF d r] dest: psilent_role)
qed

lemma handshake_conforms:
  assumes "parent_opt_ok opt"
  shows "conforms (handshake host opt pid) 1"
proof -
  let ?evac = "if Opt_EvacuateCgroup2 opt = [] then Ret (Inr ()) else EvacuateCgroup2 (Opt_EvacuateCgroup2 opt)"
  have "check parent_role (\<lambda>s' r. case r of Inl e \<Rightarrow> True | Inr x \<Rightarrow> conforms (run_network opt pid) s') ?evac 7"
    by (rule conforms_silent) (auto simp: EvacuateCgroup2_silent run_network_conforms [OF assms] split: sum.splits)
  then have "conforms (tryp ?evac (\<lambda>_. run_network opt pid)) 7" by (simp only: check_try)
  moreover define rest where "rest = defer_call (sys_unit (StopSignals pid)) (tryp ?evac (\<lambda>_. run_network opt pid))"
  ultimately have "conforms rest 7" by (simp only: rest_def) (rule conforms_cleanup, simp_all add: psilent_def)
  then show ?thesis
    unfolding handshake_def setupUIDGIDMap_def send_def wait_for_def Let_def rest_def [symmetric]
    by (simp add: check_simps deliverable_fixed parent_ok_def parent_upd_def split: option.splits sum.splits)
qed

lemma start_conforms: "check parent_role (\<lambda>i r. case r of Inl e \<Rightarrow> True | Inr pid \<Rightarrow> i = 1) (start_child opt) 0"
  unfolding start_child_def setupFilesAndEnv_def id_env_def Let_def
  by (simp add: check_simps parent_ok_def parent_upd_def split: option.splits sum.splits)

lemma locked_part_conforms:
  assumes "parent_opt_ok opt"
  shows "conforms (locked_part host opt) 0"
proof -
  have "conforms (tryp (start_child opt) (\<lambda>pid. handshake host opt pid)) 0"
    unfolding check_try
    by (rule check_conseq [OF start_conforms]) (auto simp: handshake_conforms [OF assms, unfolded One_nat_def] split: sum.splits)
  then show ?thesis
    by (simp add: locked_part_def check_try check_sys parent_ok_def parent_upd_def split: option.splits sum.splits)
qed

lemma conforms_defer_sys:
  assumes "conforms m i" and "\<And>i. parent_ok i c"
  shows "conforms (defer_call (sys_unit c) m) i"
  unfolding check_defer by (rule check_conseq [OF assms(1)]) (simp add: check_sys assms(2))

lemma Parent_conforms:
  assumes "parent_opt_ok opt"
  shows "conforms (Parent host opt) 0"
proof -
  have "conforms (defer_call (sys_unit (RemoveAll d)) (defer_call (sys_unit (Unlock lk)) (locked_part host opt))) 0" for d lk
    by (intro conforms_defer_sys locked_part_conforms [OF assms]) (simp_all add: parent_ok_def)
  then show ?thesis
    unfolding Parent_def checkPreflight_def createCleanupLock_def LockStateDir_def Let_def
    by (simp add: check_simps parent_ok_def parent_upd_def split: option.splits sum.splits)
qed

section \<open>The role of the child\<close>

text \<open>
  Positions: in the first process image 0 wait for the hello, 1 hello, 2 wait for the id maps,
  3 re-execution; in the second image 4 the namespaces are reported, 5 wait for the
  network, 6 wait for the port driver, 7 done; 8 communication failed. The capabilities are
  empty before the re-execution and not empty after it, and a successful \<^verbatim>\<open>execve\<close> does not
  return.
\<close>

definition child_ok :: "nat \<Rightarrow> call \<Rightarrow> bool" where
  "child_ok j c =
     (case c of
        SendMsg p m \<Rightarrow> p = ''pipe2'' \<and>
          (j = 1 \<and> deliverable ''ChildHello'' m \<or> j = 4 \<and> deliverable ''ChildInitUserNSCompleted'' m)
      | WaitMsg p n \<Rightarrow> p = ''pipe'' \<and>
          (j = 0 \<and> n = ''ParentHello'' \<or> j = 2 \<and> n = ''ParentInitIdmapCompleted'' \<or>
           j = 5 \<and> n = ''ParentInitNetworkDriverCompleted'' \<or> j = 6 \<and> n = ''ParentInitPortDriverCompleted'')
      | Capget \<Rightarrow> j = 0 \<or> j = 4
      | Execve p a \<Rightarrow> j = 3
      | _ \<Rightarrow> True)"

definition child_al :: "nat \<Rightarrow> call \<Rightarrow> ans \<Rightarrow> bool" where
  "child_al j c a =
     (case c of
        Capget \<Rightarrow> a_err a = None \<longrightarrow> (a_int a \<noteq> 0) = (j = 4)
      | Execve p ar \<Rightarrow> a_err a \<noteq> None
      | _ \<Rightarrow> True)"

definition child_upd :: "nat \<Rightarrow> call \<Rightarrow> ans \<Rightarrow> nat" where
  "child_upd j c a =
     (case c of
        SendMsg p m \<Rightarrow> if a_err a = None then Suc j else 8
      | WaitMsg p n \<Rightarrow> if a_err a = None then Suc j else 8
      | _ \<Rightarrow> j)"

definition child_role :: "nat monitor" where
  "child_role = \<lparr>mo_ok = child_ok, mo_al = child_al, mo_upd = child_upd\<rparr>"

definition csilent :: "call \<Rightarrow> bool" where
  "csilent c = (case c of SendMsg p m \<Rightarrow> False | WaitMsg p n \<Rightarrow> False | Capget \<Rightarrow> False | Execve p a \<Rightarrow> False | Wait p \<Rightarrow> False
     | _ \<Rightarrow> True)"

text \<open>The child itself also waits for the command.\<close>

definition crun :: "call \<Rightarrow> bool" where
  "crun c \<longleftrightarrow> csilent c \<or> (\<exists>p. c = Wait p)"

definition child_opt_ok :: "child_Opt \<Rightarrow> bool" where
  "child_opt_ok opt \<longleftrightarrow>
     (case co_NetworkDriver opt of None \<Rightarrow> True
      | Some drv \<Rightarrow> \<forall>m ns. only csilent (cn_ConfigureNetworkChild drv m ns)) \<and>
     (case co_CopyUpDriver opt of None \<Rightarrow> True | Some cu \<Rightarrow> \<forall>ds. only csilent (cu ds))"

definition ended :: "nat \<Rightarrow> unit res \<Rightarrow> bool" where
  "ended j r \<longleftrightarrow> j = 7 \<or> (\<exists>e. r = Inl e)"

lemma child_role_sel [simp]:
  "mo_ok child_role = child_ok" "mo_al child_role = child_al" "mo_upd child_role = child_upd"
  by (simp_all add: child_role_def)

lemma crun_role: "crun c \<Longrightarrow> child_ok j c \<and> child_upd j c a = j"
  by (auto simp: crun_def csilent_def child_ok_def child_upd_def split: call.splits)

lemma crun_simps [simp]: "csilent c \<Longrightarrow> crun c" "crun (Wait p)"
  by (simp_all add: crun_def)

lemma silent_crun: "only csilent m \<Longrightarrow> only crun m"
  by (erule only_mono) simp

lemma child_run: "only crun m \<Longrightarrow> (\<And>x. Q j x) \<Longrightarrow> check child_role Q m j"
  by (rule check_only [where P = crun]) (auto simp: crun_role)

lemma child_silent: "only csilent m \<Longrightarrow> (\<And>x. Q j x) \<Longrightarrow> check child_role Q m j"
  by (blast intro: child_run silent_crun)

lemma child_silent_try:
  "only csilent m \<Longrightarrow> (\<And>x. check child_role ended (k x) j) \<Longrightarrow> check child_role ended (tryp m k) j"
  unfolding check_try by (rule child_silent) (auto simp: ended_def split: sum.splits)

lemma csilent_simps [simp]:
  "csilent (Getenv k)" "csilent (Setenv k v)" "csilent (Unsetenv k)" "csilent Environ" "csilent Args" "csilent Executable"
  "csilent Getpid" "csilent Hostname" "csilent (Stat p)" "csilent (MkdirTemp p q)" "csilent (RemoveAll p)"
  "csilent (ReadDir p)" "csilent (ReadFile p)" "csilent (WriteFile p v)" "csilent (Symlink p q)" "csilent (Readlink p)"
  "csilent (ClosePipe p)" "csilent (Mount a b ty fl)" "csilent (EnterNetns p)" "csilent (LeaveNetns p)" "csilent (Run cmd)"
  "csilent (RunAs p cmd)" "csilent (StartCmd w x y z)" "csilent Wait4" "csilent (Prctl p)" "csilent (Sleep i)"
  "csilent NotifySigchld" "csilent (ForwardSignals i)" "csilent (StopSignals i)" "csilent (PortChildStart op p)"
  "csilent PortQuit" "csilent PortResult"
  by (simp_all add: csilent_def)

lemma link_files_silent: "only csilent (link_files d b ls fs)"
  by (induction fs) (auto simp: Let_def intro!: only_combinators)

lemma copy_dirs_silent: "only csilent (copy_dirs b copied ds)"
  by (induction ds arbitrary: copied)
    (auto simp: copy_dir_def list_dir_def intro!: only_combinators link_files_silent split: sum.splits)

lemma CopyUp_silent: "only csilent (CopyUp dirs)"
  unfolding CopyUp_def by (auto intro!: only_combinators copy_dirs_silent split: sum.splits)

lemma mountSysfs_silent: "only csilent (mountSysfs h e)"
  unfolding mountSysfs_def by (auto intro!: only_combinators split: sum.splits)

lemma mountProcfs_silent: "only csilent mountProcfs"
  unfolding mountProcfs_def by (auto intro!: only_combinators split: sum.splits)

lemma setMountPropagation_silent: "only csilent (setMountPropagation p)"
  unfolding setMountPropagation_def by (auto intro!: only_combinators split: option.splits)

lemma NewNetNs_silent: "only csilent (NewNetNsWithPathWithoutEnter p)"
  unfolding NewNetNsWithPathWithoutEnter_def by (auto intro!: only_combinators)

lemma blank_files_silent: "only csilent (blank_files fs)"
  by (induction fs) (auto intro!: only_combinators)

lemma activate_silent: "only csilent activateLoopback" "only csilent (activateDev d ip nm gw mtu)"
  unfolding activateLoopback_def activateDev_def by (auto intro!: only_combinators only_Execs)

lemma configure_dev_silent: "only csilent (configure_dev drv dev msg)"
  by (simp add: configure_dev_def activate_silent)

lemma with_netns_silent: "only csilent m \<Longrightarrow> only csilent (with_netns p m)"
  unfolding with_netns_def by (auto intro!: only_combinators)

lemma setupNet_silent:
  assumes "\<forall>m ns. only csilent (cn_ConfigureNetworkChild drv m ns)"
  shows "only csilent (setupNet sd msg etc (Some drv) ns)"
  unfolding setupNet_def setup_attached_def setup_detached_def generateEtcHosts_def Let_def
  using assms
  by (auto intro!: only_combinators blank_files_silent activate_silent configure_dev_silent with_netns_silent
      split: option.splits)

lemma createCmd_silent: "only csilent (createCmd opt)"
  unfolding createCmd_def by (auto intro!: only_combinators split: prod.splits)

lemma reaper_loop_silent: "only csilent (reaper_loop n pid)"
  by (induction n) (auto intro!: only_combinators split: option.splits)

lemma run_target_crun: "only crun (run_target n opt)"
  unfolding run_target_def runAndReap_def runWithoutReap_def
  by (auto intro!: only_combinators silent_crun [OF createCmd_silent] silent_crun [OF reaper_loop_silent])

text \<open>What the child does between the handshake and the command.\<close>

lemma setup_silent:
  assumes "child_opt_ok opt"
  shows "only csilent (setupNet sd nm etc (co_NetworkDriver opt) ns)"
    "only csilent (setupCopyDir (co_CopyUpDriver opt) (co_CopyUpDirs opt))"
proof -
  show "only csilent (setupNet sd nm etc (co_NetworkDriver opt) ns)"
    using assms setupNet_silent by (cases "co_NetworkDriver opt") (auto simp: child_opt_ok_def setupNet_def)
  show "only csilent (setupCopyDir (co_CopyUpDriver opt) (co_CopyUpDirs opt))"
    using assms by (auto simp: child_opt_ok_def setupCopyDir_def intro!: only_combinators split: option.splits)
qed

lemma setup_and_run_crun:
  assumes "child_opt_ok opt"
  shows "only crun (setup_and_run n opt sd ns fd nm pm)"
  unfolding setup_and_run_def
  by (auto intro!: only_combinators silent_crun [OF setMountPropagation_silent] silent_crun [OF mountSysfs_silent]
      silent_crun [OF setup_silent(1) [OF assms]] silent_crun [OF setup_silent(2) [OF assms]] run_target_crun split: prod.splits)

lemma second_execution_conforms:
  assumes "child_opt_ok opt"
  shows "check child_role ended (second_execution n opt sd fd) 4"
proof -
  have fin: "check child_role ended (setup_and_run n opt sd ns fd nm pm) 7" for ns nm pm
    by (rule child_run [OF setup_and_run_crun [OF assms]]) (simp add: ended_def)
  have comm: "check child_role ended (tryp (send ''pipe2'' msgChildInitUserNSCompleted) (\<lambda>_.
      tryp (wait_for ''pipe'' ''ParentInitNetworkDriverCompleted'') (\<lambda>m1.
      tryp (wait_for ''pipe'' ''ParentInitPortDriverCompleted'') (\<lambda>m2.
      setup_and_run n opt sd ns fd (u_ParentInitNetworkDriverCompleted (m_U m1)) (u_ParentInitPortDriverCompleted (m_U m2)))))) 4"
    for ns
    using fin deliverable_fixed(4)
    by (simp add: check_simps send_def wait_for_def child_ok_def child_al_def child_upd_def ended_def
        split: option.splits sum.splits)
  have netns: "only csilent (if co_DetachNetNS opt
            then tryw ''failed to create a detached netns on %q: %w'' [ns] (NewNetNsWithPathWithoutEnter ns) (\<lambda>_. Ret (Inr ()))
            else Ret (Inr ()))" for ns
    by (auto intro!: only_combinators NewNetNs_silent)
  have proc: "only csilent (if co_MountProcfs opt then mountProcfs else Ret (Inr ()))"
    by (simp add: mountProcfs_silent)
  show ?thesis
    unfolding second_execution_def Let_def
    by (intro child_silent_try proc netns comm)
qed

lemma gainCaps_conforms: "check child_role (\<lambda>j r. \<exists>e. r = Inl e) gainCaps 3"
  unfolding gainCaps_def statPIDNS_def Let_def
  by (simp add: check_simps child_ok_def child_al_def child_upd_def split: option.splits sum.splits)

lemma first_execution_conforms: "check child_role (\<lambda>j r. \<exists>e. r = Inl e) first_execution 0"
proof -
  have "check child_role (\<lambda>j r. \<exists>e. r = Inl e)
      (tryw ''failed to gain the caps inside the user namespace: %w'' [] gainCaps (\<lambda>_. Ret (Inr ()))) 3"
    unfolding check_tryw by (rule check_conseq [OF gainCaps_conforms]) auto
  then show ?thesis
    unfolding first_execution_def
    using deliverable_fixed(3)
    by (simp add: check_try check_sys send_def wait_for_def child_ok_def child_al_def child_upd_def numeral_3_eq_3
        split: option.splits sum.splits)
qed

lemma hasCaps_conforms:
  "j = 0 \<or> j = 4 \<Longrightarrow> check child_role (\<lambda>j' r. j' = j \<and> (case r of Inl e \<Rightarrow> True | Inr ok \<Rightarrow> ok = (j = 4))) hasCaps j"
  unfolding hasCaps_def
  by (auto simp: check_simps child_ok_def child_al_def child_upd_def split: option.splits sum.splits)

text \<open>Both process images follow the protocol.\<close>

lemma Child_conforms:
  assumes "child_opt_ok opt" and "j = 0 \<or> j = 4"
  shows "check child_role ended (Child n opt) j"
proof -
  have body: "check child_role ended (tryp (if ok then Ret (Inr ()) else first_execution) (\<lambda>_. second_execution n opt sd fd)) j"
    if "ok = (j = 4)" for ok sd fd
  proof (cases ok)
    case True
    then show ?thesis using that second_execution_conforms [OF assms(1)] by (simp add: check_try)
  next
    case False
    then have "j = 0" using that assms(2) by simp
    have "check child_role ended (tryp first_execution (\<lambda>_. second_execution n opt sd fd)) 0"
      unfolding check_try by (rule check_conseq [OF first_execution_conforms]) (auto simp: ended_def)
    with False \<open>j = 0\<close> show ?thesis by simp
  qed
  have caps: "check child_role ended (tryp hasCaps (\<lambda>ok. tryp (if ok then Ret (Inr ()) else first_execution) (\<lambda>_.
      second_execution n opt sd fd))) j" for sd fd
    unfolding check_try [of _ _ hasCaps]
    by (rule check_conseq [OF hasCaps_conforms [OF assms(2)]]) (auto simp: ended_def intro: body [OF refl] body [of False, simplified] body [of True, simplified] split: sum.splits)
  show ?thesis
    unfolding Child_def using caps
    by (auto simp: check_bind check_get child_ok_def child_al_def child_upd_def ended_def split: sum.splits prod.splits)
qed

end
