(* ===== verification/Exit_Status.thy ===== *)
theory Exit_Status
  imports Handshake
begin

text \<open>
  How the exit status of the command travels: the child waits for the command and reports its
  status, \<^verbatim>\<open>main\<close> turns the error into an exit code, the parent waits for the child and does the
  same. A monitor of the program logic records the answer of the only wait.
\<close>

section \<open>The exit code of the program\<close>

text \<open>The exit code for the result of the action, and the status that the kernel keeps of it.\<close>

definition exit_code :: "unit res \<Rightarrow> int" where
  "exit_code r =
     (case r of
        Inr _ \<Rightarrow> 0
      | Inl e \<Rightarrow> (case GetExecExitStatus e of (code, ok) \<Rightarrow> if ok then code else 1))"

definition wait_status :: "int \<Rightarrow> int" where
  "wait_status code = 256 * (code mod 256)"

section \<open>The only wait\<close>

text \<open>The answer to the wait for the child.\<close>

definition nowait :: "call \<Rightarrow> bool" where
  "nowait c = (case c of Wait p \<Rightarrow> False | _ \<Rightarrow> True)"

definition exit_mon :: "err option option monitor" where
  "exit_mon = \<lparr>mo_ok = (\<lambda>s c. nowait c \<or> s = None), mo_al = (\<lambda>_ _ _. True),
     mo_upd = (\<lambda>s c a. if nowait c then s else Some (a_err a))\<rparr>"

definition reported :: "string \<Rightarrow> string list \<Rightarrow> err option option \<Rightarrow> unit res \<Rightarrow> bool" where
  "reported fmt args s r \<longleftrightarrow> (\<forall>e. s = Some (Some e) \<longrightarrow> r = Inl (Wrapf fmt args e))"

abbreviation "checked fmt args \<equiv> check exit_mon (reported fmt args)"

lemma reported_None [simp]: "reported f as None r"
  by (simp add: reported_def)

lemma exit_mon_sel [simp]:
  "mo_ok exit_mon s c = (nowait c \<or> s = None)" "mo_al exit_mon s c a" "mo_upd exit_mon s c a = (if nowait c then s else Some (a_err a))"
  by (simp_all add: exit_mon_def)

lemma check_nowait: "only nowait m \<Longrightarrow> (\<And>x. Q s x) \<Longrightarrow> check exit_mon Q m s"
  by (rule check_only [where P = nowait]) auto

lemma checked_steps:
  "only nowait m \<Longrightarrow> (\<And>x. checked f as (k x) None) \<Longrightarrow> checked f as (tryp m k) None"
  "only nowait m \<Longrightarrow> (\<And>x. checked f as (k x) None) \<Longrightarrow> checked f as (tryw g bs m k) None"
  "only nowait m' \<Longrightarrow> (\<And>x. checked f as (k' x) None) \<Longrightarrow> checked f as (pbind m' k') None"
  "only nowait m' \<Longrightarrow> checked f as k0 None \<Longrightarrow> checked f as (ignore m' k0) None"
  "only nowait c \<Longrightarrow> checked f as k0 None \<Longrightarrow> checked f as (defer_call c k0) None"
proof -
  show "only nowait m \<Longrightarrow> (\<And>x. checked f as (k x) None) \<Longrightarrow> checked f as (tryp m k) None"
    unfolding check_try by (rule check_nowait) (auto split: sum.splits)
  show "only nowait m \<Longrightarrow> (\<And>x. checked f as (k x) None) \<Longrightarrow> checked f as (tryw g bs m k) None"
    unfolding check_tryw by (rule check_nowait) (auto split: sum.splits)
  show "only nowait m' \<Longrightarrow> (\<And>x. checked f as (k' x) None) \<Longrightarrow> checked f as (pbind m' k') None"
    unfolding check_bind by (rule check_nowait) auto
  show "only nowait m' \<Longrightarrow> checked f as k0 None \<Longrightarrow> checked f as (ignore m' k0) None"
    unfolding check_ignore by (rule check_nowait) auto
  show "only nowait c \<Longrightarrow> checked f as k0 None \<Longrightarrow> checked f as (defer_call c k0) None"
    unfolding check_defer by (erule check_conseq) (auto intro: check_nowait)
qed

lemma psilent_nowait: "only psilent m \<Longrightarrow> only nowait m"
  by (erule only_mono) (auto simp: psilent_def nowait_def split: call.splits)

lemma nowait_simps [simp]:
  "nowait (Getenv k)" "nowait (OpenPipe k)" "nowait (ClosePipe k)" "nowait (SendMsg k m)" "nowait (WaitMsg k n)" "nowait Args"
  "nowait Environ" "nowait Getpid" "nowait Geteuid" "nowait Getegid" "nowait (StartCmd w x y z)" "nowait (Run cmd)"
  "nowait (ForwardSignals p)" "nowait (StopSignals p)" "nowait (PortStart c)" "nowait PortInit" "nowait (PortAdd sp)"
  "nowait (WriteFile k v)" "nowait (RemoveAll k)" "nowait (Listen k)" "nowait (CloseListener k)" "nowait PortQuit" "nowait PortResult"
  "nowait (Stat k)" "nowait (OpenDir k)" "nowait (LockShared k)" "nowait (TryLock k)" "nowait (Unlock k)" "\<not> nowait (Wait p)"
  by (simp_all add: nowait_def)

lemma serve_reported: "checked ''child exited: %w'' [] (serve_until_exit opt pid) None"
  unfolding serve_until_exit_def listenServeAPI_def Let_def
  by (auto simp: check_simps reported_def split: option.splits sum.splits)

lemma run_ports_reported: "checked ''child exited: %w'' [] (run_ports opt pid net) None"
proof -
  have pub: "only nowait (publish ps)" for ps by (induction ps) (auto intro!: only_combinators)
  have "checked ''child exited: %w'' [] (ports_ready opt (serve_until_exit opt pid)) None"
    unfolding ports_ready_def by (auto simp: serve_reported intro!: checked_steps pub)
  then show ?thesis
    unfolding run_ports_def send_def by (intro checked_steps) (auto split: option.splits)
qed

lemma run_network_reported:
  assumes "parent_opt_ok opt"
  shows "checked ''child exited: %w'' [] (run_network opt pid) None"
proof (cases "NetworkDriver opt")
  case None
  then show ?thesis unfolding run_network_def send_def by (auto intro!: checked_steps run_ports_reported)
next
  case (Some drv)
  let ?d = "drv pid (StateDir opt) (detached_netns opt pid)"
  have ok: "driver_ok (StateDir opt) drv" using assms Some by (simp add: parent_opt_ok_def)
  then have d: "only nowait ?d" by (simp add: driver_ok_def psilent_nowait)
  have "returns (\<lambda>(m, cl, er). (er = None \<longrightarrow> deliverable ''ParentInitNetworkDriverCompleted'' (net_Message m)) \<and>
       (case cl of None \<Rightarrow> True | Some c \<Rightarrow> only psilent c)) ?d"
    using ok by (simp add: driver_ok_def)
  then have r: "returns (\<lambda>(m, cl, er). case cl of None \<Rightarrow> True | Some c \<Rightarrow> only nowait c) ?d"
    by (rule returns_mono) (auto intro: psilent_nowait split: option.splits)
  have "checked ''child exited: %w'' [] (case x of (m, cl, er) \<Rightarrow> defer_opt cl (case er of
               Some e \<Rightarrow> Ret (Inl (Wrapf ''failed to setup network %+v: %w'' [] e))
             | None \<Rightarrow> tryp (send ''pipe'' (net_Message m)) (\<lambda>_. run_ports opt pid m))) None"
    if "case x of (m, cl, er) \<Rightarrow> case cl of None \<Rightarrow> True | Some c \<Rightarrow> only nowait c" for x
    using that by (auto simp: defer_opt_def send_def intro!: checked_steps run_ports_reported split: prod.splits option.splits)
  then show ?thesis
    unfolding run_network_def using Some
    by (auto simp: check_bind intro!: check_only_returns [OF d r])
qed

lemma Parent_reported:
  assumes "parent_opt_ok opt"
  shows "checked ''child exited: %w'' [] (Parent host opt) None"
proof -
  have "checked ''child exited: %w'' [] (handshake host opt pid) None" for pid
    unfolding handshake_def setupUIDGIDMap_def send_def wait_for_def Let_def
    by (auto intro!: checked_steps only_combinators run_network_reported [OF assms] psilent_nowait [OF EvacuateCgroup2_silent]
        split: sum.splits)
  then have "checked ''child exited: %w'' [] (locked_part host opt) None"
    unfolding locked_part_def start_child_def setupFilesAndEnv_def id_env_def Let_def
    by (auto intro!: checked_steps only_combinators split: prod.splits)
  then show ?thesis
    unfolding Parent_def checkPreflight_def createCleanupLock_def LockStateDir_def Let_def
    by (auto intro!: checked_steps only_combinators split: sum.splits)
qed

section \<open>The child\<close>

lemma silent_nowait: "only csilent m \<Longrightarrow> only nowait m"
  by (erule only_mono) (auto simp: csilent_def nowait_def split: call.splits)

lemma nowait_child [simp]:
  "nowait (Prctl k)" "nowait (Setenv k v)" "nowait (Unsetenv k)" "nowait Executable" "nowait (Execve k cmd)" "nowait Capget" "nowait (Sleep n)"
  "nowait (PortChildStart opq k)"
  by (simp_all add: nowait_def)

abbreviation "command_exited opt \<equiv> checked ''command %v exited: %w'' [Join (co_TargetCmd opt) '' '']"

lemma run_target_reported: "command_exited opt (run_target n opt) None"
proof -
  have "command_exited opt (tryw ''command %v exited: %w'' [Join (co_TargetCmd opt) '' '']
       (tryp (sys_unit (Prctl ''PR_SET_PDEATHSIG'')) (\<lambda>_.
        if co_Reaper opt then runAndReap n cmd else runWithoutReap cmd)) (\<lambda>_.
     if co_PortDriver opt then ignore (sys_unit PortQuit) (sys_unit PortResult) else Ret (Inr ()))) None" for cmd
  proof (cases "co_Reaper opt")
    case True
    have "only nowait (runAndReap n cmd)"
      unfolding runAndReap_def by (auto intro!: only_combinators silent_nowait [OF reaper_loop_silent])
    with True show ?thesis by (auto intro!: check_nowait only_combinators)
  next
    case False
    then show ?thesis by (auto simp: runWithoutReap_def check_simps reported_def split: option.splits sum.splits)
  qed
  then show ?thesis
    unfolding run_target_def by (rule checked_steps(1) [OF silent_nowait [OF createCmd_silent]])
qed

lemma Child_reported:
  assumes "child_opt_ok opt"
  shows "command_exited opt (Child n opt) None"
proof -
  have "command_exited opt (setup_and_run n opt sd ns fd nm pm) None" for sd ns fd nm pm
    unfolding setup_and_run_def
    by (auto intro!: checked_steps run_target_reported silent_nowait [OF setMountPropagation_silent] silent_nowait [OF mountSysfs_silent]
        silent_nowait [OF setup_silent(1) [OF assms]] silent_nowait [OF setup_silent(2) [OF assms]] split: prod.splits)
  then have "command_exited opt (second_execution n opt sd fd) None" for sd fd
    unfolding second_execution_def send_def wait_for_def Let_def
    by (auto intro!: checked_steps only_combinators silent_nowait [OF mountProcfs_silent] silent_nowait [OF NewNetNs_silent])
  moreover have "only nowait first_execution" "only nowait hasCaps"
    unfolding first_execution_def send_def wait_for_def gainCaps_def statPIDNS_def hasCaps_def Let_def
    by (auto intro!: only_combinators)
  ultimately show ?thesis
    unfolding Child_def by (auto intro!: checked_steps split: sum.splits prod.splits)
qed

section \<open>The code of the command is the code of the program\<close>

lemma check_after: "check exit_mon Q m (Some r) \<Longrightarrow> Q (Some r) (fst (run m os h))"
  by (induction m arbitrary: h) auto

lemma check_after_calls:
  "check exit_mon Q m (Some r) \<Longrightarrow> run m os h = (x, h @ cs) \<Longrightarrow> list_all nowait cs"
proof (induction m arbitrary: h cs)
  case (Do c f)
  obtain ds where ds: "snd (run (f (os h c)) os (h @ [c])) = (h @ [c]) @ ds" using run_prefix by blast
  then have cs: "cs = c # ds" using Do.prems(2) by simp
  have "nowait c" "check exit_mon Q (f (os h c)) (Some r)" using Do.prems(1) by auto
  moreover have "run (f (os h c)) os (h @ [c]) = (x, (h @ [c]) @ ds)" using Do.prems(2) ds by auto
  ultimately show ?case using Do.IH [OF rangeI, of "os h c" "h @ [c]" ds] cs by simp
qed simp

lemma checked_run:
  "check exit_mon Q m None \<Longrightarrow> run m os h = (x, h @ h1 @ Wait p # h2) \<Longrightarrow> Q (Some (a_err (os (h @ h1) (Wait p)))) x"
proof (induction m arbitrary: h h1)
  case (Do c f)
  obtain cs where cs: "snd (run (f (os h c)) os (h @ [c])) = (h @ [c]) @ cs" using run_prefix by blast
  show ?case
  proof (cases h1)
    case Nil
    then have c: "c = Wait p" using Do.prems(2) cs by auto
    then have "check exit_mon Q (f (os h c)) (Some (a_err (os h c)))" using Do.prems(1) by simp
    from check_after [OF this, of os "h @ [c]"] show ?thesis using Do.prems(2) c Nil by simp
  next
    case (Cons d h1')
    then have d: "d = c" using Do.prems(2) cs by auto
    show ?thesis
    proof (cases "nowait c")
      case True
      then have "check exit_mon Q (f (os h c)) None" using Do.prems(1) by simp
      from Do.IH [OF rangeI this, of "h @ [c]" h1'] show ?thesis using Do.prems(2) Cons d by simp
    next
      case False
      then have "check exit_mon Q (f (os h c)) (Some (a_err (os h c)))" using Do.prems(1) by simp
      from check_after_calls [OF this, of os "h @ [c]" x "h1' @ Wait p # h2"] show ?thesis using Do.prems(2) Cons d by simp
    qed
  qed
qed simp

lemma exit_code_wait: "0 \<le> n \<Longrightarrow> n < 256 \<Longrightarrow> exit_code (Inl (Wrapf f as (WaitErr t (wait_status n)))) = n"
  using ExitStatus_exited [of n] by (simp add: exit_code_def GetExecExitStatus_def wait_status_def)

lemma exit_code_reported:
  assumes "checked f as m None" and "run m os [] = (r, h1 @ Wait p # h2)" and "0 \<le> n" and "n < 256"
    and "a_err (os h1 (Wait p)) = Some (WaitErr t (wait_status n))"
  shows "exit_code r = n"
proof -
  have "reported f as (Some (a_err (os h1 (Wait p)))) r" using checked_run [OF assms(1), of os "[]" r h1 p h2] assms(2) by simp
  then have "r = Inl (Wrapf f as (WaitErr t (wait_status n)))" using assms(5) by (simp add: reported_def)
  then show ?thesis using exit_code_wait assms(3,4) by simp
qed

end
