(* ===== verification/Iputils.thy ===== *)
theory Iputils
  imports Go_Net
begin

text \<open>
  \<^verbatim>\<open>pkg/network/iputils\<close>: the offset of an address in a network, computed on the
  big-endian 32-bit value of an IPv4 address. The network drivers use it for the child
  address, the gateway and the name server. The sum is a 64-bit one; only a sum above
  \<^verbatim>\<open>math.MaxUint32\<close> is refused, a negative sum is reduced modulo 2^32.
\<close>

definition be_uint32 :: "IP \<Rightarrow> int" where
  "be_uint32 ip = foldl (\<lambda>a b. a * 256 + uint b) 0 ip"

fun be_words :: "nat \<Rightarrow> int \<Rightarrow> IP" where
  "be_words 0 n = []"
| "be_words (Suc k) n = be_words k (n div 256) @ [word_of_int n]"

definition put_uint32 :: "int \<Rightarrow> IP" where
  "put_uint32 n = be_words 4 n"

definition AddIPInt :: "IP \<Rightarrow> int \<Rightarrow> IP res" where
  "AddIPInt ip0 i =
     (let ip = To4 ip0 in
      if ip = [] then Inl (Errorf ''expected IPv4 address, got %s'' [IP_String ip])
      else
        (let ui32 = be_uint32 ip; resInt64 = wrap64 (ui32 + i) in
         if 2 ^ 32 - 1 < resInt64
         then Inl (Errorf ''%s + %d overflows'' [IP_String ip, strconv_Itoa i])
         else Inr (put_uint32 (resInt64 mod 2 ^ 32))))"

lemma be_uint32_Nil [simp]: "be_uint32 [] = 0"
  by (simp add: be_uint32_def)

lemma be_uint32_snoc [simp]: "be_uint32 (xs @ [b]) = be_uint32 xs * 256 + uint b"
  by (simp add: be_uint32_def)

lemma be_uint32_bounds: "0 \<le> be_uint32 ip \<and> be_uint32 ip < 256 ^ length ip"
proof (induction ip rule: rev_induct)
  case (snoc b ip)
  then have "be_uint32 ip + 1 \<le> 256 ^ length ip" by simp
  then have "(be_uint32 ip + 1) * 256 \<le> 256 ^ length ip * 256" by simp
  with snoc uint_octet [of b] show ?case by simp
qed simp

lemma length_be_words [simp]: "length (be_words k n) = k"
  by (induction k arbitrary: n) auto

lemma be_uint32_be_words: "be_uint32 (be_words k n) = n mod 256 ^ k"
proof (induction k arbitrary: n)
  case (Suc k)
  have "n mod 256 ^ Suc k = n mod 256 + 256 * (n div 256 mod 256 ^ k)"
    by (simp add: zmod_zmult2_eq)
  then show ?case by (simp add: Suc.IH uint_word_of_int)
qed simp

lemma word8_256: "(256 :: 8 word) = 0"
  by simp

lemma be_words_be_uint32: "be_words (length ip) (be_uint32 ip) = ip"
  by (induction ip rule: rev_induct) (simp_all add: uint_octet word8_256)

lemma length_put_uint32 [simp]: "length (put_uint32 n) = 4"
  by (simp add: put_uint32_def)

lemma be_put_uint32 [simp]: "be_uint32 (put_uint32 n) = n mod 2 ^ 32"
  by (simp add: put_uint32_def be_uint32_be_words)

lemma put_be_uint32 [simp]: "length ip = 4 \<Longrightarrow> put_uint32 (be_uint32 ip) = ip"
  using be_words_be_uint32 [of ip] by (simp add: put_uint32_def)

text \<open>For an IPv4 address and an offset that stays inside the 32-bit address space, the
  sum is an IPv4 address whose value is exactly the value of the address plus the offset.\<close>

theorem AddIPInt_exact:
  assumes "To4 ip \<noteq> []" and "0 \<le> be_uint32 (To4 ip) + i" and "be_uint32 (To4 ip) + i < 2 ^ 32"
  shows "\<exists>r. AddIPInt ip i = Inr r \<and> length r = 4 \<and> be_uint32 r = be_uint32 (To4 ip) + i"
proof -
  have "int64_ok (be_uint32 (To4 ip) + i)" using assms(2,3) by (simp add: int64_ok_def)
  then show ?thesis using assms by (simp add: AddIPInt_def Let_def)
qed

theorem AddIPInt_exact_witness:
  "be_uint32 (To4 [10, 0, 2, 0]) + 100 < 2 ^ 32 \<and>
   (\<exists>r. AddIPInt [10, 0, 2, 0] 100 = Inr r \<and> length r = 4 \<and> be_uint32 r = be_uint32 (To4 [10, 0, 2, 0]) + 100)"
  using AddIPInt_exact [of "[10, 0, 2, 0]" 100] by (simp add: be_uint32_def)

text \<open>An offset whose sum leaves the address space upwards is refused, and so is an
  address that is not IPv4; nothing else is refused for offsets of at most 2^62.\<close>

theorem AddIPInt_error_iff:
  assumes "\<bar>i\<bar> \<le> 2 ^ 62"
  shows "(\<exists>e. AddIPInt ip i = Inl e) \<longleftrightarrow> To4 ip = [] \<or> 2 ^ 32 \<le> be_uint32 (To4 ip) + i"
proof -
  have "length (To4 ip) \<le> 4" using length_To4 [of ip] by auto
  then have "(256 :: int) ^ length (To4 ip) \<le> 256 ^ 4" by (rule power_increasing) simp
  with be_uint32_bounds [of "To4 ip"] assms have "int64_ok (be_uint32 (To4 ip) + i)"
    by (auto simp: int64_ok_def abs_le_iff)
  then show ?thesis by (auto simp: AddIPInt_def Let_def)
qed

theorem AddIPInt_error_iff_witness:
  "\<bar>156 :: int\<bar> \<le> 2 ^ 62 \<and> (\<exists>e. AddIPInt [255, 255, 255, 100] 156 = Inl e)"
  using AddIPInt_error_iff [of 156 "[255, 255, 255, 100]"] by (simp add: be_uint32_def To4_def)

text \<open>
  There is no check below zero: a negative sum wraps around the address space.
\<close>

lemma AddIPInt_underflow: "AddIPInt [0, 0, 0, 0] (- 1) = Inr [255, 255, 255, 255]"
  by code_simp

end
