(* ===== verification/Go_Cidr.thy ===== *)
theory Go_Cidr
  imports Iputils
begin

text \<open>
  \<^verbatim>\<open>net.ParseCIDR\<close>: the text of an address with the length of its prefix. A network is its
  masked address and the number of prefix bits; the address has 4 bytes when the text was an
  IPv4 address and 16 bytes otherwise.
\<close>

unbundle bit_operations_syntax

type_synonym ipnet = "IP \<times> int"

definition mask_byte :: "nat \<Rightarrow> 8 word" where
  "mask_byte k = push_bit (8 - k) (- 1)"

fun CIDRMask :: "nat \<Rightarrow> nat \<Rightarrow> IP" where
  "CIDRMask ones 0 = []"
| "CIDRMask ones (Suc k) = mask_byte (min 8 ones) # CIDRMask (ones - 8) k"

definition IP_Mask :: "IP \<Rightarrow> IP \<Rightarrow> IP" where
  "IP_Mask ip m =
     (let m' = (if length m = 16 \<and> length ip = 4 \<and> take 12 m = replicate 12 255 then drop 12 m else m);
          ip' = (if length m' = 4 \<and> length ip = 16 \<and> take 12 ip = v4InV6Prefix then drop 12 ip else ip)
      in if length ip' \<noteq> length m' then [] else map2 (\<lambda>a b. a AND b) ip' m')"

definition bad_cidr :: "string \<Rightarrow> err" where
  "bad_cidr s = Errorf ''invalid CIDR address: %s'' [s]"

text \<open>Whether the text is an IPv4 address, and its bit length.\<close>

definition is_v4_text :: "string \<Rightarrow> bool" where
  "is_v4_text s = (find (\<lambda>c. c = CHR ''.'' \<or> c = CHR '':'') s = Some CHR ''.'')"

definition ParseCIDR :: "string \<Rightarrow> (IP \<times> ipnet) res" where
  "ParseCIDR s =
     (let addr = takeWhile (\<lambda>c. c \<noteq> CHR ''/'') s; rest = dropWhile (\<lambda>c. c \<noteq> CHR ''/'') s in
      if rest = [] then Inl (bad_cidr s)
      else
        (let ip = ParseIP addr; m = tl rest; bytes = (if is_v4_text addr then 4 else 16) in
         if ip = nil_IP then Inl (bad_cidr s)
         else if m = [] \<or> \<not> list_all is_digit m then Inl (bad_cidr s)
         else
           (let n = fold (\<lambda>c acc. acc * 10 + digit_val c) m 0 in
            if int (8 * bytes) < n then Inl (bad_cidr s)
            else Inr (ip, IP_Mask ip (CIDRMask (nat n) bytes), n))))"

section \<open>The masked address\<close>

lemma uint_mask_byte: "k \<le> 8 \<Longrightarrow> uint (w AND mask_byte k) = uint w div 2 ^ (8 - k) * 2 ^ (8 - k)"
proof -
  have w: "uint w mod 256 = uint w" by (rule mod_pos_pos_trivial) (use uint_lt2p [of w] in simp_all)
  have "w AND mask_byte k = push_bit (8 - k) (drop_bit (8 - k) w)"
    by (rule bit_word_eqI) (auto simp: mask_byte_def bit_simps)
  also have "uint \<dots> = uint w div 2 ^ (8 - k) * 2 ^ (8 - k) mod 256"
    unfolding unsigned_push_bit_eq unsigned_drop_bit_eq by (simp add: push_bit_eq_mult drop_bit_eq_div take_bit_eq_mod w)
  also have "\<dots> = uint w div 2 ^ (8 - k) * 2 ^ (8 - k)"
  proof (rule mod_pos_pos_trivial)
    have "uint w div 2 ^ (8 - k) * 2 ^ (8 - k) \<le> uint w" by (simp add: minus_mod_eq_div_mult [symmetric])
    also have "uint w < 256" using uint_lt2p [of w] by simp
    finally show "uint w div 2 ^ (8 - k) * 2 ^ (8 - k) < 256" .
  qed (simp add: pos_imp_zdiv_nonneg_iff)
  finally show ?thesis .
qed

lemma be_uint32_Cons: "be_uint32 (b # bs) = uint b * 256 ^ length bs + be_uint32 bs"
proof (induction bs rule: rev_induct)
  case (snoc c bs)
  have "be_uint32 (b # bs @ [c]) = be_uint32 ((b # bs) @ [c])" by simp
  also have "\<dots> = be_uint32 (b # bs) * 256 + uint c" by (simp only: be_uint32_snoc)
  finally show ?case using snoc by (simp add: algebra_simps)
qed (simp add: be_uint32_def)

lemma masked_dvd:
  "length ip = k \<Longrightarrow> ones \<le> 8 * k \<Longrightarrow> (2 :: int) ^ (8 * k - ones) dvd be_uint32 (map2 (\<lambda>a b. a AND b) ip (CIDRMask ones k))"
proof (induction k arbitrary: ip ones)
  case (Suc k)
  then obtain b bs where ip: "ip = b # bs" and l: "length bs = k" by (cases ip) auto
  define t where "t = map2 (\<lambda>a b. a AND b) bs (CIDRMask (ones - 8) k)"
  have lm: "length (CIDRMask o' k) = k" for o' by (induction k arbitrary: o') auto
  have lt: "length t = k" by (simp add: t_def l lm)
  have e: "be_uint32 (map2 (\<lambda>a b. a AND b) ip (CIDRMask ones (Suc k))) =
      uint (b AND mask_byte (min 8 ones)) * 2 ^ (8 * k) + be_uint32 t"
    by (simp add: ip be_uint32_Cons t_def [symmetric] lt power_mult)
  have IH: "(2 :: int) ^ (8 * k - (ones - 8)) dvd be_uint32 t"
    unfolding t_def using Suc.prems(2) l by (intro Suc.IH) auto
  show ?case
  proof (cases "8 \<le> ones")
    case True
    then have x: "8 * Suc k - ones = 8 * k - (ones - 8)" by simp
    have "(2 :: int) ^ (8 * k - (ones - 8)) dvd 2 ^ (8 * k)" by (rule le_imp_power_dvd) simp
    then show ?thesis unfolding e x using IH by simp
  next
    case False
    then have "(2 :: int) ^ (8 * k) dvd be_uint32 t" using IH by simp
    moreover have "0 \<le> be_uint32 t" "be_uint32 t < 2 ^ (8 * k)" using be_uint32_bounds [of t] by (simp_all add: lt power_mult)
    ultimately have z: "be_uint32 t = 0" by (metis zdvd_not_zless order_le_less)
    have "8 * Suc k - ones = (8 - ones) + 8 * k" using False by simp
    then have pw: "(2 :: int) ^ (8 * Suc k - ones) = 2 ^ (8 - ones) * 2 ^ (8 * k)" by (simp only: power_add)
    show ?thesis unfolding e z pw using False by (simp add: uint_mask_byte mult.assoc)
  qed
qed simp

lemma length_CIDRMask [simp]: "length (CIDRMask ones k) = k"
  by (induction k arbitrary: ones) auto

lemma length_parse_ipv6: "parse_ipv6 s = Some ip \<Longrightarrow> 16 \<le> length ip"
  by (auto simp: parse_ipv6_def Let_def split: if_splits option.splits)

lemma ParseIP_v4_text:
  assumes "is_v4_text s" and "ParseIP s \<noteq> nil_IP"
  shows "\<exists>ip. length ip = 4 \<and> ParseIP s = v4InV6Prefix @ ip"
proof -
  have "ParseIP s = (case parse_ipv4 s of None \<Rightarrow> [] | Some ip \<Rightarrow> To16 ip)"
    using assms by (simp add: ParseIP_def is_v4_text_def split: if_splits)
  with assms(2) obtain ip where ip: "parse_ipv4 s = Some ip" "ParseIP s = To16 ip" by (cases "parse_ipv4 s") auto
  show ?thesis using length_parse_ipv4 [OF ip(1)] ip(2) by (simp add: To16_def)
qed

lemma ParseIP_v6_text:
  assumes "\<not> is_v4_text s" and "ParseIP s \<noteq> nil_IP"
  shows "16 \<le> length (ParseIP s)"
proof (cases "find (\<lambda>c. c = CHR ''.'' \<or> c = CHR '':'') s")
  case None
  with assms(2) show ?thesis by (simp add: ParseIP_def split: if_splits)
next
  case (Some c)
  with assms have "ParseIP s = (case parse_ipv6 s of None \<Rightarrow> [] | Some ip \<Rightarrow> ip)"
    by (simp add: ParseIP_def is_v4_text_def split: if_splits)
  with assms(2) show ?thesis using length_parse_ipv6 [of s] by (cases "parse_ipv6 s") auto
qed

lemma digits_nonneg: "list_all is_digit m \<Longrightarrow> 0 \<le> a \<Longrightarrow> 0 \<le> fold (\<lambda>c acc. acc * 10 + digit_val c) m a"
proof (induction m arbitrary: a)
  case (Cons c m)
  then have "0 \<le> a * 10 + digit_val c" using digit_val_bounds [of c] by simp
  then show ?case using Cons.IH [of "a * 10 + digit_val c"] Cons.prems by simp
qed simp

text \<open>The network of a parsed IPv4 text: its address is the address with the host bits cleared.\<close>

lemma ParseCIDR_v4:
  assumes "ParseCIDR s = Inr (ip, net, n)" and "length net = 4"
  shows "0 \<le> n \<and> n \<le> 32 \<and> be_uint32 net mod 2 ^ (32 - nat n) = 0"
proof -
  define a where "a = takeWhile (\<lambda>c. c \<noteq> CHR ''/'') s"
  define m where "m = tl (dropWhile (\<lambda>c. c \<noteq> CHR ''/'') s)"
  define b :: nat where "b = (if is_v4_text a then 4 else 16)"
  have p: "ip = ParseIP a" "ip \<noteq> nil_IP" "list_all is_digit m" "n = fold (\<lambda>c acc. acc * 10 + digit_val c) m 0" "n \<le> int (8 * b)"
    "net = IP_Mask ip (CIDRMask (nat n) b)"
    using assms(1) by (auto simp: ParseCIDR_def Let_def a_def m_def b_def split: if_splits)
  have n0: "0 \<le> n" using p(3,4) digits_nonneg by simp
  have v4: "is_v4_text a"
  proof (rule ccontr)
    assume "\<not> is_v4_text a"
    then have "b = 16" "16 \<le> length ip" using ParseIP_v6_text p(1,2) by (simp_all add: b_def)
    then show False using assms(2) p(6) by (simp add: IP_Mask_def Let_def split: if_splits)
  qed
  then obtain q where q: "length q = 4" "ip = v4InV6Prefix @ q" using ParseIP_v4_text p(1,2) by blast
  have "length v4InV6Prefix = 12" by (simp add: v4InV6Prefix_def)
  then have "net = map2 (\<lambda>a b. a AND b) q (CIDRMask (nat n) 4)"
    using p(6) v4 q by (simp add: IP_Mask_def b_def Let_def)
  then show ?thesis
    using masked_dvd [of q 4 "nat n"] q(1) n0 p(5) v4 by (simp add: b_def dvd_eq_mod_eq_0)
qed

end
