(* ===== verification/Network.thy ===== *)
theory Network
  imports Handshake Go_Cidr "HOL-Library.Multiset"
begin

text \<open>
  The network drivers of \<^verbatim>\<open>pkg/network\<close>: none, slirp4netns, pasta, lxc-user-nic and vpnkit. The
  parent half of a driver configures the network of the child and returns the message with
  its configuration, the child half picks the device up. What the parent process relies on
  is the locale \<open>network_driver\<close>: the driver leaves the handshake alone and its message
  can be delivered. Third-party packages (DHCP, the vmnet protocol of vpnkit) are calls.
\<close>

section \<open>The contract\<close>

locale network_driver =
  fixes configure :: "'c \<Rightarrow> net_driver"
    and cfg_ok :: "'c \<Rightarrow> bool"
  assumes silent: "only psilent (configure c pid sd ns)"
    and cleanup_silent: "returns (\<lambda>(m, cl, er). case cl of None \<Rightarrow> True | Some p \<Rightarrow> only psilent p) (configure c pid sd ns)"
    and message: "cfg_ok c \<Longrightarrow> length sd \<le> 4096 \<Longrightarrow>
      returns (\<lambda>(m, cl, er). er = None \<longrightarrow> deliverable ''ParentInitNetworkDriverCompleted'' (net_Message m)) (configure c pid sd ns)"
begin

lemma returns_conj: "returns P m \<Longrightarrow> returns R m \<Longrightarrow> returns (\<lambda>x. P x \<and> R x) m"
  by (induction m) auto

lemma accepted: "cfg_ok c \<Longrightarrow> length sd \<le> 4096 \<Longrightarrow> driver_ok sd (configure c)"
  unfolding driver_ok_def
proof (intro allI conjI)
  fix pid ns
  assume "cfg_ok c" and "length sd \<le> 4096"
  show "only psilent (configure c pid sd ns)" by (rule silent)
  show "returns (\<lambda>(m, cl, er). (er = None \<longrightarrow> deliverable ''ParentInitNetworkDriverCompleted'' (net_Message m)) \<and>
       (case cl of None \<Rightarrow> True | Some c \<Rightarrow> only psilent c)) (configure c pid sd ns)"
    by (rule returns_mono [OF returns_conj [OF message [OF \<open>cfg_ok c\<close> \<open>length sd \<le> 4096\<close>] cleanup_silent]]) auto
qed

text \<open>The parent with this driver keeps to its role in the handshake.\<close>

lemma parent_conforms:
  assumes "cfg_ok c" and "NetworkDriver opt = Some (configure c)" and "length (StateDir opt) \<le> 4096"
    and "deliverable ''ParentInitPortDriverCompleted'' (port_Message (case PortDriver opt of None \<Rightarrow> [] | Some opq \<Rightarrow> opq))"
  shows "conforms (Parent host opt) 0"
  using assms accepted by (intro Parent_conforms) (simp add: parent_opt_ok_def)

end

section \<open>The size of a message\<close>

lemma length_esc_le: "length (esc c) \<le> 6"
  by (simp add: esc_def Let_def)

lemma length_print_str: "length (print_str s) \<le> 6 * length s + 2"
proof -
  have "length (concat (map esc s)) \<le> 6 * length s"
  proof (induction s)
    case (Cons c s)
    then show ?case using length_esc_le [of c] by simp
  qed simp
  then show ?thesis by (simp add: print_str_def)
qed

lemma length_digits_of: "0 \<le> n \<Longrightarrow> n < 10 ^ Suc k \<Longrightarrow> length (digits_of n) \<le> Suc k"
proof (induction k arbitrary: n)
  case 0
  then show ?case by (simp add: digits_of.simps [of n])
next
  case (Suc k)
  then show ?case using Suc.IH [of "n div 10"] by (auto simp: digits_of.simps [of n])
qed

lemma length_Itoa: "int64_ok i \<Longrightarrow> length (strconv_Itoa i) \<le> 20"
  using length_digits_of [of i 18] length_digits_of [of "- i" 18]
  by (auto simp: strconv_Itoa_def int64_ok_def)

text \<open>A bound on the JSON form of a map of strings.\<close>

definition opaque_size :: "(string \<times> string) list \<Rightarrow> nat" where
  "opaque_size m = sum_list (map (\<lambda>(k, v). 6 * length k + 6 * length v + 6) m)"

lemma length_Join_comma: "length (Join (map g xs) '','') \<le> sum_list (map (\<lambda>x. Suc (length (g x))) xs)"
proof (induction xs)
  case (Cons x xs)
  then show ?case by (cases xs) auto
qed simp

lemma length_print_map: "length (print_json (enc_map m)) \<le> opaque_size m + 4"
proof (cases "m = []")
  case False
  let ?g = "\<lambda>(k, v). print_str k @ '':'' @ print_json (JStr v)"
  have "length (print_json (enc_map m)) = 2 + length (Join (map ?g (sort_key fst m)) '','')"
    using False by (simp add: enc_map_def comp_def case_prod_unfold)
  also have "\<dots> \<le> 2 + sum_list (map (\<lambda>x. Suc (length (?g x))) (sort_key fst m))"
    using length_Join_comma [of ?g] by simp
  also have "sum_list (map (\<lambda>x. Suc (length (?g x))) (sort_key fst m)) = sum_list (map (\<lambda>x. Suc (length (?g x))) m)"
    by (simp only: sum_mset_sum_list [symmetric] mset_map mset_sort)
  also have "\<dots> \<le> opaque_size m" unfolding opaque_size_def
  proof (rule sum_list_mono)
    fix x
    assume "x \<in> set m"
    show "Suc (length (?g x)) \<le> (case x of (k, v) \<Rightarrow> 6 * length k + 6 * length v + 6)"
      using length_print_str [of "fst x"] length_print_str [of "snd x"] by (simp add: case_prod_beta)
  qed
  finally show ?thesis by simp
qed (simp add: enc_map_def)

definition small_net :: "ParentInitNetworkDriverCompleted \<Rightarrow> bool" where
  "small_net p \<longleftrightarrow> wf_json (nm_Network p) \<and> length (print_json (nm_Network p)) \<le> 10000 \<and>
     wf_map (nm_NetworkDriverOpaque p) \<and> opaque_size (nm_NetworkDriverOpaque p) \<le> 40000 \<and>
     int64_ok (nm_Netmask p) \<and> int64_ok (nm_MTU p) \<and>
     length (nm_Dev p) \<le> 1000 \<and> length (nm_IP p) \<le> 100 \<and> length (nm_Gateway p) \<le> 100 \<and>
     length (nm_DNS p) \<le> 2 \<and> list_all (\<lambda>d. length d \<le> 100) (nm_DNS p)"

lemma length_print_dns:
  assumes "length ds \<le> 2" and "list_all (\<lambda>d. length d \<le> 100) ds"
  shows "length (print_json (enc_list JStr ds)) \<le> 1300"
proof -
  consider "ds = []" | a where "ds = [a]" | a b where "ds = [a, b]"
    using assms(1) by (cases ds; cases "tl ds") auto
  then show ?thesis
  proof cases
    case 3
    then show ?thesis using assms(2) length_print_str [of a] length_print_str [of b] by (simp add: enc_list_def)
  next
    case 2
    then show ?thesis using assms(2) length_print_str [of a] by (simp add: enc_list_def)
  qed (simp add: enc_list_def)
qed

lemma small_net_deliverable:
  assumes "small_net p"
  shows "deliverable ''ParentInitNetworkDriverCompleted'' (net_Message (Some p))"
proof -
  let ?m = "net_Message (Some p)"
  have U: "U_fields (m_U ?m) = [''ParentInitNetworkDriverCompleted'']" and nm: "m_Name ?m = []"
    by (simp_all add: net_Message_def empty_Message_def nil_U_def U_fields_def)
  have wf: "wf_Message ?m"
    using assms by (simp add: small_net_def wf_Message_def wf_net_def net_Message_def empty_Message_def nil_U_def)
  have keys: "length (print_str ''Name'') = 6" "length (print_str ''Network'') = 9" "length (print_str ''Dev'') = 5"
    "length (print_str ''IP'') = 4" "length (print_str ''Netmask'') = 9" "length (print_str ''Gateway'') = 9"
    "length (print_str ''DNS'') = 5" "length (print_str ''MTU'') = 5" "length (print_str ''NetworkDriverOpaque'') = 21"
    "length (print_str ''ParentInitNetworkDriverCompleted'') = 34"
    by code_simp+
  have "enc_Message (named ?m) = JObj ((''Name'', JStr ''ParentInitNetworkDriverCompleted'') # net_members p)"
    using U nm by (simp add: enc_Message_def named_def net_Message_def empty_Message_def nil_U_def)
  moreover have "length (print_json (JObj ((''Name'', JStr ''ParentInitNetworkDriverCompleted'') # net_members p))) \<le> 65536"
    using assms length_print_str [of "nm_Dev p"] length_print_str [of "nm_IP p"] length_print_str [of "nm_Gateway p"]
      length_print_map [of "nm_NetworkDriverOpaque p"] length_print_dns [of "nm_DNS p"] length_Itoa [of "nm_Netmask p"] length_Itoa [of "nm_MTU p"]
    by (simp add: small_net_def net_members_def enc_int_def keys)
  ultimately show ?thesis
    using U nm wf wf_enc_Message [of "named ?m"] by (simp add: deliverable_def fits_def maxLength_def)
qed

text \<open>The text of an IPv4 address is short.\<close>

lemma length_octet_text: "length (octet_text w) \<le> 3"
  using length_digits_of [of "uint w" 2] uint_octet [of w] by (simp add: octet_text_def)

lemma length_ipv4_text: "length ip = 4 \<Longrightarrow> length (ipv4_text ip) \<le> 15"
proof -
  assume "length ip = 4"
  then obtain a b c d where "ip = [a, b, c, d]" by (auto simp: length_Suc_conv numeral_eq_Suc)
  then show ?thesis
    using length_octet_text [of a] length_octet_text [of b] length_octet_text [of c] length_octet_text [of d]
    by (simp add: ipv4_text_def)
qed

lemma AddIPInt_text: "AddIPInt ip i = Inr x \<Longrightarrow> length (IP_String x) \<le> 15"
proof -
  assume "AddIPInt ip i = Inr x"
  then have "length x = 4" by (auto simp: AddIPInt_def put_uint32_def Let_def split: if_splits)
  then have "To4 x = x" "x \<noteq> []" by (auto simp: To4_def)
  then show ?thesis using length_ipv4_text [of x] \<open>length x = 4\<close> by (simp add: IP_String_def)
qed

section \<open>Pieces shared by the drivers\<close>

text \<open>A result with the cleanup functions collected so far; \<^verbatim>\<open>common.Seq\<close> runs them in order.\<close>

definition cleanup_of :: "unit res prog list \<Rightarrow> unit prog option" where
  "cleanup_of cleanups = Some (pbind (Seq cleanups) (\<lambda>_. Ret ()))"

definition net_fail :: "unit res prog list \<Rightarrow> err \<Rightarrow> net_result prog" where
  "net_fail cleanups e = Ret (None, cleanup_of cleanups, Some e)"

definition net_done :: "unit res prog list \<Rightarrow> ParentInitNetworkDriverCompleted \<Rightarrow> net_result prog" where
  "net_done cleanups m = Ret (Some m, cleanup_of cleanups, None)"

definition net_try :: "unit res prog list \<Rightarrow> 'a res prog \<Rightarrow> ('a \<Rightarrow> net_result prog) \<Rightarrow> net_result prog" where
  "net_try cleanups m k = pbind m (\<lambda>r. case r of Inl e \<Rightarrow> net_fail cleanups e | Inr x \<Rightarrow> k x)"

definition kill_and_wait :: "int option \<Rightarrow> unit res prog" where
  "kill_and_wait pid =
     (case pid of
        None \<Rightarrow> Ret (Inr ())
      | Some p \<Rightarrow> ignore (sys_unit (Kill p)) (ignore (sys_unit (WaitProc p)) (Ret (Inr ()))))"

text \<open>A network whose address is an IPv4 address in 16 bytes prints with the prefix of the 4 bytes.\<close>

definition ipnet_String :: "ipnet \<Rightarrow> string" where
  "ipnet_String n =
     IP_String (fst n) @ ''/'' @ strconv_Itoa (if length (fst n) = 16 \<and> To4 (fst n) \<noteq> nil_IP then snd n - 96 else snd n)"

text \<open>The addresses that slirp4netns and pasta give out: child, gateway and name server.\<close>

definition net_addresses :: "IP \<Rightarrow> (string \<times> string \<times> string) res" where
  "net_addresses ip =
     (case AddIPInt ip 100 of
        Inl e \<Rightarrow> Inl e
      | Inr child \<Rightarrow>
          (case AddIPInt ip 2 of
             Inl e \<Rightarrow> Inl e
           | Inr gateway \<Rightarrow>
               (case AddIPInt ip 3 of
                  Inl e \<Rightarrow> Inl e
                | Inr dns \<Rightarrow> Inr (IP_String child, IP_String gateway, IP_String dns))))"

section \<open>none\<close>

text \<open>In a detached namespace a sleeping process holds the namespace; the commands then enter its namespaces.\<close>

definition none_cmd :: "int \<Rightarrow> string list \<Rightarrow> string list" where
  "none_cmd pid cmd =
     [''nsenter'', ''-t'', strconv_Itoa pid, ''-n'', ''-m'', ''-U'', ''--no-fork'', ''--preserve-credentials''] @ cmd"

definition none_ConfigureNetwork :: "unit \<Rightarrow> net_driver" where
  "none_ConfigureNetwork u childPID stateDir detachedNetNSPath =
     pbind (if detachedNetNSPath = [] then Ret (Inr childPID)
            else sys_int (StartCmd [''nsenter'', ''-t'', strconv_Itoa childPID, ''-n'' @ detachedNetNSPath, ''-m'', ''-U'', ''--no-fork'',
                    ''--preserve-credentials'', ''sleep'', ''infinity''] [] [] [''Pdeathsig:SIGKILL''])) (\<lambda>r.
     case r of
       Inl e \<Rightarrow> Ret (None, None, Some e)
     | Inr pid \<Rightarrow>
         pbind (Execs [none_cmd pid [''ip'', ''address'', ''add'', ''127.0.0.1/8'', ''dev'', ''lo''],
                       none_cmd pid [''ip'', ''link'', ''set'', ''lo'', ''up'']]) (\<lambda>x.
         case x of
           Inl e \<Rightarrow> Ret (None, None, Some e)
         | Inr _ \<Rightarrow> net_done [] zero_net))"

section \<open>slirp4netns\<close>

record slirp_Features =
  SupportsEnableIPv6 :: bool
  SupportsCIDR :: bool
  SupportsDisableHostLoopback :: bool
  SupportsAPISocket :: bool
  SupportsEnableSandbox :: bool
  SupportsEnableSeccomp :: bool
  KernelSupportsEnableSeccomp :: bool

definition slirp_DetectFeatures :: "string \<Rightarrow> slirp_Features res prog" where
  "slirp_DetectFeatures binary =
     (if binary = [] then Ret (Inl (New ''got empty slirp4netns binary''))
      else
        tryw ''slirp4netns binary %q is not installed: %w'' [binary] (sys_str (LookPath binary)) (\<lambda>realBinary.
        tryw ''command %s --help failed, make sure slirp4netns v0.4.0+ is installed: %w'' [realBinary]
          (sys_str (RunAs realBinary [''--help''])) (\<lambda>s.
        if \<not> Contains s ''--netns-type'' then Ret (Inl (New ''slirp4netns seems older than v0.4.0''))
        else
          pbind (sys_unit (Prctl ''PR_GET_SECCOMP'')) (\<lambda>g.
          pbind (if g = Inl (Sys ''EINVAL'') then Ret False
                 else pbind (sys_unit (Prctl ''PR_SET_SECCOMP'')) (\<lambda>r. Ret (r \<noteq> Inl (Sys ''EINVAL'')))) (\<lambda>kernel.
          Ret (Inr \<lparr>SupportsEnableIPv6 = Contains s ''--enable-ipv6'', SupportsCIDR = Contains s ''--cidr'',
            SupportsDisableHostLoopback = Contains s ''--disable-host-loopback'', SupportsAPISocket = Contains s ''--api-socket'',
            SupportsEnableSandbox = Contains s ''--enable-sandbox'', SupportsEnableSeccomp = Contains s ''--enable-seccomp'',
            KernelSupportsEnableSeccomp = kernel\<rparr>))))))"

record slirp_driver =
  sl_binary :: string
  sl_mtu :: int
  sl_ipnet :: "ipnet option"
  sl_disableHostLoopback :: bool
  sl_apiSocketPath :: string
  sl_enableSandbox :: bool
  sl_enableSeccomp :: bool
  sl_enableIPv6 :: bool
  sl_ifname :: string

definition slirp_NewParentDriver :: "slirp_driver \<Rightarrow> slirp_driver res prog" where
  "slirp_NewParentDriver d =
     (if sl_binary d = [] then Ret (Inl (New ''got empty slirp4netns binary''))
      else if sl_mtu d < 0 then Ret (Inl (New ''got negative mtu''))
      else
        tryp (slirp_DetectFeatures (sl_binary d)) (\<lambda>f.
        if sl_enableIPv6 d \<and> \<not> SupportsEnableIPv6 f then Ret (Inl (New ''this version of slirp4netns does not support --enable-ipv6''))
        else if sl_ipnet d \<noteq> None \<and> \<not> SupportsCIDR f then Ret (Inl (New ''this version of slirp4netns does not support --cidr''))
        else if sl_disableHostLoopback d \<and> \<not> SupportsDisableHostLoopback f
          then Ret (Inl (New ''this version of slirp4netns does not support --disable-host-loopback''))
        else if sl_apiSocketPath d \<noteq> [] \<and> \<not> SupportsAPISocket f then Ret (Inl (New ''this version of slirp4netns does not support --api-socket''))
        else if sl_enableSandbox d \<and> \<not> SupportsEnableSandbox f then Ret (Inl (New ''this version of slirp4netns does not support --enable-sandbox''))
        else if sl_enableSeccomp d \<and> \<not> SupportsEnableSeccomp f then Ret (Inl (New ''this version of slirp4netns does not support --enable-seccomp''))
        else if sl_enableSeccomp d \<and> \<not> KernelSupportsEnableSeccomp f then Ret (Inl (New ''kernel does not support seccomp''))
        else Ret (Inr (d\<lparr>sl_mtu := (if sl_mtu d = 0 then 65520 else sl_mtu d),
                         sl_ifname := (if sl_ifname d = [] then ''tap0'' else sl_ifname d)\<rparr>))))"

text \<open>
  The wait for the ready descriptor: a read with a deadline of one second, answered by 1 for
  a timeout, and the status of the process after a timeout. The loop has fuel.
\<close>

fun waitForReadyFD :: "nat \<Rightarrow> int \<Rightarrow> unit res prog" where
  "waitForReadyFD 0 pid = Ret (Inl (Sys ''out of fuel''))"
| "waitForReadyFD (Suc n) pid =
     tryw ''error setting slirp4netns pipe timeout: %w'' [] (sys_unit (Driver ''ready.SetDeadline'' [])) (\<lambda>_.
     Do (Driver ''ready.Read'' []) (\<lambda>a.
       case a_err a of
         None \<Rightarrow> Ret (Inr ())
       | Some e \<Rightarrow>
           if a_int a \<noteq> 1 then Ret (Inl (Wrapf ''failed to read from slirp4netns sync pipe: %w'' [] e))
           else
             Do (Driver ''wait4'' [strconv_Itoa pid]) (\<lambda>w.
               case a_err w of
                 Some e' \<Rightarrow> Ret (Inl (Wrapf ''failed to read slirp4netns process status: %w'' [] e'))
               | None \<Rightarrow>
                   (case a_batch w of
                      [] \<Rightarrow> waitForReadyFD n pid
                    | (p, status) # _ \<Rightarrow>
                        if p \<noteq> pid then waitForReadyFD n pid
                        else if Exited status then Ret (Inl (New ''slirp4netns failed''))
                        else if Signaled status then Ret (Inl (New ''slirp4netns killed by signal''))
                        else waitForReadyFD n pid))))"

definition slirp_opts :: "slirp_driver \<Rightarrow> int \<Rightarrow> string \<Rightarrow> string list" where
  "slirp_opts d childPID detachedNetNSPath =
     [''--mtu'', strconv_Itoa (sl_mtu d), ''-r'', ''3''] @
     (if sl_disableHostLoopback d then [''--disable-host-loopback''] else []) @
     (case sl_ipnet d of None \<Rightarrow> [] | Some n \<Rightarrow> [''--cidr'', ipnet_String n]) @
     (if sl_apiSocketPath d \<noteq> [] then [''--api-socket'', sl_apiSocketPath d] else []) @
     (if sl_enableSandbox d then [''--enable-sandbox''] else []) @
     (if sl_enableSeccomp d then [''--enable-seccomp''] else []) @
     (if sl_enableIPv6 d then [''--enable-ipv6''] else []) @
     (if detachedNetNSPath = [] then [strconv_Itoa childPID]
      else [''--userns-path=/proc/'' @ strconv_Itoa childPID @ ''/ns/user'', ''--netns-type=path'', detachedNetNSPath]) @
     [sl_ifname d]"

definition slirp_netmsg :: "slirp_driver \<Rightarrow> ParentInitNetworkDriverCompleted res" where
  "slirp_netmsg d =
     (case (case sl_ipnet d of
              None \<Rightarrow> Inr (''10.0.2.100'', 24, ''10.0.2.2'', ''10.0.2.3'')
            | Some n \<Rightarrow>
                (case net_addresses (fst n) of
                   Inl e \<Rightarrow> Inl e
                 | Inr (ip, gw, dns) \<Rightarrow> Inr (ip, snd n, gw, dns))) of
        Inl e \<Rightarrow> Inl e
      | Inr (ip, ones, gw, dns) \<Rightarrow>
          Inr (zero_net\<lparr>nm_Dev := sl_ifname d, nm_IP := ip, nm_Netmask := ones, nm_Gateway := gw,
            nm_DNS := [dns] @ (if sl_enableIPv6 d then [''fd00::3''] else []), nm_MTU := sl_mtu d\<rparr>))"

definition slirp_ConfigureNetwork :: "nat \<times> slirp_driver \<Rightarrow> net_driver" where
  "slirp_ConfigureNetwork c childPID stateDir detachedNetNSPath =
     (let n = fst c; d = snd c; tap = sl_ifname d in
      if detachedNetNSPath \<noteq> [] \<and> sl_enableSandbox d
      then Ret (None, None, Some (New ''slirp4netns sandbox is not compatible with detach-netns (https://github.com/rootless-containers/slirp4netns/issues/317)''))
      else
        net_try [] (tryw ''setting up tap %s: %w'' [tap] (PrepareTap childPID detachedNetNSPath tap) (\<lambda>_. Ret (Inr ()))) (\<lambda>_.
        net_try [] (sys_unit (OpenPipe ''ready'')) (\<lambda>_.
        defer_call (sys_unit (ClosePipe ''readyR'')) (defer_call (sys_unit (ClosePipe ''readyW''))
         (pbind (sys_int (StartCmd (sl_binary d # slirp_opts d childPID detachedNetNSPath) [] [''readyW''] [''Pdeathsig:SIGKILL''])) (\<lambda>st.
          case st of
            Inl e \<Rightarrow> net_fail [kill_and_wait None] (Wrapf ''executing %v: %w'' [sl_binary d] e)
          | Inr pid \<Rightarrow>
              net_try [kill_and_wait (Some pid)]
                (tryw ''waiting for ready fd (%v): %w'' [sl_binary d] (waitForReadyFD n pid) (\<lambda>_. Ret (Inr ()))) (\<lambda>_.
              net_try [kill_and_wait (Some pid)] (Ret (slirp_netmsg d)) (\<lambda>m.
              net_done [kill_and_wait (Some pid)] m))))))))"

definition tap_ConfigureNetworkChild ::
  "ParentInitNetworkDriverCompleted \<Rightarrow> string \<Rightarrow> (string \<times> ParentInitNetworkDriverCompleted) res prog" where
  "tap_ConfigureNetworkChild netmsg detachedNetNSPath =
     (if nm_Dev netmsg = [] then Ret (Inl (New ''could not determine the preconfigured tap''))
      else Ret (Inr (nm_Dev netmsg, netmsg)))"

definition slirp_child :: child_net_driver where
  "slirp_child = \<lparr>cn_ConfigureNetworkChild = tap_ConfigureNetworkChild, cn_ConfiguresInterface = False\<rparr>"

section \<open>pasta\<close>

definition pasta_DetectFeatures :: "string \<Rightarrow> bool res prog" where
  "pasta_DetectFeatures binary =
     (if binary = [] then Ret (Inl (New ''got empty pasta binary''))
      else
        tryw ''pasta binary %q is not installed: %w'' [binary] (sys_str (LookPath binary)) (\<lambda>realBinary.
        tryw ''command %s --version failed, make sure pasta is installed: %w'' [realBinary]
          (sys_str (RunAs realBinary [''--version''])) (\<lambda>_.
        pbind (sys_unit (RunAs realBinary [''--host-lo-to-ns-lo'', ''--version''])) (\<lambda>r. Ret (Inr (r = Inr ()))))))"

record pasta_driver =
  pa_binary :: string
  pa_mtu :: int
  pa_ipnet :: ipnet
  pa_disableHostLoopback :: bool
  pa_enableIPv6 :: bool
  pa_ifname :: string
  pa_implicitPortForwarding :: bool
  pa_HasHostLoToNsLo :: bool

definition default_ipnet :: ipnet where
  "default_ipnet = ([10, 0, 2, 0], 24)"

definition pasta_NewParentDriver :: "string \<Rightarrow> int \<Rightarrow> ipnet option \<Rightarrow> string \<Rightarrow> bool \<Rightarrow> bool \<Rightarrow> bool \<Rightarrow> pasta_driver res prog" where
  "pasta_NewParentDriver binary mtu ipnet ifname disableHostLoopback enableIPv6 implicitPortForwarding =
     (if binary = [] then Ret (Inl (New ''got empty slirp4netns binary''))
      else if mtu < 0 then Ret (Inl (New ''got negative mtu''))
      else
        tryp (pasta_DetectFeatures binary) (\<lambda>feat.
        Ret (Inr \<lparr>pa_binary = binary, pa_mtu = (if mtu = 0 then 65520 else mtu),
          pa_ipnet = (case ipnet of None \<Rightarrow> default_ipnet | Some n \<Rightarrow> n), pa_disableHostLoopback = disableHostLoopback,
          pa_enableIPv6 = enableIPv6, pa_ifname = (if ifname = [] then ''tap0'' else ifname),
          pa_implicitPortForwarding = implicitPortForwarding, pa_HasHostLoToNsLo = feat\<rparr>)))"

definition pasta_opts :: "pasta_driver \<Rightarrow> string \<Rightarrow> string \<Rightarrow> string \<Rightarrow> int \<Rightarrow> string \<Rightarrow> string list" where
  "pasta_opts d address gateway dns childPID detachedNetNSPath =
     [''--stderr'', ''--ns-ifname='' @ pa_ifname d, ''--mtu='' @ strconv_Itoa (pa_mtu d), ''--config-net'', ''--address='' @ address,
      ''--netmask='' @ strconv_Itoa (snd (pa_ipnet d)), ''--gateway='' @ gateway, ''--dns-forward='' @ dns] @
     (if pa_disableHostLoopback d then [''--no-map-gw''] else []) @
     (if \<not> pa_enableIPv6 d then [''--ipv4-only''] else []) @
     (if pa_implicitPortForwarding d then [''--tcp-ports=auto'', ''--udp-ports=auto''] else [''--tcp-ports=none'', ''--udp-ports=none'']) @
     (if pa_HasHostLoToNsLo d then [''--host-lo-to-ns-lo''] else []) @
     (if detachedNetNSPath = [] then [strconv_Itoa childPID]
      else [''--userns=/proc/'' @ strconv_Itoa childPID @ ''/ns/user'', ''--netns='' @ detachedNetNSPath])"

text \<open>An exit error of pasta is reported with its output and without wrapping it.\<close>

definition pasta_error :: "string \<Rightarrow> string \<Rightarrow> err \<Rightarrow> err" where
  "pasta_error binary out e =
     (case e of
        WaitErr t ws \<Rightarrow> Errorf (''pasta failed with exit code %d:'' @ [CHR 0x0A] @ ''%s'') [strconv_Itoa (ExitStatus ws), out]
      | _ \<Rightarrow> Wrapf ''executing %v: %w'' [binary] e)"

definition pasta_ConfigureNetwork :: "pasta_driver \<Rightarrow> net_driver" where
  "pasta_ConfigureNetwork d childPID stateDir detachedNetNSPath =
     net_try [] (Ret (net_addresses (fst (pa_ipnet d)))) (\<lambda>(address, gateway, dns).
     Do (RunAs (pa_binary d) (pasta_opts d address gateway dns childPID detachedNetNSPath)) (\<lambda>a.
       case a_err a of
         Some e \<Rightarrow> net_fail [] (pasta_error (pa_binary d) (a_str a) e)
       | None \<Rightarrow>
           net_done [] (zero_net\<lparr>nm_Dev := pa_ifname d, nm_MTU := pa_mtu d, nm_IP := address, nm_Netmask := snd (pa_ipnet d),
             nm_Gateway := gateway, nm_DNS := [dns]\<rparr>)))"

definition pasta_child :: child_net_driver where
  "pasta_child = \<lparr>cn_ConfigureNetworkChild = (\<lambda>m _. Ret (Inr (nm_Dev m, m))), cn_ConfiguresInterface = True\<rparr>"

section \<open>lxc-user-nic\<close>

record lxc_driver =
  lx_binary :: string
  lx_mtu :: int
  lx_bridge :: string
  lx_ifname :: string

definition lxc_NewParentDriver :: "string \<Rightarrow> int \<Rightarrow> string \<Rightarrow> string \<Rightarrow> lxc_driver res" where
  "lxc_NewParentDriver binary mtu bridge ifname =
     (if binary = [] then Inl (New ''got empty binary'')
      else if mtu < 0 then Inl (New ''got negative mtu'')
      else if bridge = [] then Inl (New ''got empty bridge'')
      else Inr \<lparr>lx_binary = binary, lx_mtu = (if mtu = 0 then 1500 else mtu), lx_bridge = bridge,
                lx_ifname = (if ifname = [] then ''eth0'' else ifname)\<rparr>)"

definition lxc_ConfigureNetwork :: "lxc_driver \<Rightarrow> net_driver" where
  "lxc_ConfigureNetwork d childPID stateDir detachedNetNSPath =
     pbind (if detachedNetNSPath = [] then Ret (Inr childPID)
            else sys_int (StartCmd [''nsenter'', ''-t'', strconv_Itoa childPID, ''-n'' @ detachedNetNSPath, ''--no-fork'', ''-m'', ''-U'',
                    ''--preserve-credentials'', ''sleep'', ''infinity''] [] [] [''Pdeathsig:SIGKILL''])) (\<lambda>r.
     case r of
       Inl e \<Rightarrow> Ret (None, None, Some e)
     | Inr pid \<Rightarrow>
         net_try [] (tryw ''%s failed: %w'' [lx_binary d]
           (sys_unit (RunAs (lx_binary d) [''create'', ''/dev/null'', ''dummy'', strconv_Itoa pid, ''veth'', lx_bridge d, lx_ifname d]))
           (\<lambda>_. Ret (Inr ()))) (\<lambda>_.
         net_done [] (zero_net\<lparr>nm_Dev := lx_ifname d, nm_MTU := lx_mtu d\<rparr>)))"

text \<open>
  The child configures the interface by DHCP. The packets that the DHCP package returns are
  decoded by a parameter; an exchange that was interrupted is tried again, with fuel.
\<close>

record dhcp_packet =
  dp_Ack :: bool
  dp_YourIPAddr :: IP
  dp_Router :: "IP list"
  dp_DNS :: "IP list"
  dp_SubnetMask :: int

fun dhcp_exchange :: "(ans \<Rightarrow> dhcp_packet list) \<Rightarrow> nat \<Rightarrow> string \<Rightarrow> dhcp_packet list res prog" where
  "dhcp_exchange decode 0 dev = Ret (Inl (Sys ''out of fuel''))"
| "dhcp_exchange decode (Suc n) dev =
     Do (Driver ''client4.Exchange'' [dev]) (\<lambda>a.
       case a_err a of
         None \<Rightarrow> Ret (Inr (decode a))
       | Some e \<Rightarrow>
           if Contains (err_text e) ''interrupted system call'' then dhcp_exchange decode n dev
           else Ret (Inl (Wrapf ''could not exchange DHCP with %s: %w'' [dev] e)))"

definition self_netns :: "string \<Rightarrow> string" where
  "self_netns detachedNetNSPath = (if detachedNetNSPath = [] then ''/proc/self/ns/net'' else detachedNetNSPath)"

definition exchangeDHCP :: "(ans \<Rightarrow> dhcp_packet list) \<Rightarrow> nat \<Rightarrow> string \<Rightarrow> string \<Rightarrow> dhcp_packet res prog" where
  "exchangeDHCP decode n dev detachedNetNSPath =
     tryp (with_netns (self_netns detachedNetNSPath) (dhcp_exchange decode n dev)) (\<lambda>ps.
     if ps = [] then Ret (Inl (New ''got empty DHCP message''))
     else (case rev (filter dp_Ack ps) of
             [] \<Rightarrow> Ret (Inl (New ''did not get DHCPACK''))
           | ack # _ \<Rightarrow> Ret (Inr ack)))"

definition lxc_ConfigureNetworkChild ::
  "(ans \<Rightarrow> dhcp_packet list) \<Rightarrow> nat \<Rightarrow> ParentInitNetworkDriverCompleted \<Rightarrow> string \<Rightarrow> (string \<times> ParentInitNetworkDriverCompleted) res prog" where
  "lxc_ConfigureNetworkChild decode n netmsg detachedNetNSPath =
     (let dev = nm_Dev netmsg in
      if dev = [] then Ret (Inl (New ''could not determine the dev''))
      else
        tryw ''executing %v: %w'' [dev]
          (Execs [[''nsenter'', ''-n'' @ self_netns detachedNetNSPath, ''ip'', ''link'', ''set'', dev, ''up'']]) (\<lambda>_.
        tryp (exchangeDHCP decode n dev detachedNetNSPath) (\<lambda>p.
        if IP_Equal (dp_YourIPAddr p) IPv4zero then Ret (Inl (New ''got zero YourIPAddr''))
        else if dp_Router p = [] then Ret (Inl (New ''got no Router''))
        else if dp_DNS p = [] then Ret (Inl (New ''got no DNS''))
        else
          ignore (sys_unit (Driver ''dhcpRenewRoutine'' [dev]))
           (Ret (Inr (dev, netmsg\<lparr>nm_IP := IP_String (To4 (dp_YourIPAddr p)), nm_Netmask := dp_SubnetMask p,
             nm_Gateway := IP_String (To4 (hd (dp_Router p))), nm_DNS := [IP_String (To4 (hd (dp_DNS p)))]\<rparr>))))))"

section \<open>vpnkit\<close>

definition opaqueMAC :: string where "opaqueMAC = ''vpnkit.mac''"
definition opaqueSocket :: string where "opaqueSocket = ''vpnkit.socket''"
definition opaqueUUID :: string where "opaqueUUID = ''vpnkit.uuid''"

record vpnkit_driver =
  vk_binary :: string
  vk_mtu :: int
  vk_ifname :: string
  vk_disableHostLoopback :: bool

definition vpnkit_NewParentDriver :: "string \<Rightarrow> int \<Rightarrow> string \<Rightarrow> bool \<Rightarrow> vpnkit_driver res" where
  "vpnkit_NewParentDriver binary mtu ifname disableHostLoopback =
     (if binary = [] then Inl (go_panic ''got empty vpnkit binary'')
      else if mtu < 0 then Inl (go_panic ''got negative mtu'')
      else Inr \<lparr>vk_binary = binary, vk_mtu = (if mtu = 0 then 1500 else mtu),
                vk_ifname = (if ifname = [] then ''tap0'' else ifname), vk_disableHostLoopback = disableHostLoopback\<rparr>)"

text \<open>
  The connection to vpnkit is tried until the context of ten seconds is done; the loop has
  fuel. The answers of the vmnet package are the address and the MAC of the new interface.
\<close>

fun waitForVPNKit :: "nat \<Rightarrow> nat \<Rightarrow> string \<Rightarrow> unit res prog" where
  "waitForVPNKit 0 retried socket = Ret (Inl (Sys ''out of fuel''))"
| "waitForVPNKit (Suc n) retried socket =
     pbind (sys_unit (Driver ''vmnet.New'' [socket])) (\<lambda>r.
     case r of
       Inr _ \<Rightarrow> Ret (Inr ())
     | Inl e \<Rightarrow>
         pbind (sys_unit (Sleep (int (retried mod 100) * 10))) (\<lambda>t.
         case t of
           Inl done \<Rightarrow> Ret (Inl (Wrapf ''last error: %v: %w'' [err_text e] done))
         | Inr _ \<Rightarrow> waitForVPNKit n (Suc retried) socket))"

definition vpnkit_netmsg :: "vpnkit_driver \<Rightarrow> string \<Rightarrow> string \<Rightarrow> string \<Rightarrow> string \<Rightarrow> ParentInitNetworkDriverCompleted" where
  "vpnkit_netmsg d ip mac socket uuid =
     zero_net\<lparr>nm_Dev := vk_ifname d, nm_IP := ip, nm_Netmask := 24, nm_Gateway := ''192.168.65.1'', nm_DNS := [''192.168.65.1''],
       nm_MTU := vk_mtu d, nm_NetworkDriverOpaque := [(opaqueMAC, mac), (opaqueSocket, socket), (opaqueUUID, uuid)]\<rparr>"

definition vpnkit_ConfigureNetwork :: "nat \<Rightarrow> vpnkit_driver \<Rightarrow> net_driver" where
  "vpnkit_ConfigureNetwork n d childPID stateDir detachedNetNSPath =
     (let socket = filepath_Join [stateDir, ''vpnkit-ethernet.sock''] in
      pbind (sys_int (StartCmd ([vk_binary d, ''--ethernet'', socket, ''--mtu'', strconv_Itoa (vk_mtu d)] @
               (if vk_disableHostLoopback d then [''--host-ip'', ''0.0.0.0''] else [])) [] [] [''Pdeathsig:SIGKILL''])) (\<lambda>st.
      case st of
        Inl e \<Rightarrow> net_fail [kill_and_wait None] (Wrapf ''executing %v: %w'' [vk_binary d] e)
      | Inr pid \<Rightarrow>
          (let c1 = [kill_and_wait (Some pid), Ret (Inr ())]; c2 = c1 @ [sys_unit (Driver ''vmnet.Close'' [])] in
           net_try c1 (tryw ''connecting to %s: %w'' [socket] (waitForVPNKit n 0 socket) (\<lambda>_. Ret (Inr ()))) (\<lambda>_.
           pbind (get_str_of (Driver ''uuid.New'' [])) (\<lambda>uuid.
           net_try c2 (tryw ''connecting to %s with uuid %s: %w'' [socket, uuid] (sys_unit (Driver ''vmnet.ConnectVif'' [uuid])) (\<lambda>v. Ret (Inr v))) (\<lambda>_.
           pbind (get_str_of (Driver ''vif.IP'' [])) (\<lambda>ip.
           pbind (get_str_of (Driver ''vif.ClientMAC'' [])) (\<lambda>mac.
           net_done c2 (vpnkit_netmsg d ip mac socket uuid)))))))))"

definition opaque_get :: "ParentInitNetworkDriverCompleted \<Rightarrow> string \<Rightarrow> string" where
  "opaque_get m k = (case map_of (nm_NetworkDriverOpaque m) k of None \<Rightarrow> [] | Some v \<Rightarrow> v)"

definition startVPNKitRoutines :: "string \<Rightarrow> string \<Rightarrow> string \<Rightarrow> string \<Rightarrow> string \<Rightarrow> string res prog" where
  "startVPNKitRoutines tapName macStr socket uuidStr detachedNetNSPath =
     (let fn = tryw ''executing %v: %w'' [tapName]
                 (Execs [[''ip'', ''tuntap'', ''add'', ''name'', tapName, ''mode'', ''tap''],
                         [''ip'', ''link'', ''set'', tapName, ''address'', macStr]]) (\<lambda>_.
               tryw ''creating tap %s: %w'' [tapName] (sys_str (Driver ''water.New'' [tapName])) (\<lambda>name. Ret (Inr name)))
      in
        tryp (if detachedNetNSPath = [] then fn else with_netns detachedNetNSPath fn) (\<lambda>name.
        if name \<noteq> tapName then Ret (Inl (Errorf ''expected %q, got %q'' [tapName, name]))
        else
          tryp (sys_unit (Driver ''vmnet.New'' [socket])) (\<lambda>_.
          tryp (sys_unit (Driver ''uuid.Parse'' [uuidStr])) (\<lambda>_.
          tryp (sys_unit (Driver ''vmnet.ConnectVif'' [uuidStr])) (\<lambda>_.
          ignore (sys_unit (Driver ''tap2vif'' [])) (ignore (sys_unit (Driver ''vif2tap'' [])) (Ret (Inr tapName))))))))"

definition vpnkit_ConfigureNetworkChild ::
  "ParentInitNetworkDriverCompleted \<Rightarrow> string \<Rightarrow> (string \<times> ParentInitNetworkDriverCompleted) res prog" where
  "vpnkit_ConfigureNetworkChild netmsg detachedNetNSPath =
     (let tapName = nm_Dev netmsg; macStr = opaque_get netmsg opaqueMAC; socket = opaque_get netmsg opaqueSocket;
          uuidStr = opaque_get netmsg opaqueUUID in
      if tapName = [] then Ret (Inl (New ''no dev is set''))
      else if macStr = [] then Ret (Inl (New ''no VPNKit MAC is set''))
      else if socket = [] then Ret (Inl (New ''no VPNKit socket is set''))
      else if uuidStr = [] then Ret (Inl (New ''no VPNKit UUID is set''))
      else tryp (startVPNKitRoutines tapName macStr socket uuidStr detachedNetNSPath) (\<lambda>tap. Ret (Inr (tap, netmsg))))"

section \<open>Information on the drivers\<close>

text \<open>
  What \<^verbatim>\<open>Info\<close> returns: the name alone before the network is configured, and the addresses of the
  message afterwards. The driver stores the function that returns them under a lock of its own.
\<close>

definition network_Info :: "string \<Rightarrow> ParentInitNetworkDriverCompleted option \<Rightarrow> NetworkDriverInfo" where
  "network_Info name info =
     (case info of
        None \<Rightarrow> \<lparr>ndi_Driver = name, ndi_DNS = [], ndi_ChildIP = nil_IP, ndi_DynamicChildIP = False\<rparr>
      | Some m \<Rightarrow> \<lparr>ndi_Driver = name, ndi_DNS = map ParseIP (nm_DNS m), ndi_ChildIP = ParseIP (nm_IP m), ndi_DynamicChildIP = False\<rparr>)"

definition none_Info :: NetworkDriverInfo where
  "none_Info = \<lparr>ndi_Driver = ''none'', ndi_DNS = [], ndi_ChildIP = nil_IP, ndi_DynamicChildIP = False\<rparr>"

definition slirp_Info :: "ParentInitNetworkDriverCompleted option \<Rightarrow> NetworkDriverInfo" where
  "slirp_Info = network_Info ''slirp4netns''"

definition pasta_Info :: "ParentInitNetworkDriverCompleted option \<Rightarrow> NetworkDriverInfo" where
  "pasta_Info = network_Info ''pasta''"

definition vpnkit_Info :: "ParentInitNetworkDriverCompleted option \<Rightarrow> NetworkDriverInfo" where
  "vpnkit_Info = network_Info ''vpnkit''"

definition lxc_Info :: NetworkDriverInfo where
  "lxc_Info = \<lparr>ndi_Driver = ''lxc-user-nic'', ndi_DNS = [], ndi_ChildIP = nil_IP, ndi_DynamicChildIP = True\<rparr>"

section \<open>The drivers keep the contract\<close>

lemma psilent_simps [simp]:
  "psilent (Run c)" "psilent (RunAs p c)" "psilent (StartCmd w x y z)" "psilent (Driver nm as)" "psilent (OpenPipe p)"
  "psilent (ClosePipe p)" "psilent (Kill i)" "psilent (WaitProc i)" "psilent (Sleep i)"
  by (simp_all add: psilent_def)

lemma kill_and_wait_silent: "only psilent (kill_and_wait p)"
  by (auto simp: kill_and_wait_def intro!: only_combinators split: option.splits)

lemma only_net_try: "only P m \<Longrightarrow> (\<And>x. only P (k x)) \<Longrightarrow> only P (net_try cs m k)"
  unfolding net_try_def net_fail_def by (auto intro!: only_bind split: sum.splits)

lemma only_net_end [simp]: "only P (net_done cs m)" "only P (net_fail cs e)"
  by (simp_all add: net_done_def net_fail_def)

lemma waitForReadyFD_silent: "only psilent (waitForReadyFD n pid)"
  by (induction n) (auto intro!: only_combinators split: option.splits list.splits)

lemma waitForVPNKit_silent: "only psilent (waitForVPNKit n r s)"
  by (induction n arbitrary: r) (auto intro!: only_combinators split: sum.splits)

lemma none_silent: "only psilent (none_ConfigureNetwork u pid sd ns)"
  unfolding none_ConfigureNetwork_def by (auto intro!: only_combinators only_Execs split: sum.splits)

lemma slirp_silent: "only psilent (slirp_ConfigureNetwork c pid sd ns)"
  unfolding slirp_ConfigureNetwork_def Let_def
  by (auto intro!: only_combinators only_net_try only_PrepareTap waitForReadyFD_silent split: sum.splits)

lemma pasta_silent: "only psilent (pasta_ConfigureNetwork d pid sd ns)"
  unfolding pasta_ConfigureNetwork_def by (auto intro!: only_net_try split: option.splits)

lemma lxc_silent: "only psilent (lxc_ConfigureNetwork d pid sd ns)"
  unfolding lxc_ConfigureNetwork_def by (auto intro!: only_combinators only_net_try split: sum.splits)

lemma vpnkit_silent: "only psilent (vpnkit_ConfigureNetwork n d pid sd ns)"
  unfolding vpnkit_ConfigureNetwork_def Let_def
  by (auto intro!: only_combinators only_net_try waitForVPNKit_silent split: sum.splits)

text \<open>What the results look like.\<close>

lemma returns_net_try:
  "returns P (net_try cs m k) = returns (\<lambda>r. case r of Inl e \<Rightarrow> P (None, cleanup_of cs, Some e) | Inr x \<Rightarrow> returns P (k x)) m"
  unfolding net_try_def returns_bind net_fail_def
  by (rule arg_cong [where f = "\<lambda>R. returns R m"]) (auto simp: fun_eq_iff split: sum.splits)

lemma returns_net_end [simp]:
  "returns P (net_done cs m) = P (Some m, cleanup_of cs, None)" "returns P (net_fail cs e) = P (None, cleanup_of cs, Some e)"
  by (simp_all add: net_done_def net_fail_def)

lemma returns_trivial: "(\<And>x. P x) \<Longrightarrow> returns P m"
  by (induction m) auto

lemma returns_defer: "returns P (defer_call c m) = returns (\<lambda>x. returns (\<lambda>_. P x) c) m"
  by (simp add: defer_call_def returns_bind)

lemma cleanup_of_silent: "list_all (only psilent) cs \<Longrightarrow> case cleanup_of cs of None \<Rightarrow> True | Some p \<Rightarrow> only psilent p"
  unfolding cleanup_of_def Seq_def by (auto simp: list_all_iff intro!: only_bind only_seq_calls)

definition dev_ok :: "string \<Rightarrow> int \<Rightarrow> int \<Rightarrow> bool" where
  "dev_ok ifname mtu ones \<longleftrightarrow> length ifname \<le> 1000 \<and> int64_ok mtu \<and> int64_ok ones"

definition slirp_ok :: "nat \<times> slirp_driver \<Rightarrow> bool" where
  "slirp_ok c \<longleftrightarrow> dev_ok (sl_ifname (snd c)) (sl_mtu (snd c)) (case sl_ipnet (snd c) of None \<Rightarrow> 24 | Some n \<Rightarrow> snd n)"

definition pasta_ok :: "pasta_driver \<Rightarrow> bool" where
  "pasta_ok d \<longleftrightarrow> dev_ok (pa_ifname d) (pa_mtu d) (snd (pa_ipnet d))"

definition lxc_ok :: "lxc_driver \<Rightarrow> bool" where
  "lxc_ok d \<longleftrightarrow> dev_ok (lx_ifname d) (lx_mtu d) 0"

lemma net_addresses_text:
  "net_addresses ip = Inr (a, g, d) \<Longrightarrow> length a \<le> 15 \<and> length g \<le> 15 \<and> length d \<le> 15"
  by (auto simp: net_addresses_def AddIPInt_text split: sum.splits)

lemma int64_ok_small: "int64_ok 0" "int64_ok 24"
  by (simp_all add: int64_ok_def)

lemma slirp_netmsg_small:
  assumes "slirp_ok c" and "slirp_netmsg (snd c) = Inr m"
  shows "small_net m"
proof (cases "sl_ipnet (snd c)")
  case None
  with assms show ?thesis
    by (auto simp: slirp_netmsg_def slirp_ok_def dev_ok_def small_net_def zero_net_def opaque_size_def wf_map_def keys_def)
next
  case (Some n)
  with assms(2) obtain a g d where adr: "net_addresses (fst n) = Inr (a, g, d)"
    by (auto simp: slirp_netmsg_def split: sum.splits)
  show ?thesis
    using assms Some adr net_addresses_text [OF adr]
    by (auto simp: slirp_netmsg_def slirp_ok_def dev_ok_def small_net_def zero_net_def opaque_size_def wf_map_def keys_def)
qed

lemmas net_returns = returns_bind returns_net_try returns_defer

lemma none_returns:
  "returns (\<lambda>(m, cl, er). (case cl of None \<Rightarrow> True | Some p \<Rightarrow> only psilent p) \<and> (er = None \<longrightarrow> m = Some zero_net)) (none_ConfigureNetwork u pid sd ns)"
  unfolding none_ConfigureNetwork_def
  by (auto simp: net_returns cleanup_of_silent intro!: returns_trivial split: sum.splits)

lemma slirp_returns:
  "returns (\<lambda>(m, cl, er). (case cl of None \<Rightarrow> True | Some p \<Rightarrow> only psilent p) \<and>
     (er = None \<longrightarrow> (\<exists>m'. m = Some m' \<and> slirp_netmsg (snd c) = Inr m'))) (slirp_ConfigureNetwork c pid sd ns)"
  unfolding slirp_ConfigureNetwork_def Let_def
  by (auto simp: net_returns cleanup_of_silent kill_and_wait_silent intro!: returns_trivial split: sum.splits)

lemma pasta_returns:
  "returns (\<lambda>(m, cl, er). (case cl of None \<Rightarrow> True | Some p \<Rightarrow> only psilent p) \<and>
     (er = None \<longrightarrow> (\<exists>a g dn. net_addresses (fst (pa_ipnet d)) = Inr (a, g, dn) \<and>
        m = Some (zero_net\<lparr>nm_Dev := pa_ifname d, nm_MTU := pa_mtu d, nm_IP := a, nm_Netmask := snd (pa_ipnet d),
           nm_Gateway := g, nm_DNS := [dn]\<rparr>)))) (pasta_ConfigureNetwork d pid sd ns)"
  unfolding pasta_ConfigureNetwork_def
  by (auto simp: net_returns cleanup_of_silent split: sum.splits option.splits)

lemma lxc_returns:
  "returns (\<lambda>(m, cl, er). (case cl of None \<Rightarrow> True | Some p \<Rightarrow> only psilent p) \<and>
     (er = None \<longrightarrow> m = Some (zero_net\<lparr>nm_Dev := lx_ifname d, nm_MTU := lx_mtu d\<rparr>))) (lxc_ConfigureNetwork d pid sd ns)"
  unfolding lxc_ConfigureNetwork_def
  by (auto simp: net_returns cleanup_of_silent intro!: returns_trivial split: sum.splits)

interpretation none: network_driver none_ConfigureNetwork "\<lambda>_. True"
proof
  fix u pid sd ns
  show "only psilent (none_ConfigureNetwork u pid sd ns)" by (rule none_silent)
  show "returns (\<lambda>(m, cl, er). case cl of None \<Rightarrow> True | Some p \<Rightarrow> only psilent p) (none_ConfigureNetwork u pid sd ns)"
    by (rule returns_mono [OF none_returns]) auto
  show "returns (\<lambda>(m, cl, er). er = None \<longrightarrow> deliverable ''ParentInitNetworkDriverCompleted'' (net_Message m)) (none_ConfigureNetwork u pid sd ns)"
    by (rule returns_mono [OF none_returns]) (auto intro: deliverable_fixed)
qed

interpretation slirp4netns: network_driver slirp_ConfigureNetwork slirp_ok
proof
  fix c pid sd ns
  show "only psilent (slirp_ConfigureNetwork c pid sd ns)" by (rule slirp_silent)
  show "returns (\<lambda>(m, cl, er). case cl of None \<Rightarrow> True | Some p \<Rightarrow> only psilent p) (slirp_ConfigureNetwork c pid sd ns)"
    by (rule returns_mono [OF slirp_returns]) auto
  assume "slirp_ok c"
  then show "returns (\<lambda>(m, cl, er). er = None \<longrightarrow> deliverable ''ParentInitNetworkDriverCompleted'' (net_Message m)) (slirp_ConfigureNetwork c pid sd ns)"
    by (intro returns_mono [OF slirp_returns]) (auto intro: small_net_deliverable slirp_netmsg_small)
qed

interpretation pasta: network_driver pasta_ConfigureNetwork pasta_ok
proof
  fix d pid sd ns
  show "only psilent (pasta_ConfigureNetwork d pid sd ns)" by (rule pasta_silent)
  show "returns (\<lambda>(m, cl, er). case cl of None \<Rightarrow> True | Some p \<Rightarrow> only psilent p) (pasta_ConfigureNetwork d pid sd ns)"
    by (rule returns_mono [OF pasta_returns]) auto
  assume "pasta_ok d"
  then show "returns (\<lambda>(m, cl, er). er = None \<longrightarrow> deliverable ''ParentInitNetworkDriverCompleted'' (net_Message m)) (pasta_ConfigureNetwork d pid sd ns)"
    by (intro returns_mono [OF pasta_returns])
      (auto intro!: small_net_deliverable dest!: net_addresses_text simp: small_net_def pasta_ok_def dev_ok_def zero_net_def opaque_size_def wf_map_def keys_def)
qed

interpretation lxcusernic: network_driver lxc_ConfigureNetwork lxc_ok
proof
  fix d pid sd ns
  show "only psilent (lxc_ConfigureNetwork d pid sd ns)" by (rule lxc_silent)
  show "returns (\<lambda>(m, cl, er). case cl of None \<Rightarrow> True | Some p \<Rightarrow> only psilent p) (lxc_ConfigureNetwork d pid sd ns)"
    by (rule returns_mono [OF lxc_returns]) auto
  assume "lxc_ok d"
  then show "returns (\<lambda>(m, cl, er). er = None \<longrightarrow> deliverable ''ParentInitNetworkDriverCompleted'' (net_Message m)) (lxc_ConfigureNetwork d pid sd ns)"
    by (intro returns_mono [OF lxc_returns])
      (auto intro!: small_net_deliverable simp: small_net_def lxc_ok_def dev_ok_def zero_net_def opaque_size_def wf_map_def keys_def)
qed

lemma child_drivers_silent:
  "only csilent (cn_ConfigureNetworkChild slirp_child m ns)" "only csilent (cn_ConfigureNetworkChild pasta_child m ns)"
  by (simp_all add: slirp_child_def tap_ConfigureNetworkChild_def pasta_child_def)

lemma csilent_Driver [simp]: "csilent (Driver nm as)"
  by (simp add: csilent_def)

lemma dhcp_exchange_silent: "only csilent (dhcp_exchange decode n dev)"
  by (induction n) (auto split: option.splits)

lemma lxc_child_silent: "only csilent (lxc_ConfigureNetworkChild decode n m ns)"
  unfolding lxc_ConfigureNetworkChild_def exchangeDHCP_def Let_def
  by (auto intro!: only_combinators only_Execs with_netns_silent dhcp_exchange_silent split: list.splits)

lemma vpnkit_child_silent: "only csilent (vpnkit_ConfigureNetworkChild m ns)"
  unfolding vpnkit_ConfigureNetworkChild_def startVPNKitRoutines_def Let_def
  by (auto intro!: only_combinators only_Execs with_netns_silent)

text \<open>The strings that the parent half of vpnkit passes to the child half survive the transfer.\<close>

lemma vpnkit_opaque:
  "opaque_get (received_net (vpnkit_netmsg d ip mac socket uuid)) opaqueMAC = mac"
  "opaque_get (received_net (vpnkit_netmsg d ip mac socket uuid)) opaqueSocket = socket"
  "opaque_get (received_net (vpnkit_netmsg d ip mac socket uuid)) opaqueUUID = uuid"
proof -
  have "map_of (sort_key fst [(opaqueMAC, mac), (opaqueSocket, socket), (opaqueUUID, uuid)]) =
      map_of [(opaqueMAC, mac), (opaqueSocket, socket), (opaqueUUID, uuid)]"
    by (rule map_of_sort_key) (simp add: wf_map_def keys_def opaqueMAC_def opaqueSocket_def opaqueUUID_def)
  then show "opaque_get (received_net (vpnkit_netmsg d ip mac socket uuid)) opaqueMAC = mac"
    "opaque_get (received_net (vpnkit_netmsg d ip mac socket uuid)) opaqueSocket = socket"
    "opaque_get (received_net (vpnkit_netmsg d ip mac socket uuid)) opaqueUUID = uuid"
    by (simp_all add: opaque_get_def received_net_def vpnkit_netmsg_def zero_net_def opaqueMAC_def opaqueSocket_def opaqueUUID_def)
qed

section \<open>Addresses\<close>

lemma AddIPInt_sum:
  assumes "length ip = 4" and "0 \<le> i" and "be_uint32 ip + i < 2 ^ 32"
  shows "\<exists>x. AddIPInt ip i = Inr x \<and> be_uint32 x = be_uint32 ip + i"
proof -
  have "To4 ip = ip" "ip \<noteq> []" using assms(1) by (auto simp: To4_def)
  moreover have "0 \<le> be_uint32 ip" using be_uint32_bounds by simp
  moreover from this have "wrap64 (be_uint32 ip + i) = be_uint32 ip + i" using assms(2,3) by (simp add: wrap64_id int64_ok_def)
  ultimately show ?thesis using assms by (simp add: AddIPInt_def Let_def)
qed

text \<open>
  The address in the message of slirp4netns is the one that the API reports and that the port
  driver gets in its context.
\<close>

lemma AddIPInt_v4: "AddIPInt ip i = Inr x \<Longrightarrow> length x = 4"
  by (auto simp: AddIPInt_def Let_def split: if_splits)

lemma slirp_address_reported:
  assumes "slirp_netmsg d = Inr m"
  shows "\<exists>ip. length ip = 4 \<and> nm_IP m = IP_String ip \<and> cctx_IP (child_context m) = ip \<and>
    To4 (ndi_ChildIP (slirp_Info (Some m))) = ip"
proof -
  obtain ip where ip: "length ip = 4" "nm_IP m = IP_String ip"
  proof (cases "sl_ipnet d")
    case None
    have "IP_String [10, 0, 2, 100] = ''10.0.2.100''" by code_simp
    then show ?thesis using None assms that [of "[10, 0, 2, 100]"] by (auto simp: slirp_netmsg_def zero_net_def)
  next
    case (Some n)
    then obtain x where "AddIPInt (fst n) 100 = Inr x" "nm_IP m = IP_String x"
      using assms by (auto simp: slirp_netmsg_def net_addresses_def zero_net_def split: sum.splits)
    then show ?thesis using that AddIPInt_v4 by blast
  qed
  moreover have "ParseIP (IP_String ip) = To16 ip" using ip(1) ParseIP_String_v4 [of ip] by (simp add: To4_def)
  ultimately show ?thesis
    by (intro exI [of _ ip]) (simp add: child_context_def slirp_Info_def network_Info_def)
qed

text \<open>The network that an address belongs to.\<close>

definition prefix_of :: "nat \<Rightarrow> IP \<Rightarrow> int" where
  "prefix_of ones ip = be_uint32 ip div 2 ^ (32 - ones)"

lemma sum_in_network:
  assumes "be_uint32 ip mod 2 ^ (32 - ones) = 0" and "ones \<le> 25" and "be_uint32 x = be_uint32 ip + i" and "0 \<le> i" and "i < 128"
  shows "prefix_of ones x = prefix_of ones ip"
proof -
  have "(2 :: int) ^ 7 \<le> 2 ^ (32 - ones)" using assms(2) by (intro power_increasing) auto
  then have "i < 2 ^ (32 - ones)" using assms(5) by simp
  moreover have "(2 :: int) ^ (32 - ones) dvd be_uint32 ip" using assms(1) by (simp add: dvd_eq_mod_eq_0)
  ultimately show ?thesis using assms(3,4) by (simp add: prefix_of_def div_plus_div_distrib_dvd_left)
qed

text \<open>The addresses that slirp4netns and pasta use. For a network address with at most 25 prefix bits the three
  addresses exist, are the network address plus 100, 2 and 3, and belong to the network.\<close>

lemma net_addresses_in_network:
  assumes "length ip = 4" and "ones \<le> 25" and "be_uint32 ip mod 2 ^ (32 - ones) = 0"
  shows "\<exists>child gateway dns. net_addresses ip = Inr (IP_String child, IP_String gateway, IP_String dns) \<and>
    be_uint32 child = be_uint32 ip + 100 \<and> be_uint32 gateway = be_uint32 ip + 2 \<and> be_uint32 dns = be_uint32 ip + 3 \<and>
    prefix_of ones child = prefix_of ones ip \<and> prefix_of ones gateway = prefix_of ones ip \<and> prefix_of ones dns = prefix_of ones ip"
proof -
  let ?M = "(2 :: int) ^ (32 - ones)"
  have "?M dvd be_uint32 ip" using assms(3) by (simp add: dvd_eq_mod_eq_0)
  moreover have M: "?M dvd 2 ^ 32" by (rule le_imp_power_dvd) simp
  moreover have "be_uint32 ip < 2 ^ 32" using be_uint32_bounds [of ip] assms(1) by simp
  ultimately have "be_uint32 ip + ?M \<le> 2 ^ 32"
    by (metis zdvd_imp_le dvd_diff diff_gt_0_iff_gt le_diff_eq add.commute)
  moreover have "(2 :: int) ^ 7 \<le> ?M" using assms(2) by (intro power_increasing) auto
  ultimately have room: "be_uint32 ip + 128 \<le> 2 ^ 32" by simp
  obtain a where a: "AddIPInt ip 100 = Inr a" "be_uint32 a = be_uint32 ip + 100"
    using AddIPInt_sum [OF assms(1), of 100] room by auto
  obtain g where g: "AddIPInt ip 2 = Inr g" "be_uint32 g = be_uint32 ip + 2"
    using AddIPInt_sum [OF assms(1), of 2] room by auto
  obtain d where d: "AddIPInt ip 3 = Inr d" "be_uint32 d = be_uint32 ip + 3"
    using AddIPInt_sum [OF assms(1), of 3] room by auto
  note net = sum_in_network [OF assms(3,2)]
  show ?thesis
    by (intro exI [of _ a] exI [of _ g] exI [of _ d])
      (simp add: net_addresses_def a g d net [OF a(2)] net [OF g(2)] net [OF d(2)])
qed

text \<open>With 26 prefix bits the address of the child lies outside its own network.\<close>

lemma net_addresses_outside:
  "net_addresses [10, 0, 2, 0] = Inr (''10.0.2.100'', ''10.0.2.2'', ''10.0.2.3'') \<and>
   prefix_of 26 [10, 0, 2, 100] \<noteq> prefix_of 26 [10, 0, 2, 0]"
proof
  show "net_addresses [10, 0, 2, 0] = Inr (''10.0.2.100'', ''10.0.2.2'', ''10.0.2.3'')" by code_simp
  show "prefix_of 26 [10, 0, 2, 100] \<noteq> prefix_of 26 [10, 0, 2, 0]" by (simp add: prefix_of_def be_uint32_def)
qed

end
