(* ===== verification/Gvisor_Net.thy ===== *)
theory Gvisor_Net
  imports Network
begin

text \<open>
  The network driver of \<^verbatim>\<open>pkg/network/gvisortapvsock\<close>. The parent runs the virtual network in its
  own process and serves it on a Unix socket; the child connects the tap device to that socket
  and forwards packets in both directions, each with a 16-bit little-endian length. The
  virtual network is a third-party package: making it is a call, and the JSON form of its Go
  value, which goes into the network message, is a parameter of the driver.
\<close>

section \<open>The parent half\<close>

record gvisor_driver =
  gn_mtu :: int
  gn_ipnet :: ipnet
  gn_ifname :: string
  gn_disableHostLoopback :: bool
  gn_enableIPv6 :: bool
  gn_vn_json :: json

definition gvisor_NewParentDriver :: "json \<Rightarrow> int \<Rightarrow> ipnet \<Rightarrow> string \<Rightarrow> bool \<Rightarrow> bool \<Rightarrow> gvisor_driver res" where
  "gvisor_NewParentDriver vn mtu ipnet ifname disableHostLoopback enableIPv6 =
     (if mtu < 0 then Inl (New ''got negative mtu'')
      else Inr \<lparr>gn_mtu = (if mtu = 0 then 65520 else mtu), gn_ipnet = ipnet,
                gn_ifname = (if ifname = [] then ''tap0'' else ifname), gn_disableHostLoopback = disableHostLoopback,
                gn_enableIPv6 = enableIPv6, gn_vn_json = vn\<rparr>)"

definition setupNetworkConfig :: "gvisor_driver \<Rightarrow> (string \<times> string \<times> int) res" where
  "setupNetworkConfig d =
     (case AddIPInt (fst (gn_ipnet d)) 100 of
        Inl e \<Rightarrow> Inl e
      | Inr ip \<Rightarrow>
          (case AddIPInt (fst (gn_ipnet d)) 1 of
             Inl e \<Rightarrow> Inl e
           | Inr gw \<Rightarrow> Inr (IP_String ip, IP_String gw, snd (gn_ipnet d))))"

text \<open>The configuration of the virtual network, as far as the driver sets it.\<close>

record vn_Configuration =
  vc_MTU :: int
  vc_Subnet :: string
  vc_GatewayIP :: string
  vc_GatewayMacAddress :: string
  vc_NAT :: "(string \<times> string) list"
  vc_Ec2MetadataAccess :: bool

definition vn_config :: "gvisor_driver \<Rightarrow> string \<Rightarrow> vn_Configuration" where
  "vn_config d gateway =
     \<lparr>vc_MTU = gn_mtu d, vc_Subnet = ipnet_String (gn_ipnet d), vc_GatewayIP = gateway,
      vc_GatewayMacAddress = ''5a:94:ef:e4:0c:dd'',
      vc_NAT = (if gn_disableHostLoopback d then [] else [(''10.0.2.1'', ''127.0.0.1'')]),
      vc_Ec2MetadataAccess = True\<rparr>"

definition setupVirtualNetwork :: "gvisor_driver \<Rightarrow> string \<Rightarrow> unit res prog" where
  "setupVirtualNetwork d gateway =
     (let c = vn_config d gateway in
      tryw ''creating virtual network: %w'' []
        (sys_unit (Driver ''virtualnetwork.New''
           ([strconv_Itoa (vc_MTU c), vc_Subnet c, vc_GatewayIP c, vc_GatewayMacAddress c, strconv_FormatBool (vc_Ec2MetadataAccess c)] @
            concat (map (\<lambda>(k, v). [k, v]) (vc_NAT c))))) (\<lambda>_. Ret (Inr ())))"

definition setupDNSServers :: "gvisor_driver \<Rightarrow> string list res" where
  "setupDNSServers d = (case AddIPInt (fst (gn_ipnet d)) 1 of Inl e \<Rightarrow> Inl e | Inr dns \<Rightarrow> Inr [IP_String dns])"

definition prepareNetworkMessage :: "gvisor_driver \<Rightarrow> string \<Rightarrow> int \<Rightarrow> string \<Rightarrow> ParentInitNetworkDriverCompleted res" where
  "prepareNetworkMessage d ip netmask gateway =
     (case setupDNSServers d of
        Inl e \<Rightarrow> Inl e
      | Inr dns \<Rightarrow>
          Inr (zero_net\<lparr>nm_Network := gn_vn_json d, nm_Dev := gn_ifname d, nm_DNS := dns, nm_MTU := gn_mtu d, nm_IP := ip,
            nm_Netmask := netmask, nm_Gateway := gateway\<rparr>))"

definition setupGvisortapvsockDir :: "string \<Rightarrow> string res prog" where
  "setupGvisortapvsockDir stateDir =
     (let dir = filepath_Join [stateDir, ''gvisortapvsock''] in
      tryw ''creating gvisortapvsock directory: %w'' [] (sys_unit (MkdirAll dir)) (\<lambda>_. Ret (Inr dir)))"

text \<open>The result is the path of the socket; accepting connections runs in the background.\<close>

definition setupSocket :: "string \<Rightarrow> string res prog" where
  "setupSocket dir =
     (let socketPath = filepath_Join [dir, ''tap.sock''] in
      tryw ''removing existing socket: %w'' [] (sys_unit (RemoveAll socketPath)) (\<lambda>_.
      tryw ''creating unix socket: %w'' [] (sys_unit (Listen socketPath)) (\<lambda>_.
      ignore (sys_unit (Driver ''acceptConnections'' [socketPath])) (Ret (Inr socketPath)))))"

text \<open>
  The loop that accepts connections, on the answers it sees in turn: whether the context is
  cancelled, and then what \<^verbatim>\<open>Accept\<close> returns. The result are the connections that are handled.
\<close>

fun acceptConnections :: "(bool \<times> 'c res) list \<Rightarrow> 'c list" where
  "acceptConnections [] = []"
| "acceptConnections ((cancelled, r) # es) =
     (if cancelled then []
      else
        (case r of
           Inl e \<Rightarrow>
             if errors_Is e EOF \<or> Contains (err_text e) ''use of closed network connection'' then []
             else acceptConnections es
         | Inr conn \<Rightarrow> conn # acceptConnections es))"

definition handleConnection :: "bool \<Rightarrow> string \<Rightarrow> unit prog" where
  "handleConnection vn conn =
     defer_call (sys_unit (Driver ''conn.Close'' [conn]))
       (if \<not> vn then Ret () else ignore (sys_unit (Driver ''vn.AcceptStdio'' [conn])) (Ret ()))"

definition createCleanupFunc :: "string \<Rightarrow> unit res prog" where
  "createCleanupFunc socketPath =
     ignore (sys_unit (Driver ''cancel'' [])) (ignore (sys_unit (CloseListener socketPath)) (Ret (Inr ())))"

definition gvisor_ConfigureNetwork :: "gvisor_driver \<Rightarrow> net_driver" where
  "gvisor_ConfigureNetwork d childPID stateDir detachedNetNSPath =
     net_try [] (tryw ''setting up tap %s: %w'' [gn_ifname d] (PrepareTap childPID detachedNetNSPath (gn_ifname d)) (\<lambda>_. Ret (Inr ()))) (\<lambda>_.
     net_try [] (Ret (setupNetworkConfig d)) (\<lambda>(ip, gateway, netmask).
     net_try [] (setupGvisortapvsockDir stateDir) (\<lambda>dir.
     net_try [] (tryw ''setting up socket: %w'' [] (setupSocket dir) (\<lambda>p. Ret (Inr p))) (\<lambda>socketPath.
     net_try [] (setupVirtualNetwork d gateway) (\<lambda>_.
     net_try [createCleanupFunc socketPath] (Ret (prepareNetworkMessage d ip netmask gateway)) (\<lambda>netmsg.
     net_done [createCleanupFunc socketPath]
       (netmsg\<lparr>nm_NetworkDriverOpaque := map_put ''socketPath'' socketPath (nm_NetworkDriverOpaque netmsg)\<rparr>)))))))"

text \<open>The function that \<^verbatim>\<open>updateDriverInfo\<close> stores, applied.\<close>

definition updateDriverInfo :: "ParentInitNetworkDriverCompleted \<Rightarrow> NetworkDriverInfo" where
  "updateDriverInfo netmsg =
     \<lparr>ndi_Driver = ''gvisor-tap-vsock'', ndi_DNS = map ParseIP (nm_DNS netmsg), ndi_ChildIP = ParseIP (nm_IP netmsg),
      ndi_DynamicChildIP = False\<rparr>"

definition gvisor_Info :: "ParentInitNetworkDriverCompleted option \<Rightarrow> NetworkDriverInfo" where
  "gvisor_Info info =
     (case info of
        None \<Rightarrow> \<lparr>ndi_Driver = ''gvisor-tap-vsock'', ndi_DNS = [], ndi_ChildIP = nil_IP, ndi_DynamicChildIP = False\<rparr>
      | Some netmsg \<Rightarrow> updateDriverInfo netmsg)"

lemma gvisor_Info_network: "gvisor_Info = network_Info ''gvisor-tap-vsock''"
  by (auto simp: fun_eq_iff gvisor_Info_def updateDriverInfo_def network_Info_def split: option.splits)

section \<open>The child half\<close>

definition gvisor_ConfigureNetworkChild ::
  "ParentInitNetworkDriverCompleted \<Rightarrow> string \<Rightarrow> (string \<times> ParentInitNetworkDriverCompleted) res prog" where
  "gvisor_ConfigureNetworkChild netmsg detachedNetNSPath =
     (let tapName = nm_Dev netmsg; socketPath = opaque_get netmsg ''socketPath'';
          fn = tryw ''opening tap device %s: %w'' [tapName] (sys_unit (Driver ''water.New'' [tapName])) (\<lambda>_.
               tryw ''connecting to socket %s: %w'' [socketPath] (sys_unit (Driver ''net.Dial'' [''unix'', socketPath])) (\<lambda>_.
               ignore (sys_unit (Driver ''forwardTapToSocket'' [])) (ignore (sys_unit (Driver ''forwardSocketToTap'' [])) (Ret (Inr ())))))
      in
        if tapName = [] then Ret (Inl (New ''could not determine the preconfigured tap''))
        else if socketPath = [] then Ret (Inl (New ''socket path not provided''))
        else tryp (if detachedNetNSPath = [] then fn else with_netns detachedNetNSPath fn) (\<lambda>_. Ret (Inr (tapName, netmsg))))"

definition gvisor_child :: child_net_driver where
  "gvisor_child = \<lparr>cn_ConfigureNetworkChild = gvisor_ConfigureNetworkChild, cn_ConfiguresInterface = False\<rparr>"

section \<open>Forwarding packets\<close>

definition defaultBufferSize :: nat where "defaultBufferSize = 65536"
definition MaxUint16 :: nat where "MaxUint16 = 65535"

text \<open>
  From the tap to the socket. The list holds what the reads of the tap return in turn; a read
  returns at most a buffer. A frame that does not fit the length field is dropped, an error
  of either side ends the loop. The result is the state of the writer.
\<close>

fun forwardTapToSocket :: "'w writer \<Rightarrow> string res list \<Rightarrow> 'w \<Rightarrow> 'w" where
  "forwardTapToSocket wr [] w = w"
| "forwardTapToSocket wr (Inl e # rs) w = w"
| "forwardTapToSocket wr (Inr packet # rs) w =
     (let buf = take defaultBufferSize packet; n = length buf in
      if MaxUint16 < n then forwardTapToSocket wr rs w
      else
        (case wr (le_bytes 2 n @ buf) w of
           (Inl e, w') \<Rightarrow> w'
         | (Inr _, w') \<Rightarrow> forwardTapToSocket wr rs w'))"

text \<open>\<^verbatim>\<open>io.ReadFull\<close>: as many \<^verbatim>\<open>Read\<close> calls as needed, an error when the stream ends before.\<close>

definition ErrUnexpectedEOF :: err where
  "ErrUnexpectedEOF = Sys ''unexpected EOF''"

fun read_more :: "nat \<Rightarrow> string \<Rightarrow> reader \<Rightarrow> string res \<times> reader" where
  "read_more n acc [] = (if n = 0 then (Inr acc, []) else (Inl (if acc = [] then EOF else ErrUnexpectedEOF), []))"
| "read_more n acc (c # cs) =
     (if n = 0 then (Inr acc, c # cs)
      else if length c \<le> n then read_more (n - length c) (acc @ c) cs
      else (Inr (acc @ take n c), drop n c # cs))"

definition ReadFull :: "nat \<Rightarrow> reader \<Rightarrow> string res \<times> reader" where
  "ReadFull n r = read_more n [] r"

text \<open>How the stream is cut into chunks does not matter to \<^verbatim>\<open>ReadFull\<close>.\<close>

lemma read_more_concat:
  "(n \<le> length (concat r) \<longrightarrow> fst (read_more n acc r) = Inr (acc @ take n (concat r))) \<and>
   (length (concat r) < n \<longrightarrow> fst (read_more n acc r) = Inl (if acc @ concat r = [] then EOF else ErrUnexpectedEOF)) \<and>
   concat (snd (read_more n acc r)) = drop n (concat r)"
  by (induction n acc r rule: read_more.induct) auto

lemma ReadFull_concat:
  "n \<le> length (concat r) \<Longrightarrow> \<exists>r'. ReadFull n r = (Inr (take n (concat r)), r') \<and> concat r' = drop n (concat r)"
  using read_more_concat [of n r "[]"] unfolding ReadFull_def by (intro exI conjI prod_eqI) auto

lemma ReadFull_smaller:
  assumes "ReadFull n r = (Inr b, r')"
  shows "n \<le> length (concat r) \<and> length (concat r') = length (concat r) - n"
  using read_more_concat [of n r "[]"] assms by (cases "n \<le> length (concat r)") (auto simp: ReadFull_def)

lemma ReadFull_end: "concat r = [] \<Longrightarrow> 0 < n \<Longrightarrow> \<exists>r'. ReadFull n r = (Inl EOF, r')"
  using read_more_concat [of n r "[]"] unfolding ReadFull_def by (simp del: concat_eq_Nil_conv add: prod_eq_iff)

text \<open>From the socket to the tap. The writes of the tap get the packets written so far and the next one.\<close>

function forwardSocketToTap :: "(string list \<Rightarrow> string \<Rightarrow> unit res) \<Rightarrow> reader \<Rightarrow> string list \<Rightarrow> string list" where
  "forwardSocketToTap tap r written =
     (case ReadFull 2 r of
        (Inl e, r1) \<Rightarrow> written
      | (Inr sizeBuf, r1) \<Rightarrow>
          (case ReadFull (le_nat sizeBuf) r1 of
             (Inl e, r2) \<Rightarrow> written
           | (Inr buf, r2) \<Rightarrow>
               (case tap written buf of
                  Inl e \<Rightarrow> written
                | Inr _ \<Rightarrow> forwardSocketToTap tap r2 (written @ [buf]))))"
  by auto

termination
  by (relation "measure (\<lambda>(tap, r, written). length (concat r))") (auto dest!: sym [of "(_, _)"] ReadFull_smaller)

declare forwardSocketToTap.simps [simp del]

section \<open>The two directions\<close>

definition tap_frame :: "string \<Rightarrow> string" where
  "tap_frame p = le_bytes 2 (length p) @ p"

definition tap_fits :: "string \<Rightarrow> bool" where
  "tap_fits p \<longleftrightarrow> length p \<le> 65535"

lemma forwardTapToSocket_stream:
  "forwardTapToSocket Buffer_Write (map Inr ps) w = w @ concat (map tap_frame (filter tap_fits ps))"
  by (induction ps arbitrary: w)
    (auto simp: Buffer_Write_def tap_frame_def tap_fits_def defaultBufferSize_def MaxUint16_def Let_def)

lemma forwardSocketToTap_step:
  assumes "concat r = tap_frame p @ rest" and "tap_fits p" and "tap written p = Inr ()"
  shows "\<exists>r'. concat r' = rest \<and> forwardSocketToTap tap r written = forwardSocketToTap tap r' (written @ [p])"
proof -
  have l: "length p < 256 ^ 2" using assms(2) by (simp add: tap_fits_def)
  obtain r1 where r1: "ReadFull 2 r = (Inr (le_bytes 2 (length p)), r1)" "concat r1 = p @ rest"
    using ReadFull_concat [of 2 r] assms(1) by (auto simp: tap_frame_def)
  obtain r2 where r2: "ReadFull (length p) r1 = (Inr p, r2)" "concat r2 = rest"
    using ReadFull_concat [of "length p" r1] r1(2) by auto
  have "le_nat (le_bytes 2 (length p)) = length p" using l by (simp add: le_nat_le_bytes)
  then show ?thesis
    by (intro exI [of _ r2]) (simp add: forwardSocketToTap.simps [of tap r] r1 r2 assms(3))
qed

lemma forwardSocketToTap_frames:
  assumes "concat r = concat (map tap_frame ps)" and "list_all tap_fits ps" and "\<And>w p. tap w p = Inr ()"
  shows "forwardSocketToTap tap r written = written @ ps"
  using assms(1,2)
proof (induction ps arbitrary: r written)
  case Nil
  then show ?case using ReadFull_end [of r 2] by (auto simp: forwardSocketToTap.simps [of tap r])
next
  case (Cons p ps)
  then obtain r' where "concat r' = concat (map tap_frame ps)"
    "forwardSocketToTap tap r written = forwardSocketToTap tap r' (written @ [p])"
    using forwardSocketToTap_step [of r p _ tap written] assms(3) by auto
  then show ?case using Cons by simp
qed

text \<open>C38: the packets of the tap survive the socket. Whatever packets are read from the tap and
  however the stream of the socket is cut into reads, the receiving loop writes exactly the
  packets of at most 65535 bytes, in order; longer ones are dropped by the sender.\<close>

theorem tap_packets_roundtrip:
  assumes "concat r = forwardTapToSocket Buffer_Write (map Inr ps) []"
  shows "forwardSocketToTap (\<lambda>_ _. Inr ()) r [] = filter (\<lambda>p. length p \<le> MaxUint16) ps"
proof -
  have "concat r = concat (map tap_frame (filter tap_fits ps))"
    using assms by (simp add: forwardTapToSocket_stream)
  then have "forwardSocketToTap (\<lambda>_ _. Inr ()) r [] = [] @ filter tap_fits ps"
    by (rule forwardSocketToTap_frames) (simp_all add: list_all_iff)
  then show ?thesis by (simp add: tap_fits_def [abs_def] MaxUint16_def)
qed

theorem tap_packets_roundtrip_witness:
  "forwardSocketToTap (\<lambda>_ _. Inr ()) [[CHR 0x02], [CHR 0x00, CHR ''a''], [CHR ''b'', CHR 0x00, CHR 0x00]] [] = [''ab'', []]"
proof -
  have "tap_frame ''ab'' = [CHR 0x02, CHR 0x00, CHR ''a'', CHR ''b'']" "tap_frame [] = [CHR 0x00, CHR 0x00]" by code_simp+
  then have "concat [[CHR 0x02], [CHR 0x00, CHR ''a''], [CHR ''b'', CHR 0x00, CHR 0x00]] =
      forwardTapToSocket Buffer_Write (map Inr [''ab'', []]) []"
    unfolding forwardTapToSocket_stream by (simp add: tap_fits_def)
  from tap_packets_roundtrip [OF this] show ?thesis by (simp add: MaxUint16_def)
qed

section \<open>The driver keeps the contract\<close>

lemma psilent_more [simp]:
  "psilent (MkdirAll p)" "psilent (RemoveAll p)" "psilent (Listen p)" "psilent (CloseListener p)"
  by (simp_all add: psilent_def)

lemma cleanup_silent: "only psilent (createCleanupFunc p)"
  unfolding createCleanupFunc_def by (auto intro!: only_combinators)

lemmas gvisor_defs = gvisor_ConfigureNetwork_def setupGvisortapvsockDir_def setupSocket_def setupVirtualNetwork_def Let_def

lemma gvisor_silent: "only psilent (gvisor_ConfigureNetwork d pid sd ns)"
  unfolding gvisor_defs by (auto intro!: only_combinators only_net_try only_PrepareTap)

definition gvisor_ok :: "gvisor_driver \<Rightarrow> bool" where
  "gvisor_ok d \<longleftrightarrow> dev_ok (gn_ifname d) (gn_mtu d) (snd (gn_ipnet d)) \<and> wf_json (gn_vn_json d) \<and>
     length (print_json (gn_vn_json d)) \<le> 10000"

definition gvisor_socket :: "string \<Rightarrow> string" where
  "gvisor_socket sd = filepath_Join [filepath_Join [sd, ''gvisortapvsock''], ''tap.sock'']"

definition gvisor_netmsg :: "gvisor_driver \<Rightarrow> string \<Rightarrow> ParentInitNetworkDriverCompleted res" where
  "gvisor_netmsg d sd =
     (case setupNetworkConfig d of
        Inl e \<Rightarrow> Inl e
      | Inr (ip, gateway, netmask) \<Rightarrow>
          (case prepareNetworkMessage d ip netmask gateway of
             Inl e \<Rightarrow> Inl e
           | Inr m \<Rightarrow> Inr (m\<lparr>nm_NetworkDriverOpaque := map_put ''socketPath'' (gvisor_socket sd) (nm_NetworkDriverOpaque m)\<rparr>)))"

lemma gvisor_netmsg_small:
  assumes "gvisor_ok d" and "gvisor_netmsg d sd = Inr m" and "length sd \<le> 4096"
  shows "small_net m"
proof -
  have "length (gvisor_socket sd) \<le> 4200"
    using length_filepath_Join [of "[sd, ''gvisortapvsock'']"]
      length_filepath_Join [of "[filepath_Join [sd, ''gvisortapvsock''], ''tap.sock'']"] assms(3)
    by (simp add: gvisor_socket_def)
  then show ?thesis
    using assms by (auto simp: gvisor_netmsg_def setupNetworkConfig_def prepareNetworkMessage_def setupDNSServers_def
      gvisor_ok_def dev_ok_def small_net_def zero_net_def opaque_size_def wf_map_def keys_def dest: AddIPInt_text split: sum.splits)
qed

lemma gvisor_returns:
  "returns (\<lambda>(m, cl, er). (case cl of None \<Rightarrow> True | Some p \<Rightarrow> only psilent p) \<and>
     (er = None \<longrightarrow> (\<exists>m'. m = Some m' \<and> gvisor_netmsg d sd = Inr m'))) (gvisor_ConfigureNetwork d pid sd ns)"
  unfolding gvisor_defs tryw_def ignore_def
  by (auto simp: net_returns cleanup_of_silent cleanup_silent gvisor_netmsg_def gvisor_socket_def sys_unit_def
      intro!: returns_trivial split: sum.splits)

interpretation gvisortapvsock: network_driver gvisor_ConfigureNetwork gvisor_ok
proof
  fix d pid sd ns
  show "only psilent (gvisor_ConfigureNetwork d pid sd ns)" by (rule gvisor_silent)
  show "returns (\<lambda>(m, cl, er). case cl of None \<Rightarrow> True | Some p \<Rightarrow> only psilent p) (gvisor_ConfigureNetwork d pid sd ns)"
    by (rule returns_mono [OF gvisor_returns]) auto
  assume "gvisor_ok d" "length sd \<le> 4096"
  then show "returns (\<lambda>(m, cl, er). er = None \<longrightarrow> deliverable ''ParentInitNetworkDriverCompleted'' (net_Message m)) (gvisor_ConfigureNetwork d pid sd ns)"
    by (intro returns_mono [OF gvisor_returns]) (auto intro: small_net_deliverable gvisor_netmsg_small)
qed

lemma gvisor_child_silent: "only csilent (gvisor_ConfigureNetworkChild m ns)"
  unfolding gvisor_ConfigureNetworkChild_def Let_def by (auto intro!: only_combinators with_netns_silent)

text \<open>The socket that the parent half serves is the one that the child half connects to.\<close>

lemma gvisor_opaque: "gvisor_netmsg d sd = Inr m \<Longrightarrow> opaque_get (received_net m) ''socketPath'' = gvisor_socket sd"
  by (auto simp: gvisor_netmsg_def prepareNetworkMessage_def setupDNSServers_def opaque_get_def received_net_def zero_net_def
      split: sum.splits)

text \<open>
  The entry for the loopback of the host is written for one gateway address only: in a
  virtual network with another prefix the gateway is not in the table.
\<close>

lemma gvisor_nat_fixed:
  assumes "gn_ipnet d = ([10, 1, 0, 0], 24)"
  shows "setupNetworkConfig d = Inr (''10.1.0.100'', ''10.1.0.1'', 24) \<and> map_of (vc_NAT (vn_config d ''10.1.0.1'')) ''10.1.0.1'' = None"
proof -
  have "AddIPInt [10, 1, 0, 0] 100 = Inr [10, 1, 0, 100]" "AddIPInt [10, 1, 0, 0] 1 = Inr [10, 1, 0, 1]"
    "IP_String [10, 1, 0, 100] = ''10.1.0.100''" "IP_String [10, 1, 0, 1] = ''10.1.0.1''"
    by code_simp+
  then show ?thesis using assms by (simp add: setupNetworkConfig_def vn_config_def)
qed

end
