(* ===== verification/Go_Scanner.thy ===== *)
theory Go_Scanner
  imports Go_Net "HOL-Library.Sublist"
begin

text \<open>
  Go's \<^verbatim>\<open>text/scanner\<close> in its default mode \<^verbatim>\<open>GoTokens\<close>, as \<^verbatim>\<open>ParsePortSpec\<close> uses it:
  white space and comments are skipped; identifiers, numbers, strings, characters and raw
  strings are tokens; every other character is a token of its own. A scan returns the
  token, its text and the unread rest. Errors of a literal are only reported to the
  scanner's error count, which the caller ignores, so they do not show here. Bytes above
  127 are tokens of one byte each; as neither an address nor a number contains one, the
  caller refuses such a text wherever the token boundary lies.
\<close>

datatype tok = TEOF | TIdent | TInt | TFloat | TString | TChr | TRaw | TChar char

definition is_letter :: "char \<Rightarrow> bool" where
  "is_letter c \<longleftrightarrow> (let n = of_char c :: int in 65 \<le> n \<and> n \<le> 90 \<or> 97 \<le> n \<and> n \<le> 122)"

definition ident_start :: "char \<Rightarrow> bool" where
  "ident_start c \<longleftrightarrow> c = CHR ''_'' \<or> is_letter c"

definition ident_part :: "char \<Rightarrow> bool" where
  "ident_part c \<longleftrightarrow> ident_start c \<or> is_digit c"

definition go_whitespace :: "char \<Rightarrow> bool" where
  "go_whitespace c \<longleftrightarrow> c = CHR '' '' \<or> c = CHR 0x09 \<or> c = CHR 0x0A \<or> c = CHR 0x0D"

text \<open>\<^verbatim>\<open>Scanner.digits\<close>: the digits of the base (any decimal digit up to base 10) and underscores.\<close>

definition skip_digits :: "bool \<Rightarrow> string \<Rightarrow> string" where
  "skip_digits hex s = dropWhile (\<lambda>c. c = CHR ''_'' \<or> (if hex then is_hex c else is_digit c)) s"

definition next_is :: "(char \<Rightarrow> bool) \<Rightarrow> string \<Rightarrow> bool" where
  "next_is P s \<longleftrightarrow> (case s of [] \<Rightarrow> False | c # _ \<Rightarrow> P c)"

definition skip_if :: "(char \<Rightarrow> bool) \<Rightarrow> string \<Rightarrow> string" where
  "skip_if P s = (if next_is P s then tl s else s)"

text \<open>The integer part of \<^verbatim>\<open>scanNumber\<close>: base prefix and digits; tells whether the base is 16.\<close>

definition number_int :: "string \<Rightarrow> bool \<times> string" where
  "number_int s =
     (if next_is (\<lambda>c. c = CHR ''0'') s then
        (let t = tl s in
         if next_is (\<lambda>c. c = CHR ''x'' \<or> c = CHR ''X'') t then (True, skip_digits True (tl t))
         else if next_is (\<lambda>c. c \<in> {CHR ''o'', CHR ''O'', CHR ''b'', CHR ''B''}) t
         then (False, skip_digits False (tl t))
         else (False, skip_digits False t))
      else (False, skip_digits False s))"

definition number_exp :: "tok \<Rightarrow> string \<Rightarrow> tok \<times> string" where
  "number_exp t s =
     (if next_is (\<lambda>c. c \<in> {CHR ''e'', CHR ''E'', CHR ''p'', CHR ''P''}) s
      then (TFloat, skip_digits False (skip_if (\<lambda>c. c = CHR ''+'' \<or> c = CHR ''-'') (tl s)))
      else (t, s))"

definition scanNumber :: "bool \<Rightarrow> string \<Rightarrow> tok \<times> string" where
  "scanNumber seenDot s =
     (if seenDot then number_exp TFloat (skip_digits False s)
      else
        (case number_int s of
           (hex, r) \<Rightarrow>
             if next_is (\<lambda>c. c = CHR ''.'') r
             then number_exp TFloat (skip_digits hex (tl r))
             else number_exp TInt r))"

fun skip_n :: "nat \<Rightarrow> (char \<Rightarrow> bool) \<Rightarrow> string \<Rightarrow> string" where
  "skip_n 0 P s = s"
| "skip_n (Suc n) P s = (if next_is P s then skip_n n P (tl s) else s)"

definition is_octal :: "char \<Rightarrow> bool" where
  "is_octal c \<longleftrightarrow> c \<in> set ''01234567''"

definition scanEscape :: "char \<Rightarrow> string \<Rightarrow> string" where
  "scanEscape q s =
     (case s of
        [] \<Rightarrow> []
      | c # cs \<Rightarrow>
          if c \<in> set ''abfnrtv'' \<or> c = CHR 0x5C \<or> c = q then cs
          else if is_octal c then skip_n 3 is_octal s
          else if c = CHR ''x'' then skip_n 2 is_hex cs
          else if c = CHR ''u'' then skip_n 4 is_hex cs
          else if c = CHR ''U'' then skip_n 8 is_hex cs
          else s)"

lemma length_skip_n: "length (skip_n n P s) \<le> length s"
proof (induction n arbitrary: s)
  case (Suc n)
  show ?case using Suc [of "tl s"] by auto
qed simp

lemma length_scanEscape: "length (scanEscape q s) \<le> length s"
proof (cases s)
  case (Cons c cs)
  then show ?thesis
    using length_skip_n [of 3 is_octal s] length_skip_n [of 2 is_hex cs]
      length_skip_n [of 4 is_hex cs] length_skip_n [of 8 is_hex cs]
    by (simp add: scanEscape_def)
qed (simp add: scanEscape_def)

function scanString :: "char \<Rightarrow> string \<Rightarrow> string" where
  "scanString q [] = []"
| "scanString q (c # cs) =
     (if c = q \<or> c = CHR 0x0A then cs
      else if c = CHR 0x5C then scanString q (scanEscape q cs)
      else scanString q cs)"
  by pat_completeness auto
termination
  by (relation "measure (\<lambda>(q, s). length s)") (auto simp: le_imp_less_Suc length_scanEscape)

lemma length_scanString: "length (scanString q s) \<le> length s"
proof (induction q s rule: scanString.induct)
  case (2 q c cs)
  then show ?case using length_scanEscape [of q cs] by auto
qed simp

definition scanRawString :: "string \<Rightarrow> string" where
  "scanRawString s = tl (dropWhile (\<lambda>c. c \<noteq> CHR 0x60) s)"

fun skip_block :: "string \<Rightarrow> string" where
  "skip_block [] = []"
| "skip_block (c # cs) =
     (if c = CHR ''*'' \<and> next_is (\<lambda>d. d = CHR ''/'') cs then tl cs else skip_block cs)"

lemma length_skip_block: "length (skip_block s) \<le> length s"
  by (induction s) (auto simp: le_SucI intro: le_SucI)

definition consumed :: "string \<Rightarrow> string \<Rightarrow> string" where
  "consumed s r = take (length s - length r) s"

lemma length_dropWhile_ws: "dropWhile P s = c # cs \<Longrightarrow> length cs < length s"
  by (metis length_Cons length_dropWhile_le less_eq_Suc_le)

function Scan :: "string \<Rightarrow> tok \<times> string \<times> string" where
  "Scan s0 =
     (case dropWhile go_whitespace s0 of
        [] \<Rightarrow> (TEOF, [], [])
      | c # cs \<Rightarrow>
          if ident_start c then
            (let r = dropWhile ident_part cs in (TIdent, consumed (c # cs) r, r))
          else if is_digit c then
            (case scanNumber False (c # cs) of (t, r) \<Rightarrow> (t, consumed (c # cs) r, r))
          else if c = CHR 0x22 then
            (let r = scanString c cs in (TString, consumed (c # cs) r, r))
          else if c = CHR 0x27 then
            (let r = scanString c cs in (TChr, consumed (c # cs) r, r))
          else if c = CHR ''.'' then
            (if next_is is_digit cs
             then (case scanNumber True cs of (t, r) \<Rightarrow> (t, consumed (c # cs) r, r))
             else (TChar c, [c], cs))
          else if c = CHR ''/'' then
            (if next_is (\<lambda>d. d = CHR ''/'') cs then Scan (dropWhile (\<lambda>d. d \<noteq> CHR 0x0A) (tl cs))
             else if next_is (\<lambda>d. d = CHR ''*'') cs then Scan (skip_block (tl cs))
             else (TChar c, [c], cs))
          else if c = CHR 0x60 then
            (let r = scanRawString cs in (TRaw, consumed (c # cs) r, r))
          else (TChar c, [c], cs))"
  by pat_completeness auto
termination
proof (relation "measure length", goal_cases)
  case 1
  show ?case by simp
next
  case (2 s0 c cs)
  from 2(1) have "length cs < length s0" by (rule length_dropWhile_ws)
  moreover have "length (dropWhile (\<lambda>d. d \<noteq> CHR 0x0A) (tl cs)) \<le> length cs"
    by (rule le_trans [OF length_dropWhile_le]) simp
  ultimately show ?case by simp
next
  case (3 s0 c cs)
  from 3(1) have "length cs < length s0" by (rule length_dropWhile_ws)
  moreover have "length (skip_block (tl cs)) \<le> length cs"
    by (rule le_trans [OF length_skip_block]) simp
  ultimately show ?case by simp
qed

declare Scan.simps [simp del]

section \<open>Progress\<close>

lemma number_exp_not_EOF: "t \<noteq> TEOF \<Longrightarrow> fst (number_exp t s) \<noteq> TEOF"
  by (simp add: number_exp_def)

lemma scanNumber_not_EOF: "fst (scanNumber d s) \<noteq> TEOF"
  by (auto simp: scanNumber_def number_exp_not_EOF split: prod.splits)

lemma Scan_EOF_rest: "Scan s = (TEOF, x, r) \<Longrightarrow> r = []"
proof (induction s arbitrary: x r rule: Scan.induct)
  case (1 s0)
  show ?case
  proof (cases "dropWhile go_whitespace s0")
    case Nil
    with 1 show ?thesis by (simp add: Scan.simps [of s0])
  next
    case (Cons c cs)
    note IH = 1(1) [OF Cons] 1(2) [OF Cons]
    have "scanNumber d s \<noteq> (TEOF, r)" for d s r
      using scanNumber_not_EOF [of d s] by auto
    with 1(3) Cons show ?thesis
      by (subst (asm) Scan.simps)
        (auto simp: Let_def split: if_splits prod.splits dest!: IH [rotated -1])
  qed
qed

lemma length_skip_digits: "length (skip_digits h s) \<le> length s"
  by (simp add: skip_digits_def length_dropWhile_le)

lemma length_skip_if: "length (skip_if P s) \<le> length s"
  by (simp add: skip_if_def)

lemma length_number_exp: "length (snd (number_exp t s)) \<le> length s"
proof -
  have "length (skip_digits False (skip_if P (tl s))) \<le> length s" for P
    using length_skip_digits [of False "skip_if P (tl s)"] length_skip_if [of P "tl s"] by simp
  then show ?thesis by (simp add: number_exp_def)
qed

lemma length_number_int: "is_digit c \<Longrightarrow> length (snd (number_int (c # cs))) \<le> length cs"
proof -
  assume "is_digit c"
  then have "skip_digits False (c # cs) = skip_digits False cs" by (simp add: skip_digits_def)
  moreover have "length (skip_digits h (tl cs)) \<le> length cs" for h
    using length_skip_digits [of h "tl cs"] by simp
  ultimately show ?thesis
    using length_skip_digits by (simp add: number_int_def)
qed

lemma length_scanNumber: "is_digit c \<Longrightarrow> length (snd (scanNumber d (c # cs))) \<le> length cs"
proof -
  assume c: "is_digit c"
  have "length (snd (number_exp TFloat (skip_digits False (c # cs)))) \<le> length cs"
    using c length_number_exp [of TFloat "skip_digits False (c # cs)"] length_skip_digits [of False cs]
    by (simp add: skip_digits_def)
  moreover obtain hex r where hr: "number_int (c # cs) = (hex, r)" by fastforce
  moreover have "length r \<le> length cs" using length_number_int [OF c, of cs] hr by simp
  moreover have "length (snd (number_exp TFloat (skip_digits hex (tl r)))) \<le> length r"
    using length_number_exp [of TFloat "skip_digits hex (tl r)"] length_skip_digits [of hex "tl r"] by simp
  moreover have "length (snd (number_exp TInt r)) \<le> length r" by (rule length_number_exp)
  ultimately show ?thesis by (auto simp: scanNumber_def)
qed

lemma length_scanRawString: "length (scanRawString s) \<le> length s"
  by (simp add: scanRawString_def le_diff_conv length_dropWhile_le le_SucI)

lemma Scan_decreases: "Scan s = (t, x, r) \<Longrightarrow> t \<noteq> TEOF \<Longrightarrow> length r < length s"
proof (induction s arbitrary: t x r rule: Scan.induct)
  case (1 s0)
  show ?case
  proof (cases "dropWhile go_whitespace s0")
    case Nil
    with 1 show ?thesis by (simp add: Scan.simps [of s0])
  next
    case (Cons c cs)
    then have lt: "length cs < length s0" by (rule length_dropWhile_ws)
    have le: "length (dropWhile P cs) \<le> length cs" "length (scanString q cs) \<le> length cs"
      "length (scanRawString cs) \<le> length cs"
      "length (dropWhile P (tl cs)) \<le> length cs" "length (skip_block (tl cs)) \<le> length cs" for P q
      by (simp_all add: length_dropWhile_le length_scanString length_scanRawString
          le_trans [OF length_dropWhile_le] le_trans [OF length_skip_block])
    have num: "is_digit c \<Longrightarrow> length (snd (scanNumber False (c # cs))) \<le> length cs"
      by (rule length_scanNumber)
    have num': "next_is is_digit cs \<Longrightarrow> length (snd (scanNumber True cs)) \<le> length cs"
      using length_scanNumber [of "hd cs" True "tl cs"] by (cases cs) (auto simp: next_is_def)
    have lt2: "length (dropWhile (\<lambda>d. d \<noteq> CHR 0x0A) (tl cs)) < length s0"
      "length (skip_block (tl cs)) < length s0"
      by (rule le_less_trans [OF le(4) lt], rule le_less_trans [OF le(5) lt])
    note IH = 1(1) [OF Cons] 1(2) [OF Cons]
    from 1(3,4) Cons lt lt2 le(1-3) num num' show ?thesis
      by (subst (asm) Scan.simps)
        (auto simp: Let_def split: if_splits prod.splits dest!: IH [rotated -2] intro: le_less_trans less_trans)
  qed
qed

lemma Scan_rest_le: "length (snd (snd (Scan s))) \<le> length s"
proof (cases "Scan s")
  case (fields t x r)
  show ?thesis
  proof (cases "t = TEOF")
    case True
    with fields have "r = []" by (simp add: Scan_EOF_rest)
    with fields show ?thesis by simp
  next
    case False
    with fields show ?thesis using Scan_decreases [of s t x r] by simp
  qed
qed

section \<open>Scanning the text of an address or a number\<close>

text \<open>
  The texts that occur in a port specification consist of hexadecimal digits, dots and
  colons, and end before a colon, a closing bracket or the end of the input. No token of
  such a text reaches beyond its end, whatever the scanner makes of its digits.
\<close>

definition stopper :: "string \<Rightarrow> bool" where
  "stopper r \<longleftrightarrow> r = [] \<or> hd r = CHR '':'' \<or> hd r = CHR '']''"

lemma stopper_simps [simp]: "stopper []" "stopper (CHR '':'' # r)" "stopper (CHR '']'' # r)"
  by (simp_all add: stopper_def)

lemma dropWhile_stopper:
  "stopper r \<Longrightarrow> \<not> P (CHR '':'') \<Longrightarrow> \<not> P (CHR '']'') \<Longrightarrow> dropWhile P (w @ r) = dropWhile P w @ r"
  by (induction w) (cases r; auto simp: stopper_def)+

lemma next_is_stopper:
  "stopper r \<Longrightarrow> \<not> P (CHR '':'') \<Longrightarrow> \<not> P (CHR '']'') \<Longrightarrow> next_is P (w @ r) = next_is P w"
  by (cases w; cases r) (auto simp: stopper_def next_is_def)

lemma next_is_tl: "next_is P w \<Longrightarrow> tl (w @ r) = tl w @ r"
  by (cases w) (auto simp: next_is_def)

lemma hex_stoppers [simp]: "\<not> is_hex CHR '':''" "\<not> is_hex CHR '']''" "\<not> is_digit CHR '':''" "\<not> is_digit CHR '']''"
  "\<not> ident_part CHR '':''" "\<not> ident_part CHR '']''"
  by (simp_all add: is_hex_def hex_val_def is_digit_def ident_part_def ident_start_def is_letter_def)

lemma skip_digits_stopper: "stopper r \<Longrightarrow> skip_digits h (w @ r) = skip_digits h w @ r"
  by (cases h) (simp_all add: skip_digits_def dropWhile_stopper)

lemma skip_if_stopper:
  "stopper r \<Longrightarrow> \<not> P (CHR '':'') \<Longrightarrow> \<not> P (CHR '']'') \<Longrightarrow> skip_if P (w @ r) = skip_if P w @ r"
  by (auto simp: skip_if_def next_is_stopper next_is_tl)

lemma number_int_stopper:
  "stopper r \<Longrightarrow> number_int (w @ r) = (fst (number_int w), snd (number_int w) @ r)"
  by (auto simp: number_int_def Let_def next_is_stopper next_is_tl skip_digits_stopper)

lemma number_exp_stopper:
  "stopper r \<Longrightarrow> number_exp t (w @ r) = (fst (number_exp t w), snd (number_exp t w) @ r)"
  by (auto simp: number_exp_def next_is_stopper next_is_tl skip_digits_stopper skip_if_stopper)

lemma scanNumber_stopper:
  "stopper r \<Longrightarrow> scanNumber d (w @ r) = (fst (scanNumber d w), snd (scanNumber d w) @ r)"
  by (auto simp: scanNumber_def number_int_stopper number_exp_stopper skip_digits_stopper
      next_is_stopper next_is_tl split: prod.splits)

lemma suffix_skip_digits: "suffix (skip_digits h w) w"
  by (simp add: skip_digits_def suffix_dropWhile)

lemma suffix_skip_if: "suffix (skip_if P w) w"
  by (simp add: skip_if_def suffix_tl)

lemma suffix_number_exp: "suffix (snd (number_exp t w)) w"
proof -
  have "suffix (skip_digits False (skip_if P (tl w))) w" for P
    by (meson suffix_order.trans suffix_skip_digits suffix_skip_if suffix_tl)
  then show ?thesis by (simp add: number_exp_def)
qed

lemma suffix_number_int: "suffix (snd (number_int w)) w"
proof -
  have "suffix (skip_digits h (tl (tl w))) w" "suffix (skip_digits h (tl w)) w" for h
    by (meson suffix_order.trans suffix_skip_digits suffix_tl)+
  then show ?thesis by (auto simp: number_int_def Let_def suffix_skip_digits)
qed

lemma suffix_scanNumber: "suffix (snd (scanNumber d w)) w"
proof -
  obtain hex r where hr: "number_int w = (hex, r)" by fastforce
  then have r: "suffix r w" using suffix_number_int [of w] by simp
  have "suffix (skip_digits hex (tl r)) w"
    by (meson r suffix_order.trans suffix_skip_digits suffix_tl)
  then have "suffix (snd (number_exp TFloat (skip_digits hex (tl r)))) w"
    by (rule suffix_order.trans [OF suffix_number_exp])
  moreover have "suffix (snd (number_exp TInt r)) w"
    by (rule suffix_order.trans [OF suffix_number_exp r])
  moreover have "suffix (snd (number_exp TFloat (skip_digits False w))) w"
    by (rule suffix_order.trans [OF suffix_number_exp suffix_skip_digits])
  ultimately show ?thesis using hr by (auto simp: scanNumber_def)
qed

lemma consumed_suffix: "suffix r w \<Longrightarrow> consumed (w @ z) (r @ z) @ r = w"
  by (auto simp: consumed_def suffix_def)

lemma addr_char_not_special:
  "addr_char c \<Longrightarrow> \<not> go_whitespace c \<and> c \<noteq> CHR 0x22 \<and> c \<noteq> CHR 0x27 \<and> c \<noteq> CHR ''/'' \<and> c \<noteq> CHR 0x60 \<and> c \<noteq> CHR ''['' \<and> c \<noteq> CHR '']''"
  by (auto simp: addr_char_def is_hex_def hex_val_def go_whitespace_def)

lemma number_tok: "fst (scanNumber d s) \<noteq> TChar c"
  by (auto simp: scanNumber_def number_exp_def split: prod.splits)

lemma Scan_word:
  assumes "list_all addr_char w" and "w \<noteq> []" and "stopper r"
  shows "\<exists>t x w'. Scan (w @ r) = (t, x, w' @ r) \<and> w = x @ w' \<and> x \<noteq> [] \<and> t \<noteq> TEOF
    \<and> (\<forall>c. t = TChar c \<longrightarrow> c \<in> set w)"
proof -
  obtain c cs where w: "w = c # cs" using assms(2) by (cases w) auto
  have c: "addr_char c" using assms(1) w by simp
  note ns = addr_char_not_special [OF c]
  have dw: "dropWhile go_whitespace (w @ r) = c # cs @ r" using ns w by simp
  consider (ident) "ident_start c" | (num) "\<not> ident_start c" "is_digit c"
    | (dot) "\<not> ident_start c" "\<not> is_digit c" "c = CHR ''.''" "next_is is_digit cs"
    | (chr) "\<not> ident_start c" "\<not> is_digit c" "\<not> (c = CHR ''.'' \<and> next_is is_digit cs)" by blast
  then show ?thesis
  proof cases
    case ident
    let ?w = "dropWhile ident_part cs"
    have "Scan (w @ r) = (TIdent, consumed (w @ r) (?w @ r), ?w @ r)"
      using dw ident assms(3) by (subst Scan.simps) (simp add: w dropWhile_stopper Let_def)
    moreover have "suffix ?w w" by (metis suffix_dropWhile suffix_ConsI w)
    ultimately show ?thesis
      using consumed_suffix [of ?w w r] w length_dropWhile_le [of ident_part cs]
      by (auto simp: consumed_def)
  next
    case num
    let ?w = "snd (scanNumber False w)"
    have "Scan (w @ r) = (fst (scanNumber False w), consumed (w @ r) (?w @ r), ?w @ r)"
      using dw num assms(3) scanNumber_stopper [OF assms(3), of False w]
      by (subst Scan.simps) (simp add: w)
    moreover have "length ?w < length w" using length_scanNumber [OF num(2), of False cs] w by simp
    ultimately show ?thesis
      using consumed_suffix [OF suffix_scanNumber [of False w], of r] number_tok [of False w] scanNumber_not_EOF [of False w]
      by (auto simp: consumed_def)
  next
    case dot
    let ?w = "snd (scanNumber True cs)"
    obtain d ds where cs: "cs = d # ds" and d: "is_digit d" using dot(4) by (cases cs) (auto simp: next_is_def)
    have "next_is is_digit (cs @ r)" using cs d by (simp add: next_is_def)
    then have "Scan (w @ r) = (fst (scanNumber True cs), consumed (w @ r) (?w @ r), ?w @ r)"
      using dw dot ns assms(3) scanNumber_stopper [OF assms(3), of True cs]
      by (subst Scan.simps) (simp add: w)
    moreover have "suffix ?w w" by (metis suffix_scanNumber suffix_ConsI w)
    moreover have "length ?w < length w" using length_scanNumber [OF d, of True ds] w cs by simp
    ultimately show ?thesis
      using consumed_suffix [of ?w w r] number_tok [of True cs] scanNumber_not_EOF [of True cs]
      by (auto simp: consumed_def)
  next
    case chr
    have "next_is is_digit (cs @ r) = next_is is_digit cs" using assms(3) by (simp add: next_is_stopper)
    then have "Scan (w @ r) = (TChar c, [c], cs @ r)"
      using dw chr ns by (subst Scan.simps) (auto simp: w)
    then show ?thesis using w by auto
  qed
qed

lemma Scan_colon: "Scan (CHR '':'' # s) = (TChar CHR '':'', '':'', s)"
  by (subst Scan.simps) (simp add: go_whitespace_def ident_start_def is_letter_def is_digit_def)

lemma Scan_open: "Scan (CHR ''['' # s) = (TChar CHR ''['', ''['', s)"
  by (subst Scan.simps) (simp add: go_whitespace_def ident_start_def is_letter_def is_digit_def)

lemma Scan_close: "Scan (CHR '']'' # s) = (TChar CHR '']'', '']'', s)"
  by (subst Scan.simps) (simp add: go_whitespace_def ident_start_def is_letter_def is_digit_def)

lemmas Scan_delim = Scan_colon Scan_open Scan_close

lemma Scan_Nil [simp]: "Scan [] = (TEOF, [], [])"
  by (subst Scan.simps) simp

end
