(* ===== verification/Portutil.thy ===== *)
theory Portutil
  imports Port Go_Scanner
begin

text \<open>
  \<^verbatim>\<open>pkg/port/portutil\<close>: parsing and validation of port specifications. The parser cuts
  the protocol and the child port off the end, then scans what is left token by token
  into the parts parent IP, parent port and child IP, with square brackets around IPv6
  addresses.
\<close>

definition validateProto :: "string \<Rightarrow> unit res" where
  "validateProto proto =
     (if proto \<in> {''tcp'', ''tcp4'', ''tcp6'', ''udp'', ''udp4'', ''udp6'', ''sctp'', ''sctp4'', ''sctp6''}
      then Inr () else Inl (Errorf ''unknown proto: %q'' [proto]))"

text \<open>
  The scan loop: \<open>index\<close> is the part being filled, \<open>delim\<close> the delimiter in force
  (a colon, or a closing bracket inside an IPv6 address), \<open>parts\<close> the five parts.
  After a closing bracket the next token is skipped whatever it is. \<^const>\<open>None\<close> is the
  error return of the loop.
\<close>

function scan_loop :: "nat \<Rightarrow> char \<Rightarrow> string list \<Rightarrow> string \<Rightarrow> string list option" where
  "scan_loop index delim parts s =
     (case Scan s of
        (t, tx, r) \<Rightarrow>
          if t = TEOF then Some parts
          else if 3 < index then None
          else if t = TChar CHR ''['' then scan_loop index (CHR '']'') parts r
          else if t = TChar delim then
            (if delim = CHR '']''
             then scan_loop (Suc index) (CHR '':'') parts (snd (snd (Scan r)))
             else scan_loop (Suc index) delim parts r)
          else scan_loop index delim (parts[index := parts ! index @ tx]) r)"
  by pat_completeness auto
termination
proof (relation "measure (\<lambda>(index, delim, parts, s). length s)", goal_cases)
  case 1
  show ?case by simp
next
  case (2 index delim parts s t y tx r)
  then show ?case using Scan_decreases [of s t tx r] by simp
next
  case (3 index delim parts s t y tx r)
  then have "length r < length s" using Scan_decreases [of s t tx r] by simp
  with Scan_rest_le [of r] show ?case by simp
next
  case (4 index delim parts s t y tx r)
  then show ?case using Scan_decreases [of s t tx r] by simp
next
  case (5 index delim parts s t y tx r)
  then show ?case using Scan_decreases [of s t tx r] by simp
qed

declare scan_loop.simps [simp del]

definition ParsePortSpec :: "string \<Rightarrow> Spec res" where
  "ParsePortSpec portSpec =
     (case LastIndex portSpec CHR ''/'' of
        None \<Rightarrow> Inl (Errorf ''missing proto in PortSpec string: %q'' [portSpec])
      | Some protoPos \<Rightarrow>
          (let proto = drop (protoPos + 1) portSpec in
           case validateProto proto of
             Inl e \<Rightarrow> Inl (Wrapf ''invalid PortSpec string: %q: %w'' [portSpec] e)
           | Inr _ \<Rightarrow>
               (case LastIndex portSpec CHR '':'' of
                  None \<Rightarrow> Inl (Errorf ''unexpected PortSpec string: %q'' [portSpec])
                | Some portPos \<Rightarrow>
                    (let childPort0 = take (protoPos - (portPos + 1)) (drop (portPos + 1) portSpec) in
                     case scan_loop 0 (CHR '':'') [[], [], [], childPort0, proto] (take portPos portSpec) of
                       None \<Rightarrow> Inl (Errorf ''unexpected PortSpec string: %q'' [portSpec])
                     | Some parts \<Rightarrow>
                         if parts ! 0 \<noteq> [] \<and> ParseIP (parts ! 0) = nil_IP
                         then Inl (Errorf ''unexpected ParentIP in PortSpec string: %q'' [portSpec])
                         else if parts ! 2 \<noteq> [] \<and> ParseIP (parts ! 2) = nil_IP
                         then Inl (Errorf ''unexpected ParentIP in PortSpec string: %q'' [portSpec])
                         else
                           (case strconv_Atoi (parts ! 1) of
                              Inl e \<Rightarrow> Inl (Wrapf ''unexpected ChildPort in PortSpec string: %q: %w'' [portSpec] e)
                            | Inr pp \<Rightarrow>
                                (case strconv_Atoi (parts ! 3) of
                                   Inl e \<Rightarrow> Inl (Wrapf ''unexpected ParentPort in PortSpec string: %q: %w'' [portSpec] e)
                                 | Inr cp \<Rightarrow>
                                     Inr \<lparr>Proto = proto, ParentIP = parts ! 0, ParentPort = pp,
                                          ChildPort = cp, ChildIP = parts ! 2\<rparr>))))))"

text \<open>
  \<^verbatim>\<open>ValidatePortSpec\<close>; \<open>existing\<close> lists the ports of the driver in the order in which
  the map iteration meets them.
\<close>

definition conflicts :: "Spec \<Rightarrow> Spec \<Rightarrow> bool" where
  "conflicts sp spec \<longleftrightarrow>
     Proto sp = Proto spec \<and> ParentIP sp = ParentIP spec \<and> ParentPort sp = ParentPort spec"

fun find_conflict :: "Spec \<Rightarrow> port_table \<Rightarrow> unit res" where
  "find_conflict spec [] = Inr ()"
| "find_conflict spec ((i, p) # ps) =
     (if conflicts (St_Spec p) spec then Inl (Errorf ''conflict with ID %d'' [strconv_Itoa i])
      else find_conflict spec ps)"

definition ValidatePortSpec :: "Spec \<Rightarrow> port_table \<Rightarrow> unit res" where
  "ValidatePortSpec spec existing =
     (case validateProto (Proto spec) of
        Inl e \<Rightarrow> Inl e
      | Inr _ \<Rightarrow>
          if ParentIP spec \<noteq> [] \<and> ParseIP (ParentIP spec) = nil_IP
          then Inl (Errorf ''invalid ParentIP: %q'' [ParentIP spec])
          else if ChildIP spec \<noteq> [] \<and> ParseIP (ChildIP spec) = nil_IP
          then Inl (Errorf ''invalid ChildIP: %q'' [ChildIP spec])
          else if ParentPort spec \<le> 0 \<or> 65535 < ParentPort spec
          then Inl (Errorf ''invalid ParentPort: %q'' [strconv_Itoa (ParentPort spec)])
          else if ChildPort spec \<le> 0 \<or> 65535 < ChildPort spec
          then Inl (Errorf ''invalid ChildPort: %q'' [strconv_Itoa (ChildPort spec)])
          else find_conflict spec existing)"

section \<open>Validation\<close>

definition valid_protos :: "string set" where
  "valid_protos = {''tcp'', ''tcp4'', ''tcp6'', ''udp'', ''udp4'', ''udp6'', ''sctp'', ''sctp4'', ''sctp6''}"

definition valid_ip_text :: "string \<Rightarrow> bool" where
  "valid_ip_text s \<longleftrightarrow> s = [] \<or> ParseIP s \<noteq> nil_IP"

definition valid_port :: "int \<Rightarrow> bool" where
  "valid_port p \<longleftrightarrow> 1 \<le> p \<and> p \<le> 65535"

lemma validateProto_iff: "validateProto p = Inr u \<longleftrightarrow> p \<in> valid_protos"
  by (auto simp: validateProto_def valid_protos_def)

lemma find_conflict_ok: "find_conflict spec m = Inr u \<longleftrightarrow> (\<forall>p\<in>set m. \<not> conflicts (St_Spec (snd p)) spec)"
  by (induction spec m rule: find_conflict.induct) auto

lemma find_conflict_err: "find_conflict spec m = Inl e \<Longrightarrow>
  \<exists>i p. (i, p) \<in> set m \<and> conflicts (St_Spec p) spec \<and> e = Errorf ''conflict with ID %d'' [strconv_Itoa i]"
  by (induction spec m rule: find_conflict.induct) (auto split: if_splits)

lemma ValidatePortSpec_valid:
  "ValidatePortSpec spec existing = Inr u \<longleftrightarrow>
     Proto spec \<in> valid_protos \<and> valid_ip_text (ParentIP spec) \<and> valid_ip_text (ChildIP spec) \<and>
     valid_port (ParentPort spec) \<and> valid_port (ChildPort spec) \<and>
     \<not> (\<exists>p. p \<in> snd ` set existing \<and> conflicts (St_Spec p) spec)"
proof (cases "Proto spec \<in> valid_protos")
  case True
  then have "validateProto (Proto spec) = Inr ()" by (simp add: validateProto_iff)
  with True show ?thesis
    by (auto simp: ValidatePortSpec_def find_conflict_ok valid_ip_text_def valid_port_def)
next
  case False
  then have "\<exists>e. validateProto (Proto spec) = Inl e"
    by (metis old.sum.exhaust validateProto_iff)
  with False show ?thesis by (auto simp: ValidatePortSpec_def)
qed

lemma ValidatePortSpec_ok: "ValidatePortSpec spec m = Inr u \<Longrightarrow>
  Proto spec \<in> valid_protos \<and> valid_ip_text (ParentIP spec) \<and> valid_ip_text (ChildIP spec) \<and>
  valid_port (ParentPort spec) \<and> valid_port (ChildPort spec) \<and> (\<forall>p\<in>set m. \<not> conflicts (St_Spec (snd p)) spec)"
  by (auto simp: ValidatePortSpec_valid)

text \<open>A table in which no two entries stand for the same socket.\<close>

definition no_conflicts :: "port_table \<Rightarrow> bool" where
  "no_conflicts m \<longleftrightarrow> (\<forall>p\<in>set m. \<forall>q\<in>set m. conflicts (St_Spec (snd p)) (St_Spec (snd q)) \<longrightarrow> fst p = fst q)"

lemma conflicts_sym: "conflicts a b \<longleftrightarrow> conflicts b a"
  by (auto simp: conflicts_def)

lemma no_conflicts_put:
  assumes "no_conflicts m" and "i \<notin> set (keys m)" and "ValidatePortSpec (St_Spec st) m = Inr u"
  shows "no_conflicts (map_put i st m)"
proof -
  have "\<not> conflicts (St_Spec (snd p)) (St_Spec st)" "\<not> conflicts (St_Spec st) (St_Spec (snd p))"
    if "p \<in> set m" for p
    using ValidatePortSpec_ok [OF assms(3)] that by (simp_all add: conflicts_sym [of "St_Spec st"])
  then show ?thesis
    using assms(1) unfolding no_conflicts_def set_map_put_fresh [OF assms(2)] by simp
qed

lemma no_conflicts_del: "no_conflicts m \<Longrightarrow> no_conflicts (map_del i m)"
  by (simp add: no_conflicts_def set_map_del)


section \<open>Parsing\<close>

definition bracket :: "string \<Rightarrow> string" where
  "bracket ip = (if CHR '':'' \<in> set ip then ''['' @ ip @ '']'' else ip)"

text \<open>
  The documented format: parent address, parent port, optional child address, child port
  and protocol, IPv6 addresses in brackets.
\<close>

definition FormatPortSpec :: "Spec \<Rightarrow> string" where
  "FormatPortSpec sp =
     bracket (ParentIP sp) @ '':'' @ strconv_Itoa (ParentPort sp) @
     (if ChildIP sp = [] then [] else '':'' @ bracket (ChildIP sp)) @
     '':'' @ strconv_Itoa (ChildPort sp) @ ''/'' @ Proto sp"

lemma scan_loop_word:
  assumes "list_all addr_char w" and "stopper r" and "index \<le> 3" and "index < length parts"
    and "delim = CHR '']'' \<or> delim = CHR '':'' \<and> CHR '':'' \<notin> set w"
  shows "scan_loop index delim parts (w @ r) = scan_loop index delim (parts[index := parts ! index @ w]) r"
  using assms
proof (induction w arbitrary: parts rule: length_induct)
  case (1 w)
  show ?case
  proof (cases "w = []")
    case True
    then show ?thesis by simp
  next
    case False
    obtain t x w' where sc: "Scan (w @ r) = (t, x, w' @ r)" and w: "w = x @ w'" and x: "x \<noteq> []"
      and t: "t \<noteq> TEOF" "\<And>c. t = TChar c \<Longrightarrow> c \<in> set w"
      using Scan_word [OF 1(2) False 1(3)] by blast
    have wc: "c \<in> set w \<Longrightarrow> addr_char c" for c using 1(2) by (simp add: list_all_iff)
    have nt: "t \<noteq> TChar CHR ''[''" "t \<noteq> TChar delim"
      using t(2) wc addr_char_not_special 1(6) by blast+
    let ?p = "parts[index := parts ! index @ x]"
    have "scan_loop index delim parts (w @ r) = scan_loop index delim ?p (w' @ r)"
      using sc t(1) nt 1(4) by (subst scan_loop.simps) simp
    also have "\<dots> = scan_loop index delim (?p[index := ?p ! index @ w']) r"
      using 1 w x by (auto simp: list_all_iff)
    also have "?p[index := ?p ! index @ w'] = parts[index := parts ! index @ w]"
      using 1(5) w by simp
    finally show ?thesis .
  qed
qed

lemma scan_loop_colon:
  "index \<le> 3 \<Longrightarrow> scan_loop index (CHR '':'') parts (CHR '':'' # s) = scan_loop (Suc index) (CHR '':'') parts s"
  by (subst scan_loop.simps) (simp add: Scan_delim)

lemma scan_loop_open:
  "index \<le> 3 \<Longrightarrow> scan_loop index d parts (CHR ''['' # s) = scan_loop index (CHR '']'') parts s"
  by (subst scan_loop.simps) (simp add: Scan_delim)

lemma scan_loop_close_colon:
  "index \<le> 3 \<Longrightarrow> scan_loop index (CHR '']'') parts (CHR '']'' # CHR '':'' # s) = scan_loop (Suc index) (CHR '':'') parts s"
  by (subst scan_loop.simps) (simp add: Scan_delim)

lemma scan_loop_close_end:
  "index \<le> 3 \<Longrightarrow> scan_loop index (CHR '']'') parts [CHR '']''] = Some parts"
  by (subst scan_loop.simps) (simp add: Scan_delim, subst scan_loop.simps, simp)

lemma scan_loop_end [simp]: "scan_loop index d parts [] = Some parts"
  by (subst scan_loop.simps) simp

text \<open>One address followed by a colon, or at the end of the scanned text.\<close>

lemma scan_loop_ip_colon:
  assumes "list_all addr_char ip" and "index \<le> 3" and "index < length parts"
  shows "scan_loop index (CHR '':'') parts (bracket ip @ CHR '':'' # s) =
    scan_loop (Suc index) (CHR '':'') (parts[index := parts ! index @ ip]) s"
  using assms by (simp add: bracket_def scan_loop_open scan_loop_word scan_loop_close_colon scan_loop_colon)

lemma scan_loop_ip_end:
  assumes "list_all addr_char ip" and "index \<le> 3" and "index < length parts"
  shows "scan_loop index (CHR '':'') parts (bracket ip) = Some (parts[index := parts ! index @ ip])"
proof (cases "CHR '':'' \<in> set ip")
  case True
  with assms show ?thesis
    by (simp add: bracket_def scan_loop_open scan_loop_word scan_loop_close_end)
next
  case False
  with assms scan_loop_word [of ip "[]" index parts "CHR '':''"] show ?thesis
    by (simp add: bracket_def)
qed

lemma valid_ip_text_chars: "valid_ip_text s \<Longrightarrow> list_all addr_char s"
  by (auto simp: valid_ip_text_def dest: ParseIP_chars)

lemma Itoa_addr_chars: "0 \<le> i \<Longrightarrow> list_all addr_char (strconv_Itoa i)"
  by (auto simp: list_all_iff addr_char_def dest!: Itoa_nonneg_digits is_digit_is_hex)

lemma Itoa_no_delim: "CHR '':'' \<notin> set (strconv_Itoa i)" "CHR ''/'' \<notin> set (strconv_Itoa i)"
  by (auto dest!: Itoa_chars simp: is_digit_def)

lemma valid_protos_no_delim:
  assumes "p \<in> valid_protos"
  shows "CHR '':'' \<notin> set p" and "CHR ''/'' \<notin> set p"
  using assms by (auto simp: valid_protos_def)

definition spec_head :: "Spec \<Rightarrow> string" where
  "spec_head sp = bracket (ParentIP sp) @ '':'' @ strconv_Itoa (ParentPort sp) @
     (if ChildIP sp = [] then [] else '':'' @ bracket (ChildIP sp))"

lemma scan_loop_spec_head:
  assumes "list_all addr_char (ParentIP sp)" and "list_all addr_char (ChildIP sp)" and "0 \<le> ParentPort sp"
  shows "scan_loop 0 (CHR '':'') [[], [], [], cp, pr] (spec_head sp) =
    Some [ParentIP sp, strconv_Itoa (ParentPort sp), ChildIP sp, cp, pr]"
proof -
  let ?pp = "strconv_Itoa (ParentPort sp)"
  note pp = Itoa_addr_chars [OF assms(3)] Itoa_no_delim(1)
  have "scan_loop 0 (CHR '':'') [[], [], [], cp, pr] (spec_head sp) =
    scan_loop 1 (CHR '':'') [ParentIP sp, [], [], cp, pr]
      (?pp @ (if ChildIP sp = [] then [] else '':'' @ bracket (ChildIP sp)))"
    using assms(1) by (simp add: spec_head_def scan_loop_ip_colon)
  also have "\<dots> = scan_loop 1 (CHR '':'') [ParentIP sp, ?pp, [], cp, pr]
      (if ChildIP sp = [] then [] else '':'' @ bracket (ChildIP sp))"
    using pp by (subst scan_loop_word) auto
  also have "\<dots> = Some [ParentIP sp, ?pp, ChildIP sp, cp, pr]"
    using assms(2) by (auto simp: scan_loop_colon scan_loop_ip_end)
  finally show ?thesis .
qed

text \<open>C11: round trip of the documented format. Every specification with a known protocol,
  addresses that are empty or parse and non-negative ports is parsed back from its text,
  with IPv6 addresses in brackets and the child address left out when it is empty.\<close>

theorem ParsePortSpec_format:
  assumes "Proto sp \<in> valid_protos" and "valid_ip_text (ParentIP sp)" and "valid_ip_text (ChildIP sp)"
    and "0 \<le> ParentPort sp" "int64_ok (ParentPort sp)" "0 \<le> ChildPort sp" "int64_ok (ChildPort sp)"
  shows "ParsePortSpec (FormatPortSpec sp) = Inr sp"
proof -
  let ?cp = "strconv_Itoa (ChildPort sp)"
  have ftext: "FormatPortSpec sp = spec_head sp @ CHR '':'' # ?cp @ CHR ''/'' # Proto sp"
    by (simp add: FormatPortSpec_def spec_head_def)
  note nd = valid_protos_no_delim [OF assms(1)] Itoa_no_delim
  have slash: "LastIndex (FormatPortSpec sp) CHR ''/'' = Some (length (spec_head sp) + 1 + length ?cp)"
    using LastIndex_append [of "CHR ''/''" "Proto sp" "spec_head sp @ CHR '':'' # ?cp"] nd by (simp add: ftext)
  have colon: "LastIndex (FormatPortSpec sp) CHR '':'' = Some (length (spec_head sp))"
    using LastIndex_append [of "CHR '':''" "?cp @ CHR ''/'' # Proto sp" "spec_head sp"] nd by (simp add: ftext)
  have proto: "validateProto (Proto sp) = Inr ()" using assms(1) by (simp add: validateProto_iff)
  have cut: "drop (length (spec_head sp) + 1 + length ?cp + 1) (FormatPortSpec sp) = Proto sp"
    "take (length (spec_head sp)) (FormatPortSpec sp) = spec_head sp"
    "drop (length (spec_head sp) + 1) (FormatPortSpec sp) = ?cp @ CHR ''/'' # Proto sp"
    by (simp_all add: ftext)
  have ips: "list_all addr_char (ParentIP sp)" "list_all addr_char (ChildIP sp)"
    using assms(2,3) by (simp_all add: valid_ip_text_chars)
  have "\<not> (ParentIP sp \<noteq> [] \<and> ParseIP (ParentIP sp) = nil_IP)"
    "\<not> (ChildIP sp \<noteq> [] \<and> ParseIP (ChildIP sp) = nil_IP)"
    using assms(2,3) by (auto simp: valid_ip_text_def)
  then show ?thesis unfolding ParsePortSpec_def slash colon
    using assms(5,7) by (simp add: Let_def cut proto scan_loop_spec_head [OF ips assms(4)] Atoi_Itoa numeral_2_eq_2 numeral_3_eq_3 del: One_nat_def)
qed

theorem ParsePortSpec_format_witness:
  "ParsePortSpec (FormatPortSpec \<lparr>Proto = ''udp'', ParentIP = ''::1'', ParentPort = 8080, ChildPort = 80, ChildIP = ''10.0.2.100''\<rparr>)
     = Inr \<lparr>Proto = ''udp'', ParentIP = ''::1'', ParentPort = 8080, ChildPort = 80, ChildIP = ''10.0.2.100''\<rparr>"
proof (rule ParsePortSpec_format)
  show "valid_ip_text (ParentIP \<lparr>Proto = ''udp'', ParentIP = ''::1'', ParentPort = 8080, ChildPort = 80, ChildIP = ''10.0.2.100''\<rparr>)"
    by code_simp
  show "valid_ip_text (ChildIP \<lparr>Proto = ''udp'', ParentIP = ''::1'', ParentPort = 8080, ChildPort = 80, ChildIP = ''10.0.2.100''\<rparr>)"
    by code_simp
qed (simp_all add: valid_protos_def int64_ok_def)

lemma ParsePortSpec_typed:
  assumes "ParsePortSpec s = Inr sp"
  shows "Proto sp \<in> valid_protos \<and> valid_ip_text (ParentIP sp) \<and> valid_ip_text (ChildIP sp) \<and>
    int64_ok (ParentPort sp) \<and> int64_ok (ChildPort sp) \<and>
    (\<exists>protoPos portPos. LastIndex s CHR ''/'' = Some protoPos \<and> LastIndex s CHR '':'' = Some portPos \<and>
       portPos < protoPos \<and> Proto sp = drop (protoPos + 1) s)"
proof -
  obtain i where i: "LastIndex s CHR ''/'' = Some i"
    using assms by (cases "LastIndex s CHR ''/''") (auto simp: ParsePortSpec_def simp del: LastIndex_None)
  have p: "validateProto (drop (i + 1) s) = Inr ()"
    using assms i by (cases "validateProto (drop (i + 1) s)") (auto simp: ParsePortSpec_def Let_def)
  obtain j where j: "LastIndex s CHR '':'' = Some j"
    using assms i p by (cases "LastIndex s CHR '':''") (auto simp: ParsePortSpec_def Let_def simp del: LastIndex_None)
  have ji: "j < i"
  proof (rule ccontr)
    assume "\<not> j < i"
    with LastIndex_Some [OF i] LastIndex_Some [OF j] have "j < length s" "s ! j = CHR '':''" "i < j"
      by (auto simp: not_less le_less)
    then have "drop (i + 1) s ! (j - (i + 1)) = CHR '':''" "j - (i + 1) < length (drop (i + 1) s)"
      by auto
    then have "CHR '':'' \<in> set (drop (i + 1) s)" by (metis nth_mem)
    with p show False by (simp add: validateProto_iff valid_protos_no_delim(1))
  qed
  show ?thesis using assms i j p ji
    by (auto simp: ParsePortSpec_def Let_def validateProto_iff valid_ip_text_def dest: Atoi_int64_ok
        split: option.splits sum.splits if_splits)
qed



text \<open>A defect of the parser. The documentation allows four or five components, but the
  scan loop only refuses a token once the index is past the child port, so a sixth
  component is not refused: its text is appended to the child port that was cut off
  before, and port 80 becomes port 809.\<close>

theorem ParsePortSpec_extra_component:
  "ParsePortSpec ''0.0.0.0:1:2.2.2.2:9:80/tcp'' =
     Inr \<lparr>Proto = ''tcp'', ParentIP = ''0.0.0.0'', ParentPort = 1, ChildPort = 809, ChildIP = ''2.2.2.2''\<rparr>"
  by code_simp

end
