(* ===== verification/Builtin_Msg.thy ===== *)
theory Builtin_Msg
  imports Port Lowlevelmsgutil
begin

text \<open>
  \<^verbatim>\<open>pkg/port/builtin/msg\<close>: the requests that the parent half of the builtin port driver
  sends to its child half over a UNIX socket, and the reply that carries a file descriptor.
  A connection is a record of the outcomes of its system calls: what \<^verbatim>\<open>Write\<close>,
  \<^verbatim>\<open>CloseWrite\<close> and \<^verbatim>\<open>CloseRead\<close> return, the chunks that \<^verbatim>\<open>Read\<close> sees and the results of
  the successive \<^verbatim>\<open>ReadMsgUnix\<close> calls. The parsers of control messages belong to
  \<^verbatim>\<open>golang.org/x/sys/unix\<close> and are parameters.
\<close>

record Request =
  rq_Type :: string
  rq_Proto :: string
  rq_IP :: string
  rq_Port :: int
  rq_ParentIP :: string
  rq_HostGatewayIP :: string
  rq_SourceIP :: string
  rq_SourcePort :: int

record Reply =
  rp_Error :: string

definition RequestTypeInit :: string where
  "RequestTypeInit = ''init''"

definition RequestTypeConnect :: string where
  "RequestTypeConnect = ''connect''"

definition zero_Request :: Request where
  "zero_Request = \<lparr>rq_Type = [], rq_Proto = [], rq_IP = [], rq_Port = 0, rq_ParentIP = [],
     rq_HostGatewayIP = [], rq_SourceIP = [], rq_SourcePort = 0\<rparr>"

text \<open>The two last fields have \<^verbatim>\<open>omitempty\<close>.\<close>

definition enc_Request :: "Request \<Rightarrow> json" where
  "enc_Request r =
     JObj ([(''Type'', JStr (rq_Type r)), (''Proto'', JStr (rq_Proto r)), (''IP'', JStr (rq_IP r)),
            (''Port'', enc_int (rq_Port r)), (''ParentIP'', JStr (rq_ParentIP r)),
            (''HostGatewayIP'', JStr (rq_HostGatewayIP r))] @
           (if rq_SourceIP r = [] then [] else [(''SourceIP'', JStr (rq_SourceIP r))]) @
           (if rq_SourcePort r = 0 then [] else [(''SourcePort'', enc_int (rq_SourcePort r))]))"

definition dec_Request :: "json \<Rightarrow> Request res" where
  "dec_Request j =
     (case j of
        JNull \<Rightarrow> Inr zero_Request
      | JObj ms \<Rightarrow>
          (case (get_str ''Type'' ms, get_str ''Proto'' ms, get_str ''IP'' ms, get_int ''Port'' ms,
                 get_str ''ParentIP'' ms, get_str ''HostGatewayIP'' ms, get_str ''SourceIP'' ms,
                 get_int ''SourcePort'' ms) of
             (Inr t, Inr p, Inr ip, Inr pt, Inr pip, Inr hg, Inr sip, Inr sp) \<Rightarrow>
               Inr \<lparr>rq_Type = t, rq_Proto = p, rq_IP = ip, rq_Port = pt, rq_ParentIP = pip,
                    rq_HostGatewayIP = hg, rq_SourceIP = sip, rq_SourcePort = sp\<rparr>
           | _ \<Rightarrow> Inl type_error)
      | _ \<Rightarrow> Inl type_error)"

definition enc_Reply :: "Reply \<Rightarrow> json" where
  "enc_Reply r = JObj [(''Error'', JStr (rp_Error r))]"

definition dec_Reply :: "json \<Rightarrow> Reply res" where
  "dec_Reply j =
     (case j of
        JNull \<Rightarrow> Inr \<lparr>rp_Error = []\<rparr>
      | JObj ms \<Rightarrow> (case get_str ''Error'' ms of Inl e \<Rightarrow> Inl e | Inr s \<Rightarrow> Inr \<lparr>rp_Error = s\<rparr>)
      | _ \<Rightarrow> Inl type_error)"

record UnixConn =
  uc_Write :: "string \<Rightarrow> nat res"
  uc_CloseWrite :: "unit res"
  uc_Read :: reader
  uc_ReadMsg :: "string res list"
  uc_CloseRead :: "unit res"

text \<open>A writer that keeps what was written.\<close>

definition conn_writer :: "UnixConn \<Rightarrow> string writer" where
  "conn_writer c bs sent = (case uc_Write c bs of Inl e \<Rightarrow> (Inl e, sent) | Inr n \<Rightarrow> (Inr n, sent @ bs))"

definition Initiate :: "UnixConn \<Rightarrow> string \<times> unit res" where
  "Initiate c =
     (case MarshalToWriter (conn_writer c) (enc_Request (zero_Request\<lparr>rq_Type := RequestTypeInit\<rparr>)) [] of
        (Inl e, sent) \<Rightarrow> (sent, Inl e)
      | (Inr _, sent) \<Rightarrow>
          (case uc_CloseWrite c of
             Inl e \<Rightarrow> (sent, Inl e)
           | Inr _ \<Rightarrow>
               (case UnmarshalFromReader dec_Reply (uc_Read c) of
                  (_, Inl e, _) \<Rightarrow> (sent, Inl e)
                | (_, Inr rep, _) \<Rightarrow> (sent, uc_CloseRead c))))"

datatype net_addr = IPNet IP | OtherNetAddr

text \<open>\<open>addrs\<close> is the result of \<^verbatim>\<open>net.InterfaceAddrs\<close>.\<close>

fun first_gateway :: "net_addr list \<Rightarrow> string" where
  "first_gateway [] = []"
| "first_gateway (a # as) =
     (case a of
        IPNet ip \<Rightarrow> if \<not> IsLoopback ip \<and> To4 ip \<noteq> [] then IP_String ip else first_gateway as
      | OtherNetAddr \<Rightarrow> first_gateway as)"

definition hostGatewayIP :: "net_addr list res \<Rightarrow> string" where
  "hostGatewayIP addrs = (case addrs of Inl e \<Rightarrow> [] | Inr as \<Rightarrow> first_gateway as)"

datatype source_addr = TCPAddr IP int | OtherAddr | NilAddr

definition connect_request :: "net_addr list res \<Rightarrow> Spec \<Rightarrow> source_addr \<Rightarrow> Request" where
  "connect_request addrs spec src =
     (let req = zero_Request\<lparr>rq_Type := RequestTypeConnect, rq_Proto := Proto spec,
                             rq_Port := ChildPort spec, rq_IP := ChildIP spec, rq_ParentIP := ParentIP spec,
                             rq_HostGatewayIP := hostGatewayIP addrs\<rparr>
      in case src of
           TCPAddr ip port \<Rightarrow> req\<lparr>rq_SourceIP := IP_String ip, rq_SourcePort := port\<rparr>
         | _ \<Rightarrow> req)"

definition EINTR :: err where
  "EINTR = Sys ''interrupted system call''"

text \<open>
  The loop around \<^verbatim>\<open>ReadMsgUnix\<close>: it repeats while the call is interrupted. \<^const>\<open>None\<close> means
  that the call still blocks after the results given.
\<close>

fun read_oob :: "string res list \<Rightarrow> string res option" where
  "read_oob [] = None"
| "read_oob (r # rs) = (if r = Inl EINTR then read_oob rs else Some r)"

definition parseFDFromOOB ::
  "(string \<Rightarrow> 'scm list res) \<Rightarrow> ('scm \<Rightarrow> int list res) \<Rightarrow> string \<Rightarrow> int res" where
  "parseFDFromOOB parse_scm parse_rights oob =
     (case parse_scm oob of
        Inl e \<Rightarrow> Inl e
      | Inr [scm] \<Rightarrow>
          (case parse_rights scm of
             Inl e \<Rightarrow> Inl e
           | Inr [fd] \<Rightarrow> Inr fd
           | Inr _ \<Rightarrow> Inl (New ''unexpected fds''))
      | Inr _ \<Rightarrow> Inl (New ''unexpected scms''))"

text \<open>\<open>space\<close> is \<^verbatim>\<open>unix.CmsgSpace(4)\<close>. The result is the bytes written and the descriptor, the
  error, or \<^const>\<open>None\<close> while the read blocks.\<close>

definition ConnectToChild ::
  "(string \<Rightarrow> 'scm list res) \<Rightarrow> ('scm \<Rightarrow> int list res) \<Rightarrow> nat \<Rightarrow> net_addr list res \<Rightarrow>
   UnixConn \<Rightarrow> Spec \<Rightarrow> source_addr \<Rightarrow> string \<times> int res option" where
  "ConnectToChild parse_scm parse_rights space addrs c spec src =
     (case MarshalToWriter (conn_writer c) (enc_Request (connect_request addrs spec src)) [] of
        (Inl e, sent) \<Rightarrow> (sent, Some (Inl e))
      | (Inr _, sent) \<Rightarrow>
          (case uc_CloseWrite c of
             Inl e \<Rightarrow> (sent, Some (Inl e))
           | Inr _ \<Rightarrow>
               (case read_oob (uc_ReadMsg c) of
                  None \<Rightarrow> (sent, None)
                | Some (Inl e) \<Rightarrow> (sent, Some (Inl e))
                | Some (Inr oob) \<Rightarrow>
                    if length oob \<noteq> space
                    then (sent, Some (Inl (Errorf ''expected OOB space %d, got %d'' [nat_text space, nat_text (length oob)])))
                    else
                      (case parseFDFromOOB parse_scm parse_rights oob of
                         Inl e \<Rightarrow> (sent, Some (Inl e))
                       | Inr fd \<Rightarrow>
                           (case uc_CloseRead c of
                              Inl e \<Rightarrow> (sent, Some (Inl e))
                            | Inr _ \<Rightarrow> (sent, Some (Inr fd)))))))"

definition ConnectToChildWithSocketPath ::
  "(string \<Rightarrow> 'scm list res) \<Rightarrow> ('scm \<Rightarrow> int list res) \<Rightarrow> nat \<Rightarrow> net_addr list res \<Rightarrow>
   (string \<Rightarrow> UnixConn res) \<Rightarrow> string \<Rightarrow> Spec \<Rightarrow> source_addr \<Rightarrow> int res option" where
  "ConnectToChildWithSocketPath parse_scm parse_rights space addrs dial socketPath spec src =
     (case dial socketPath of
        Inl e \<Rightarrow> Some (Inl e)
      | Inr c \<Rightarrow> snd (ConnectToChild parse_scm parse_rights space addrs c spec src))"

text \<open>
  The retry loop; \<open>attempt i\<close> is the result of the call to \<open>ConnectToChildWithSocketPath\<close> in
  round \<open>i\<close>. The result comes with the milliseconds slept in each round.
\<close>

function retry_loop :: "(int \<Rightarrow> int res) \<Rightarrow> int \<Rightarrow> int \<Rightarrow> int res \<times> int list" where
  "retry_loop attempt retries i =
     (if i < retries then
        (case attempt i of
           Inl e \<Rightarrow>
             if i = retries - 1 then (Inl e, [])
             else (case retry_loop attempt retries (i + 1) of (r, sl) \<Rightarrow> (r, i * 5 # sl))
         | Inr fd \<Rightarrow> (Inr fd, []))
      else (Inl (New ''reached max retry''), []))"
  by pat_completeness auto
termination
  by (relation "measure (\<lambda>(attempt, retries, i). nat (retries - i))") auto

declare retry_loop.simps [simp del]

definition ConnectToChildWithRetry :: "(int \<Rightarrow> int res) \<Rightarrow> int \<Rightarrow> int res \<times> int list" where
  "ConnectToChildWithRetry attempt retries = retry_loop attempt retries 0"

section \<open>Requests on the wire\<close>

lemma lower_request_names:
  "map ToLower [''Type'', ''Proto'', ''IP'', ''Port'', ''ParentIP'', ''HostGatewayIP'', ''SourceIP'', ''SourcePort'', ''Error'']
     = [''type'', ''proto'', ''ip'', ''port'', ''parentip'', ''hostgatewayip'', ''sourceip'', ''sourceport'', ''error'']"
  by code_simp

lemmas lower_request_name = lower_request_names [simplified list.map list.inject]

lemma wf_enc_Request [simp]: "wf_json (enc_Request r)"
  by (simp add: enc_Request_def)

lemma dec_enc_Request:
  assumes "int64_ok (rq_Port r)" and "int64_ok (rq_SourcePort r)"
  shows "dec_Request (enc_Request r) = Inr r"
proof -
  obtain ms where ms: "enc_Request r = JObj ms" by (simp add: enc_Request_def)
  note d = enc_Request_def lower_request_name last_member_append
  have "get_str ''Type'' ms = Inr (rq_Type r)" "get_str ''Proto'' ms = Inr (rq_Proto r)"
    "get_str ''IP'' ms = Inr (rq_IP r)" "get_str ''ParentIP'' ms = Inr (rq_ParentIP r)"
    "get_str ''HostGatewayIP'' ms = Inr (rq_HostGatewayIP r)"
    using ms by (auto simp: d intro!: get_str_enc)
  moreover have "get_int ''Port'' ms = Inr (rq_Port r)"
    using ms assms(1) by (auto simp: d intro!: get_int_enc)
  moreover have "get_str ''SourceIP'' ms = Inr (rq_SourceIP r)"
    using ms by (auto simp: d get_str_def)
  moreover have "get_int ''SourcePort'' ms = Inr (rq_SourcePort r)"
    using ms assms(2) by (auto simp: d get_int_def enc_int_def Atoi_Itoa)
  ultimately show ?thesis unfolding ms dec_Request_def by simp
qed

text \<open>What the child reads is what the parent meant. When the parent has written its
  connect request on the UNIX socket, the bytes on the socket decode to a request that
  carries the protocol, child address, child port and parent address of the port
  specification, the gateway address of the host, and the client address for TCP.\<close>

theorem ConnectToChild_request:
  assumes "\<And>bs. uc_Write c bs = Inr (length bs)"
    and "int64_ok (ChildPort spec)" and "\<And>ip p. src = TCPAddr ip p \<Longrightarrow> int64_ok p"
    and "length (print_json (enc_Request (connect_request addrs spec src))) \<le> maxLength"
  shows "fst (snd (UnmarshalFromReader dec_Request (NewReader (fst (ConnectToChild ps pr sp addrs c spec src)))))
    = Inr (connect_request addrs spec src)"
proof -
  let ?r = "connect_request addrs spec src"
  have fit: "fits (enc_Request ?r)" using assms(4) by (simp add: fits_def)
  have "fst (ConnectToChild ps pr sp addrs c spec src) = frame (enc_Request ?r)"
    using MarshalToWriter_frame [OF fit, of "conn_writer c" "[]"] assms(1)
    by (simp add: ConnectToChild_def conn_writer_def split: sum.splits option.splits)
  moreover have "frame (enc_Request ?r) \<noteq> []"
    using print_json_not_Nil [of "enc_Request ?r"] by (simp add: frame_def)
  moreover have "int64_ok (rq_Port ?r)" "int64_ok (rq_SourcePort ?r)"
    using assms(2,3) by (auto simp: connect_request_def zero_Request_def int64_ok_def Let_def split: source_addr.splits)
  ultimately show ?thesis
    using UnmarshalFromReader_last [OF fit, of dec_Request "[]"] dec_enc_Request [of ?r]
    by (simp add: NewReader_def)
qed

theorem ConnectToChild_request_witness:
  "fst (snd (UnmarshalFromReader dec_Request (NewReader (fst (ConnectToChild
      (\<lambda>oob. Inr [oob]) (\<lambda>scm. Inr [7]) 24 (Inr [])
      \<lparr>uc_Write = (\<lambda>bs. Inr (length bs)), uc_CloseWrite = Inr (), uc_Read = [], uc_ReadMsg = [], uc_CloseRead = Inr ()\<rparr>
      \<lparr>Proto = ''tcp'', ParentIP = [], ParentPort = 8080, ChildPort = 80, ChildIP = []\<rparr> NilAddr)))))
   = Inr (connect_request (Inr []) \<lparr>Proto = ''tcp'', ParentIP = [], ParentPort = 8080, ChildPort = 80, ChildIP = []\<rparr> NilAddr)"
proof (rule ConnectToChild_request)
  have "length (print_json (enc_Request (connect_request (Inr [])
    \<lparr>Proto = ''tcp'', ParentIP = [], ParentPort = 8080, ChildPort = 80, ChildIP = []\<rparr> NilAddr))) \<le> 200"
    by code_simp
  then show "length (print_json (enc_Request (connect_request (Inr [])
    \<lparr>Proto = ''tcp'', ParentIP = [], ParentPort = 8080, ChildPort = 80, ChildIP = []\<rparr> NilAddr))) \<le> maxLength"
    by (simp add: maxLength_def)
qed (simp_all add: int64_ok_def)

section \<open>Retries\<close>

lemma retry_loop_all_fail:
  "i < retries \<Longrightarrow> (\<And>j. i \<le> j \<Longrightarrow> j < retries \<Longrightarrow> isl (attempt j)) \<Longrightarrow>
   retry_loop attempt retries i = (Inl (projl (attempt (retries - 1))), map (\<lambda>j. j * 5) [i..retries - 2])"
proof (induction attempt retries i rule: retry_loop.induct)
  case (1 attempt retries i)
  obtain e where e: "attempt i = Inl e" using 1(2) 1(3) [of i] by (auto simp: isl_def)
  show ?case
  proof (cases "i = retries - 1")
    case True
    then show ?thesis using e 1(2) by (subst retry_loop.simps) simp
  next
    case False
    with 1(2) have up: "[i..retries - 2] = i # [i + 1..retries - 2]" by (simp add: upto_rec1)
    have "retry_loop attempt retries (i + 1) = (Inl (projl (attempt (retries - 1))), map (\<lambda>j. j * 5) [i + 1..retries - 2])"
      using 1(1) [OF 1(2) e False] 1(2,3) False by simp
    then show ?thesis using e False 1(2) up by (subst retry_loop.simps) simp
  qed
qed

lemma retry_loop_first_success:
  "i \<le> k \<Longrightarrow> k < retries \<Longrightarrow> attempt k = Inr fd \<Longrightarrow> (\<And>j. i \<le> j \<Longrightarrow> j < k \<Longrightarrow> isl (attempt j)) \<Longrightarrow>
   retry_loop attempt retries i = (Inr fd, map (\<lambda>j. j * 5) [i..k - 1])"
proof (induction attempt retries i rule: retry_loop.induct)
  case (1 attempt retries i)
  show ?case
  proof (cases "i = k")
    case True
    then show ?thesis using 1(3,4) by (subst retry_loop.simps) simp
  next
    case False
    then have lt: "i < k" "i < retries" "i \<noteq> retries - 1" using 1(2,3) by auto
    obtain e where e: "attempt i = Inl e" using 1(5) [of i] lt by (auto simp: isl_def)
    have up: "[i..k - 1] = i # [i + 1..k - 1]" using lt by (simp add: upto_rec1)
    have "retry_loop attempt retries (i + 1) = (Inr fd, map (\<lambda>j. j * 5) [i + 1..k - 1])"
      using 1(1) [OF lt(2) e lt(3)] 1(3-5) lt by simp
    then show ?thesis using e lt up by (subst retry_loop.simps) simp
  qed
qed

text \<open>The retry loop returns a descriptor exactly when one of the first \<open>retries\<close>
  attempts succeeds; it is the one of the first success, no attempt is made after it, and the
  loop has slept 0, 5, 10, ... milliseconds before it. When all fail, the error of the last
  attempt is returned.\<close>

theorem ConnectToChildWithRetry_outcome:
  assumes "0 < retries"
  shows "(\<exists>k. 0 \<le> k \<and> k < retries \<and> (\<forall>j. 0 \<le> j \<and> j < k \<longrightarrow> isl (attempt j)) \<and>
            (\<exists>fd. attempt k = Inr fd \<and> ConnectToChildWithRetry attempt retries = (Inr fd, map (\<lambda>j. j * 5) [0..k - 1])))
    \<or> ((\<forall>j. 0 \<le> j \<and> j < retries \<longrightarrow> isl (attempt j)) \<and>
        (\<exists>e. attempt (retries - 1) = Inl e \<and>
             ConnectToChildWithRetry attempt retries = (Inl e, map (\<lambda>j. j * 5) [0..retries - 2])))"
proof (cases "\<forall>j. 0 \<le> j \<and> j < retries \<longrightarrow> isl (attempt j)")
  case True
  then have "isl (attempt (retries - 1))" using assms by simp
  then obtain e where "attempt (retries - 1) = Inl e" by (auto simp: isl_def)
  moreover have "ConnectToChildWithRetry attempt retries
    = (Inl (projl (attempt (retries - 1))), map (\<lambda>j. j * 5) [0..retries - 2])"
    unfolding ConnectToChildWithRetry_def using True assms by (intro retry_loop_all_fail) auto
  ultimately show ?thesis using True by simp
next
  case False
  define P where "P n \<longleftrightarrow> int n < retries \<and> \<not> isl (attempt (int n))" for n
  from False obtain j where j: "0 \<le> j" "j < retries" "\<not> isl (attempt j)" by auto
  then have ex: "P (nat j)" by (simp add: P_def)
  define k where "k = (LEAST n. P n)"
  have Pk: "P k" unfolding k_def using ex by (rule LeastI)
  have min: "isl (attempt i)" if "0 \<le> i" "i < int k" for i
  proof (rule ccontr)
    assume "\<not> isl (attempt i)"
    with that Pk have "P (nat i)" by (simp add: P_def)
    with that show False using not_less_Least [of "nat i" P] by (simp add: k_def)
  qed
  obtain fd where fd: "attempt (int k) = Inr fd" using Pk by (auto simp: P_def isl_def split: sum.splits) (metis isl_def old.sum.exhaust)
  have "ConnectToChildWithRetry attempt retries = (Inr fd, map (\<lambda>j. j * 5) [0..int k - 1])"
    unfolding ConnectToChildWithRetry_def using Pk fd min
    by (intro retry_loop_first_success) (auto simp: P_def)
  then show ?thesis using Pk fd min by (intro disjI1 exI [of _ "int k"]) (auto simp: P_def)
qed

theorem ConnectToChildWithRetry_outcome_witness:
  "ConnectToChildWithRetry (\<lambda>i. if i < 2 then Inl EINTR else Inr 7) 10 = (Inr 7, [0, 5])"
proof -
  let ?a = "\<lambda>i::int. if i < 2 then Inl EINTR else Inr (7::int)"
  have "\<not> isl (?a 9)" by simp
  then obtain k fd where k: "0 \<le> k" "k < 10" "\<And>j. 0 \<le> j \<Longrightarrow> j < k \<Longrightarrow> isl (?a j)" "?a k = Inr fd"
    "ConnectToChildWithRetry ?a 10 = (Inr fd, map (\<lambda>j. j * 5) [0..k - 1])"
    using ConnectToChildWithRetry_outcome [of 10 ?a] by fastforce
  have "\<not> 2 < k" using k(3) [of 2] by auto
  moreover have "\<not> k < 2" "fd = 7" using k(4) by (auto split: if_splits)
  ultimately have "k = 2" "fd = 7" by simp_all
  with k(5) show ?thesis by (simp add: upto.simps)
qed

end
