(* ===== verification/Builtin_Parent.thy ===== *)
theory Builtin_Parent
  imports Portutil Builtin_Msg Go_Path "HOL-Library.Multiset"
begin

text \<open>
  \<^verbatim>\<open>pkg/port/builtin/parent\<close>: the parent half of the builtin port driver. The driver keeps
  the table of exposed ports, the functions that stop their listeners and the next id.
  Adding a port validates it under the lock, opens the listening socket without the lock and
  enters the port under the lock again; the step relation of the last section interleaves
  concurrent calls at these points.
\<close>

text \<open>
  A stopper is the closure over the channels of one listening goroutine; what calling it
  returns is decided by the environment.
\<close>

datatype routine = Routine Spec

record driver =
  socketPath :: string
  childReadyPipePath :: string
  sourceIPTransparent :: bool
  ports :: port_table
  stoppers :: "(int \<times> routine) list"
  nextID :: int

datatype stop_outcome =
    StoppedResult "err option"
  | StoppedChClosed
  | CtxDone

text \<open>
  The environment: sockets, the file with the first unprivileged port, the base name of the
  program, and how the goroutine of a port answers when it is stopped.
\<close>

record env =
  env_Listen :: "string \<Rightarrow> string \<Rightarrow> unit res"
  env_ResolveUDPAddr :: "string \<Rightarrow> string \<Rightarrow> string res"
  env_ListenUDP :: "string \<Rightarrow> string \<Rightarrow> unit res"
  env_port_start :: "string res"
  env_arg0 :: string
  env_stop :: "routine \<Rightarrow> stop_outcome"

section \<open>Operations\<close>

text \<open>\<open>rm\<close> and \<open>mkfifo\<close> are the results of the two system calls.\<close>

definition NewDriver :: "string \<Rightarrow> bool \<Rightarrow> unit res \<Rightarrow> unit res \<Rightarrow> driver res" where
  "NewDriver stateDir transparent rm mkfifo =
     (let socketPath' = filepath_Join [stateDir, ''.bp.sock'']; pipe = filepath_Join [stateDir, ''.bp-ready.pipe''] in
      case rm of
        Inl e \<Rightarrow> Inl (Wrapf ''cannot remove %s: %w'' [pipe] e)
      | Inr _ \<Rightarrow>
          (case mkfifo of
             Inl e \<Rightarrow> Inl (Wrapf ''cannot mkfifo %s: %w'' [pipe] e)
           | Inr _ \<Rightarrow>
               Inr \<lparr>socketPath = socketPath', childReadyPipePath = pipe, sourceIPTransparent = transparent,
                    ports = [], stoppers = [], nextID = 1\<rparr>))"

definition Info :: "driver \<Rightarrow> PortDriverInfo" where
  "Info d = \<lparr>pdi_Driver = ''builtin'',
     pdi_Protos = [''tcp'', ''tcp4'', ''tcp6'', ''udp'', ''udp4'', ''udp6''],
     pdi_DisallowLoopbackChildIP = False\<rparr>"

definition OpaqueForChild :: "driver \<Rightarrow> (string \<times> string) list" where
  "OpaqueForChild d =
     (let m = [(''builtin.socketpath'', socketPath d), (''builtin.readypipepath'', childReadyPipePath d)] in
      if sourceIPTransparent d then map_put ''builtin.source-ip-transparent'' ''true'' m else m)"

text \<open>
  \<^verbatim>\<open>RunParentDriver\<close>: wait for the ready pipe of the child to be closed, dial the child and
  initiate. The flag says whether \<^verbatim>\<open>initComplete\<close> was signalled; after that the call
  returns nil when \<^verbatim>\<open>quit\<close> is closed.
\<close>

definition RunParentDriver :: "driver \<Rightarrow> (string \<Rightarrow> unit res) \<Rightarrow> unit res \<Rightarrow> (string \<Rightarrow> UnixConn res) \<Rightarrow> bool \<times> unit res" where
  "RunParentDriver d open_pipe read_all dial =
     (case open_pipe (childReadyPipePath d) of
        Inl e \<Rightarrow> (False, Inl e)
      | Inr _ \<Rightarrow>
          (case read_all of
             Inl e \<Rightarrow> (False, Inl e)
           | Inr _ \<Rightarrow>
               (case dial (socketPath d) of
                  Inl e \<Rightarrow> (False, Inl e)
                | Inr conn \<Rightarrow>
                    (case snd (Initiate conn) of
                       Inl e \<Rightarrow> (False, Inl e)
                     | Inr _ \<Rightarrow> (True, Inr ())))))"

definition EPERM :: err where
  "EPERM = Sys ''operation not permitted''"

definition isEPERM :: "err \<Rightarrow> bool" where
  "isEPERM e \<longleftrightarrow> errors_Is e EPERM \<or> Contains (err_text e) ''permission denied''"

definition annotateEPERM :: "env \<Rightarrow> err \<Rightarrow> Spec \<Rightarrow> err" where
  "annotateEPERM env origErr spec =
     (case env_port_start env of
        Inl e \<Rightarrow> origErr
      | Inr b \<Rightarrow>
          (case strconv_Atoi (TrimSpace b) of
             Inl e \<Rightarrow> origErr
           | Inr start \<Rightarrow>
               if start \<le> ParentPort spec then origErr
               else
                 (let p = strconv_Itoa (ParentPort spec);
                      text = ''cannot expose privileged port '' @ p @
                        '', you can add 'net.ipv4.ip_unprivileged_port_start='' @ p @
                        ''' to /etc/sysctl.conf (currently '' @ strconv_Itoa start @ '')'';
                      text = text @ (if env_arg0 env = ''rootlesskit''
                        then '', or set CAP_NET_BIND_SERVICE on rootlesskit binary'' else []);
                      text = text @ '', or choose a larger port number (>= '' @ strconv_Itoa start @ '')''
                  in Wrapf (text @ '': %w'') [] origErr)))"

definition tcp_Run :: "env \<Rightarrow> Spec \<Rightarrow> unit res" where
  "tcp_Run env spec = env_Listen env (Proto spec) (JoinHostPort (ParentIP spec) (strconv_Itoa (ParentPort spec)))"

definition udp_Run :: "env \<Rightarrow> Spec \<Rightarrow> unit res" where
  "udp_Run env spec =
     (case env_ResolveUDPAddr env (Proto spec) (JoinHostPort (ParentIP spec) (strconv_Itoa (ParentPort spec))) of
        Inl e \<Rightarrow> Inl e
      | Inr addr \<Rightarrow> env_ListenUDP env (Proto spec) addr)"

text \<open>The part of \<^verbatim>\<open>AddPort\<close> without the lock: dispatch on the protocol and listen.\<close>

definition add_listen :: "env \<Rightarrow> Spec \<Rightarrow> unit res" where
  "add_listen env spec =
     (let annotate = (\<lambda>r. case r of
            Inr u \<Rightarrow> Inr u
          | Inl e \<Rightarrow> Inl (if isEPERM e then annotateEPERM env e spec else e))
      in if Proto spec \<in> {''tcp'', ''tcp4'', ''tcp6''} then annotate (tcp_Run env spec)
         else if Proto spec \<in> {''udp'', ''udp4'', ''udp6''} then annotate (udp_Run env spec)
         else Inl (Errorf ''unsupported port protocol %s'' [Proto spec]))"

text \<open>The second critical section.\<close>

definition add_commit :: "driver \<Rightarrow> Spec \<Rightarrow> Status \<times> driver" where
  "add_commit d spec =
     (let i = nextID d; st = \<lparr>ID = i, St_Spec = spec\<rparr> in
      (st, d\<lparr>ports := map_put i st (ports d),
             stoppers := map_put i (Routine spec) (stoppers d),
             nextID := i + 1\<rparr>))"

definition AddPort :: "env \<Rightarrow> driver \<Rightarrow> Spec \<Rightarrow> Status res \<times> driver" where
  "AddPort env d spec =
     (case ValidatePortSpec spec (ports d) of
        Inl e \<Rightarrow> (Inl e, d)
      | Inr _ \<Rightarrow>
          (case add_listen env spec of
             Inl e \<Rightarrow> (Inl e, d)
           | Inr _ \<Rightarrow> (case add_commit d spec of (st, d') \<Rightarrow> (Inr st, d'))))"

definition ListPorts :: "driver \<Rightarrow> Status list" where
  "ListPorts d = map snd (ports d)"

definition routineStop :: "env \<Rightarrow> routine \<Rightarrow> unit res" where
  "routineStop env r =
     (case env_stop env r of
        StoppedResult None \<Rightarrow> Inr ()
      | StoppedResult (Some e) \<Rightarrow> Inl e
      | StoppedChClosed \<Rightarrow> Inl (New ''routineStoppedCh was closed without sending data?'')
      | CtxDone \<Rightarrow> Inl (Errorf ''timed out while waiting for routineStoppedCh after closing routineStopCh: %w'' [''%!w(<nil>)'']))"

definition RemovePort :: "env \<Rightarrow> driver \<Rightarrow> int \<Rightarrow> unit res \<times> driver" where
  "RemovePort env d i =
     (case map_of (stoppers d) i of
        None \<Rightarrow> (Inl (Errorf ''unknown id: %d'' [strconv_Itoa i]), d)
      | Some stop \<Rightarrow>
          (let err = routineStop env stop in
           (err, d\<lparr>stoppers := map_del i (stoppers d), ports := map_del i (ports d)\<rparr>)))"

section \<open>Invariant and the port manager contract\<close>

text \<open>
  Ports and stoppers have the same ids, all below the next id; every port was valid and has
  a protocol the driver supports.
\<close>

definition supported :: "string set" where
  "supported = {''tcp'', ''tcp4'', ''tcp6'', ''udp'', ''udp4'', ''udp6''}"

definition exposed_ok :: "Spec \<Rightarrow> bool" where
  "exposed_ok sp \<longleftrightarrow> Proto sp \<in> supported \<and> valid_ip_text (ParentIP sp) \<and> valid_ip_text (ChildIP sp) \<and>
     valid_port (ParentPort sp) \<and> valid_port (ChildPort sp)"

definition driver_inv :: "driver \<Rightarrow> bool" where
  "driver_inv d \<longleftrightarrow> wf_table (ports d) \<and> wf_map (stoppers d) \<and>
     set (keys (stoppers d)) = set (keys (ports d)) \<and>
     (\<forall>i\<in>set (keys (ports d)). 1 \<le> i \<and> i < nextID d) \<and> 1 \<le> nextID d \<and>
     (\<forall>p\<in>set (ports d). exposed_ok (St_Spec (snd p)))"

lemma add_listen_supported: "add_listen env spec = Inr u \<Longrightarrow> Proto spec \<in> supported"
  by (auto simp: add_listen_def supported_def Let_def split: if_splits)

lemma valid_and_listening:
  "ValidatePortSpec spec m = Inr u \<Longrightarrow> add_listen env spec = Inr v \<Longrightarrow> exposed_ok spec"
  using ValidatePortSpec_ok [of spec m] by (auto simp: exposed_ok_def dest: add_listen_supported)

lemma add_commit_inv:
  assumes "driver_inv d" and "exposed_ok spec"
  shows "driver_inv (snd (add_commit d spec))" and "nextID d \<notin> set (keys (ports d))"
proof -
  show fresh: "nextID d \<notin> set (keys (ports d))" using assms(1) by (auto simp: driver_inv_def)
  then show "driver_inv (snd (add_commit d spec))"
    using assms by (auto simp: driver_inv_def add_commit_def Let_def set_map_put_fresh)
qed

lemma AddPort_ok:
  assumes "driver_inv d" and "AddPort env d spec = (Inr st, d')"
  shows "driver_inv d' \<and> ID st \<notin> set (keys (ports d)) \<and> ports d' = map_put (ID st) st (ports d)"
proof -
  obtain u v where v: "ValidatePortSpec spec (ports d) = Inr u" "add_listen env spec = Inr v"
    and c: "add_commit d spec = (st, d')"
    using assms(2) by (auto simp: AddPort_def split: sum.splits prod.splits)
  note inv = add_commit_inv [OF assms(1) valid_and_listening [OF v]]
  show ?thesis using inv c by (auto simp: add_commit_def Let_def)
qed

lemma AddPort_err: "AddPort env d spec = (Inl e, d') \<Longrightarrow> d' = d"
  by (auto simp: AddPort_def split: sum.splits prod.splits)

lemma RemovePort_inv: "driver_inv d \<Longrightarrow> driver_inv (snd (RemovePort env d i))"
  by (auto simp: RemovePort_def driver_inv_def Let_def map_del_def keys_def split: option.splits
      intro: wf_table_del [unfolded map_del_def] wf_map_del [unfolded map_del_def])

lemma RemovePort_ports: "ports (snd (RemovePort env d i)) = ports d \<or> ports (snd (RemovePort env d i)) = map_del i (ports d)"
  by (auto simp: RemovePort_def Let_def split: option.splits)

lemma RemovePort_ok: "RemovePort env d i = (Inr u, d') \<Longrightarrow> ports d' = map_del i (ports d)"
  by (auto simp: RemovePort_def Let_def split: option.splits)

interpretation builtin: port_manager AddPort RemovePort ListPorts ports driver_inv "\<lambda>_ _. True"
proof
  fix d :: driver and e spec st d' er i u
  show "driver_inv d \<Longrightarrow> ListPorts d = map snd (ports d)" by (simp add: ListPorts_def)
  show "driver_inv d \<Longrightarrow> wf_table (ports d)" by (simp add: driver_inv_def)
  show "driver_inv d \<Longrightarrow> True \<Longrightarrow> AddPort e d spec = (Inr st, d') \<Longrightarrow>
      driver_inv d' \<and> ID st \<notin> set (keys (ports d)) \<and> ports d' = map_put (ID st) st (ports d)"
    using AddPort_ok by blast
  show "driver_inv d \<Longrightarrow> True \<Longrightarrow> AddPort e d spec = (Inl er, d') \<Longrightarrow> driver_inv d' \<and> ports d' = ports d"
    using AddPort_err by blast
  show "driver_inv d \<Longrightarrow> RemovePort e d i = (Inr u, d') \<Longrightarrow> driver_inv d' \<and> ports d' = map_del i (ports d)"
    using RemovePort_inv [of d e i] RemovePort_ok by fastforce
  show "driver_inv d \<Longrightarrow> RemovePort e d i = (Inl er, d') \<Longrightarrow>
      driver_inv d' \<and> (ports d' = ports d \<or> ports d' = map_del i (ports d))"
    using RemovePort_inv [of d e i] RemovePort_ports [of e d i] by fastforce
qed

text \<open>The table of the builtin driver after a call. A successful \<open>AddPort\<close> appends one
  status with a fresh id to what \<open>ListPorts\<close> returned before, a failed one changes nothing,
  and ids stay distinct.\<close>

theorem AddPort_ListPorts:
  assumes "driver_inv d"
  shows "(case AddPort env d spec of
            (Inr st, d') \<Rightarrow> ListPorts d' = ListPorts d @ [st] \<and> St_Spec st = spec \<and> ID st = nextID d \<and>
              distinct (map ID (ListPorts d'))
          | (Inl e, d') \<Rightarrow> d' = d)"
proof (cases "AddPort env d spec")
  case (Pair r d')
  show ?thesis
  proof (cases r)
    case (Inl e)
    with Pair show ?thesis using AddPort_err by simp
  next
    case (Inr st)
    with Pair have a: "AddPort env d spec = (Inr st, d')" by simp
    have "St_Spec st = spec \<and> ID st = nextID d"
      using a by (auto simp: AddPort_def add_commit_def Let_def split: sum.splits)
    moreover have "ListPorts d' = ListPorts d @ [st]" using builtin.list_after_add [OF assms _ a] by simp
    moreover have "distinct (map ID (ListPorts d'))"
      using AddPort_ok [OF assms a] builtin.list_ids_distinct by blast
    ultimately show ?thesis using Pair Inr by simp
  qed
qed

definition driver0 :: driver where
  "driver0 = \<lparr>socketPath = ''/s/.bp.sock'', childReadyPipePath = ''/s/.bp-ready.pipe'',
     sourceIPTransparent = False, ports = [], stoppers = [], nextID = 1\<rparr>"

definition env0 :: env where
  "env0 = \<lparr>env_Listen = (\<lambda>_ _. Inr ()), env_ResolveUDPAddr = (\<lambda>_ a. Inr a), env_ListenUDP = (\<lambda>_ _. Inr ()),
     env_port_start = Inr ''1024'', env_arg0 = ''rootlesskit'', env_stop = (\<lambda>_. StoppedResult None)\<rparr>"

definition spec0 :: Spec where
  "spec0 = \<lparr>Proto = ''tcp'', ParentIP = [], ParentPort = 8080, ChildPort = 80, ChildIP = []\<rparr>"

lemma driver0_inv: "driver_inv driver0"
  by (simp add: driver_inv_def driver0_def keys_def)

lemma NewDriver_inv: "NewDriver dir t rm mk = Inr d \<Longrightarrow> driver_inv d"
  by (auto simp: NewDriver_def driver_inv_def keys_def Let_def split: sum.splits)

lemma spec0_added: "AddPort env0 driver0 spec0 = (Inr \<lparr>ID = 1, St_Spec = spec0\<rparr>, snd (add_commit driver0 spec0))"
  by (simp add: AddPort_def ValidatePortSpec_def validateProto_def env0_def driver0_def spec0_def add_listen_def
      tcp_Run_def add_commit_def Let_def)

theorem AddPort_ListPorts_witness:
  "ListPorts (snd (AddPort env0 driver0 spec0)) = [\<lparr>ID = 1, St_Spec = spec0\<rparr>]"
  using AddPort_ListPorts [OF driver0_inv, of spec0 env0] spec0_added
  by (simp add: ListPorts_def driver0_def)

text \<open>Adding a port and removing it restores the listing, whatever the outcome of the two
  system calls was, as long as both calls report success; and a second removal of the same id
  fails with an unknown id.\<close>

theorem AddPort_RemovePort:
  assumes "driver_inv d" and "AddPort env d spec = (Inr st, d1)" and "RemovePort env' d1 (ID st) = (Inr u, d2)"
  shows "ListPorts d2 = ListPorts d \<and> fst (RemovePort env'' d2 (ID st)) = Inl (Errorf ''unknown id: %d'' [strconv_Itoa (ID st)])"
proof -
  have "ListPorts d2 = ListPorts d" using builtin.add_then_remove [OF assms(1) _ assms(2,3)] by simp
  moreover have "map_of (stoppers d2) (ID st) = None"
    using assms(3) by (auto simp: RemovePort_def Let_def split: option.splits)
  ultimately show ?thesis by (simp add: RemovePort_def)
qed

theorem AddPort_RemovePort_witness:
  "ListPorts (snd (RemovePort env0 (snd (AddPort env0 driver0 spec0)) 1)) = []"
proof -
  have a: "AddPort env0 driver0 spec0 = (Inr \<lparr>ID = 1, St_Spec = spec0\<rparr>, snd (add_commit driver0 spec0))"
    by (rule spec0_added)
  have r: "RemovePort env0 (snd (add_commit driver0 spec0)) (ID \<lparr>ID = 1, St_Spec = spec0\<rparr>) = (Inr (), driver0\<lparr>nextID := 2\<rparr>)"
    by (simp add: RemovePort_def add_commit_def driver0_def env0_def routineStop_def map_del_def Let_def)
  from AddPort_RemovePort [OF driver0_inv a r] a r show ?thesis by (simp add: ListPorts_def driver0_def)
qed

section \<open>Concurrent calls\<close>

text \<open>
  A configuration is the driver, the calls of \<open>AddPort\<close> in flight (with a flag once their
  socket listens) and the socket addresses in use. The kernel refuses to listen twice on the
  same protocol, address and port. A removal that times out leaves the socket open; its
  goroutine closes it later.
\<close>

type_synonym sock = "string \<times> string \<times> int"

definition sock_of :: "Spec \<Rightarrow> sock" where
  "sock_of sp = (Proto sp, ParentIP sp, ParentPort sp)"

record conf =
  drv :: driver
  pending :: "(Spec \<times> bool) multiset"
  bound :: "sock set"

inductive step :: "conf \<Rightarrow> conf \<Rightarrow> bool" where
  validate: "ValidatePortSpec sp (ports (drv c)) = Inr u \<Longrightarrow>
     step c (c\<lparr>pending := add_mset (sp, False) (pending c)\<rparr>)"
| listen: "(sp, False) \<in># pending c \<Longrightarrow> add_listen env sp = Inr u \<Longrightarrow> sock_of sp \<notin> bound c \<Longrightarrow>
     step c (c\<lparr>pending := add_mset (sp, True) (pending c - {#(sp, False)#}), bound := insert (sock_of sp) (bound c)\<rparr>)"
| listen_failed: "(sp, False) \<in># pending c \<Longrightarrow> add_listen env sp = Inl e \<Longrightarrow>
     step c (c\<lparr>pending := pending c - {#(sp, False)#}\<rparr>)"
| commit: "(sp, True) \<in># pending c \<Longrightarrow>
     step c (c\<lparr>drv := snd (add_commit (drv c) sp), pending := pending c - {#(sp, True)#}\<rparr>)"
| remove: "map_of (stoppers (drv c)) i = Some (Routine sp) \<Longrightarrow>
     step c (c\<lparr>drv := snd (RemovePort env (drv c) i),
               bound := (if env_stop env (Routine sp) = CtxDone then bound c else bound c - {sock_of sp})\<rparr>)"
| late_close: "k \<in> bound c \<Longrightarrow> k \<notin> sock_of ` (St_Spec \<circ> snd) ` set (ports (drv c)) \<Longrightarrow>
     k \<notin> sock_of ` fst ` {p. p \<in># pending c \<and> snd p} \<Longrightarrow>
     step c (c\<lparr>bound := bound c - {k}\<rparr>)"

inductive_cases stepE: "step c c'"

inductive reachable :: "conf \<Rightarrow> bool" where
  start: "NewDriver dir t rm mk = Inr d \<Longrightarrow> reachable \<lparr>drv = d, pending = {#}, bound = B\<rparr>"
| more: "reachable c \<Longrightarrow> step c c' \<Longrightarrow> reachable c'"

text \<open>The sockets held: those of the ports and those of the calls that listen.\<close>

definition port_socks :: "port_table \<Rightarrow> sock multiset" where
  "port_socks m = mset (map (sock_of \<circ> St_Spec \<circ> snd) m)"

definition call_socks :: "(Spec \<times> bool) multiset \<Rightarrow> sock multiset" where
  "call_socks P = image_mset (sock_of \<circ> fst) (filter_mset snd P)"

definition held :: "conf \<Rightarrow> sock multiset" where
  "held c = port_socks (ports (drv c)) + call_socks (pending c)"

text \<open>Every call in flight has been validated, and one that listens has a supported protocol.\<close>

definition calls_ok :: "(Spec \<times> bool) multiset \<Rightarrow> bool" where
  "calls_ok P \<longleftrightarrow> (\<forall>p\<in>#P. (\<exists>m u. ValidatePortSpec (fst p) m = Inr u) \<and> (snd p \<longrightarrow> exposed_ok (fst p)))"

definition conf_inv :: "conf \<Rightarrow> bool" where
  "conf_inv c \<longleftrightarrow> driver_inv (drv c) \<and>
     (\<forall>i sp. map_of (stoppers (drv c)) i = Some (Routine sp) \<longrightarrow> (\<exists>st. map_of (ports (drv c)) i = Some st \<and> St_Spec st = sp)) \<and>
     (\<forall>k. count (held c) k \<le> 1) \<and> set_mset (held c) \<subseteq> bound c \<and> calls_ok (pending c)"

lemma calls_ok_remove [simp]: "calls_ok P \<Longrightarrow> calls_ok (P - {#x#})"
  unfolding calls_ok_def by (blast dest: in_diffD)

lemma calls_ok_empty [simp]: "calls_ok {#}"
  by (simp add: calls_ok_def)

lemma calls_ok_add [simp]: "calls_ok (add_mset (sp, b) P) \<longleftrightarrow>
  (\<exists>m u. ValidatePortSpec sp m = Inr u) \<and> (b \<longrightarrow> exposed_ok sp) \<and> calls_ok P"
  by (auto simp: calls_ok_def)

lemma calls_okD: "calls_ok P \<Longrightarrow> (sp, b) \<in># P \<Longrightarrow> (\<exists>m u. ValidatePortSpec sp m = Inr u) \<and> (b \<longrightarrow> exposed_ok sp)"
  by (fastforce simp: calls_ok_def)

lemma distinct_count: "(\<And>k. count (mset xs) k \<le> 1) \<Longrightarrow> distinct xs"
proof (induction xs)
  case (Cons x xs)
  have "count (mset xs) k \<le> 1" for k using Cons.prems [of k] by (cases "x = k") (auto simp: count_mset_0_iff [THEN iffD2])
  moreover have "x \<notin> set xs" using Cons.prems [of x] by (simp add: count_mset_0_iff)
  ultimately show ?case using Cons.IH by simp
qed simp

lemma call_socks_simps [simp]:
  "call_socks (add_mset (sp, False) P) = call_socks P"
  "call_socks (add_mset (sp, True) P) = add_mset (sock_of sp) (call_socks P)"
  by (simp_all add: call_socks_def)

lemma call_socks_remove [simp]:
  "call_socks (P - {#(sp, False)#}) = call_socks P"
  by (cases "(sp, False) \<in># P") (auto dest!: multi_member_split simp: diff_single_trivial)

lemma call_socks_remove_listening:
  "(sp, True) \<in># P \<Longrightarrow> call_socks P = add_mset (sock_of sp) (call_socks (P - {#(sp, True)#}))"
  by (auto dest!: multi_member_split)

lemma port_socks_put: "i \<notin> set (keys m) \<Longrightarrow> port_socks (map_put i st m) = add_mset (sock_of (St_Spec st)) (port_socks m)"
  by (simp add: port_socks_def map_put_fresh)

lemma port_socks_del:
  "wf_map m \<Longrightarrow> map_of m i = Some st \<Longrightarrow> port_socks m = add_mset (sock_of (St_Spec st)) (port_socks (map_del i m))"
proof (induction m)
  case (Cons p m)
  obtain j v where p: "p = (j, v)" by fastforce
  show ?case
  proof (cases "j = i")
    case True
    with Cons.prems p have "map_del i m = m" by (intro map_del_fresh) (simp add: wf_map_def keys_def)
    with True Cons.prems p show ?thesis by (simp add: port_socks_def map_del_def)
  next
    case False
    with Cons p show ?thesis by (simp add: port_socks_def map_del_def wf_map_def keys_def)
  qed
qed simp

lemma conf_inv_count: "conf_inv c \<Longrightarrow> count (held c) k \<le> 1"
  unfolding conf_inv_def by blast

lemma inv_listen:
  assumes "conf_inv c" and "(sp, False) \<in># pending c" and "add_listen env sp = Inr u" and "sock_of sp \<notin> bound c"
  shows "conf_inv (c\<lparr>pending := add_mset (sp, True) (pending c - {#(sp, False)#}), bound := insert (sock_of sp) (bound c)\<rparr>)"
proof -
  let ?c = "c\<lparr>pending := add_mset (sp, True) (pending c - {#(sp, False)#}), bound := insert (sock_of sp) (bound c)\<rparr>"
  have held: "held ?c = add_mset (sock_of sp) (held c)" by (simp add: held_def)
  have new: "count (held c) (sock_of sp) = 0"
    using assms(1,4) by (auto simp: conf_inv_def not_in_iff [symmetric])
  obtain m v where v: "ValidatePortSpec sp m = Inr v"
    using assms(1,2) unfolding conf_inv_def by (meson calls_okD)
  have "exposed_ok sp" using v assms(3) by (rule valid_and_listening)
  then show ?thesis
    using assms(1) v new unfolding conf_inv_def held by auto
qed

lemma inv_commit:
  assumes "conf_inv c" and "(sp, True) \<in># pending c"
  shows "conf_inv (c\<lparr>drv := snd (add_commit (drv c) sp), pending := pending c - {#(sp, True)#}\<rparr>)"
proof -
  let ?c = "c\<lparr>drv := snd (add_commit (drv c) sp), pending := pending c - {#(sp, True)#}\<rparr>"
  have ok: "exposed_ok sp" and d: "driver_inv (drv c)" 
    using assms by (auto simp: conf_inv_def dest: calls_okD)
  note inv = add_commit_inv [OF d ok]
  have held: "held ?c = held c"
    using inv(2) call_socks_remove_listening [OF assms(2)]
    by (simp add: held_def add_commit_def Let_def port_socks_put)
  have fresh: "nextID (drv c) \<notin> set (keys (stoppers (drv c)))" using inv(2) d by (simp add: driver_inv_def)
  show ?thesis
    using assms(1) inv unfolding conf_inv_def held
    by (auto simp: add_commit_def Let_def)
qed

lemma inv_remove:
  assumes "conf_inv c" and "map_of (stoppers (drv c)) i = Some (Routine sp)"
  shows "conf_inv (c\<lparr>drv := snd (RemovePort env (drv c) i), bound := (if b then bound c else bound c - {sock_of sp})\<rparr>)"
proof -
  let ?c = "c\<lparr>drv := snd (RemovePort env (drv c) i), bound := (if b then bound c else bound c - {sock_of sp})\<rparr>"
  have d: "driver_inv (drv c)" using assms(1) by (simp add: conf_inv_def)
  obtain st where st: "map_of (ports (drv c)) i = Some st" "St_Spec st = sp"
    using assms by (auto simp: conf_inv_def)
  have wf: "wf_map (ports (drv c))" using d by (simp add: driver_inv_def wf_table_def)
  have held: "held c = add_mset (sock_of sp) (held ?c)"
    using port_socks_del [OF wf st(1)] st(2) assms(2) by (simp add: held_def RemovePort_def Let_def)
  have count: "count (held c) k \<le> 1" for k using assms(1) by (rule conf_inv_count)
  have less: "count (held ?c) k \<le> 1" for k using count [of k] unfolding held by (auto split: if_splits)
  have "count (held ?c) (sock_of sp) = 0" using count [of "sock_of sp"] unfolding held by simp
  then have "sock_of sp \<notin># held ?c" by (simp only: not_in_iff)
  then have sub: "set_mset (held ?c) \<subseteq> bound c - {sock_of sp}"
    using assms(1) unfolding conf_inv_def held by auto
  have "driver_inv (snd (RemovePort env (drv c) i))" using d by (rule RemovePort_inv)
  then show ?thesis
    using assms less sub unfolding conf_inv_def
    by (auto simp: RemovePort_def Let_def split: if_splits)
qed

lemma inv_step: "step c c' \<Longrightarrow> conf_inv c \<Longrightarrow> conf_inv c'"
proof (induction rule: step.induct)
  case (validate sp c u)
  then have "held (c\<lparr>pending := add_mset (sp, False) (pending c)\<rparr>) = held c" by (simp add: held_def)
  with validate show ?case by (auto simp: conf_inv_def)
next
  case (listen sp c env u)
  then show ?case by (rule inv_listen [rotated])
next
  case (listen_failed sp c env e)
  then have "held (c\<lparr>pending := pending c - {#(sp, False)#}\<rparr>) = held c" by (simp add: held_def)
  with listen_failed show ?case by (auto simp: conf_inv_def)
next
  case (commit sp c)
  then show ?case by (rule inv_commit [rotated])
next
  case (remove c i sp env)
  then show ?case by (rule inv_remove [rotated])
next
  case (late_close k c)
  have "k \<notin># held c"
    using late_close(2,3) by (auto simp: held_def port_socks_def call_socks_def image_image)
  moreover have "held (c\<lparr>bound := bound c - {k}\<rparr>) = held c" by (simp add: held_def)
  ultimately show ?case using late_close(4) by (auto simp: conf_inv_def)
qed

lemma inv_reachable: "reachable c \<Longrightarrow> conf_inv c"
proof (induction rule: reachable.induct)
  case (start dir t rm mk d B)
  then have "ports d = []" "stoppers d = []" by (auto simp: NewDriver_def Let_def split: sum.splits)
  with start show ?case by (auto simp: conf_inv_def held_def port_socks_def call_socks_def dest: NewDriver_inv)
next
  case (more c c')
  then show ?case using inv_step by blast
qed



end
