(* ===== verification/Builtin_Child.thy ===== *)
theory Builtin_Child
  imports Builtin_Parent
begin

text \<open>
  \<^verbatim>\<open>pkg/port/builtin/child\<close>: the child half of the builtin port driver. It accepts requests
  on a UNIX socket, dials the target inside the network namespace and sends the descriptor of
  the connection back. The environment gives the results of the external commands, of the
  two ways to dial and of the calls that send the descriptor; entering a detached network
  namespace belongs to a third-party package and is a parameter.
\<close>

record childDriver =
  cd_sourceIPTransparent :: bool
  routingSetup :: bool
  routingReady :: bool
  routingWarn :: bool

text \<open>
  The dialer of \<^verbatim>\<open>transparentDial\<close>: the timeout in milliseconds, the local address and the
  function that prepares the socket before it is bound. It is called with the network of the
  socket; \<open>raw\<close> is the result of \<^verbatim>\<open>RawConn.Control\<close> itself.
\<close>

definition transparent_control :: "unit res \<Rightarrow> (int \<Rightarrow> int \<Rightarrow> int \<Rightarrow> unit res) \<Rightarrow> string \<Rightarrow> unit res" where
  "transparent_control raw setsockopt network =
     (case raw of
        Inl e \<Rightarrow> Inl e
      | Inr _ \<Rightarrow>
          if Contains network ''6'' then setsockopt 41 75 1 \<comment> \<open>SOL_IPV6, IPV6_TRANSPARENT\<close>
          else setsockopt 0 19 1 \<comment> \<open>SOL_IP, IP_TRANSPARENT\<close>)"

record transparent_dialer =
  td_Timeout :: int
  td_LocalIP :: IP
  td_LocalPort :: int
  td_Control :: "unit res \<Rightarrow> (int \<Rightarrow> int \<Rightarrow> int \<Rightarrow> unit res) \<Rightarrow> string \<Rightarrow> unit res"

record cenv =
  ce_LookPath :: "string \<Rightarrow> unit res"
  ce_Command :: "string list \<Rightarrow> unit res"
  ce_Dial :: "string \<Rightarrow> string \<Rightarrow> unit res"
  ce_TransparentDial :: "transparent_dialer \<Rightarrow> string \<Rightarrow> string \<Rightarrow> unit res"
  ce_TargetFile :: "unit res"
  ce_ConnFile :: "unit res"
  ce_Sendmsg :: "unit res list"
  ce_WithNetNSPath :: "string \<Rightarrow> unit res"

definition NewDriver :: childDriver where
  "NewDriver = \<lparr>cd_sourceIPTransparent = False, routingSetup = False, routingReady = False, routingWarn = False\<rparr>"

section \<open>Policy routing for transparent sockets\<close>

definition routing_cmds :: "string list list" where
  "routing_cmds =
     [[''ip'', ''route'', ''add'', ''local'', ''default'', ''dev'', ''lo'', ''table'', ''100''],
      [''ip'', ''-6'', ''route'', ''add'', ''local'', ''default'', ''dev'', ''lo'', ''table'', ''100''],
      [''ip'', ''rule'', ''add'', ''fwmark'', ''100'', ''lookup'', ''100'', ''priority'', ''100''],
      [''ip'', ''-6'', ''rule'', ''add'', ''fwmark'', ''100'', ''lookup'', ''100'', ''priority'', ''100''],
      [''sysctl'', ''-w'', ''net.ipv4.tcp_fwmark_accept=1''],
      [''iptables'', ''-t'', ''mangle'', ''-A'', ''OUTPUT'', ''-p'', ''tcp'', ''-m'', ''addrtype'', ''!'', ''--src-type'', ''LOCAL'', ''-j'', ''CONNMARK'', ''--set-mark'', ''100''],
      [''ip6tables'', ''-t'', ''mangle'', ''-A'', ''OUTPUT'', ''-p'', ''tcp'', ''-m'', ''addrtype'', ''!'', ''--src-type'', ''LOCAL'', ''-j'', ''CONNMARK'', ''--set-mark'', ''100''],
      [''iptables'', ''-t'', ''mangle'', ''-A'', ''PREROUTING'', ''-p'', ''tcp'', ''-m'', ''connmark'', ''--mark'', ''100'', ''-j'', ''MARK'', ''--set-mark'', ''100''],
      [''ip6tables'', ''-t'', ''mangle'', ''-A'', ''PREROUTING'', ''-p'', ''tcp'', ''-m'', ''connmark'', ''--mark'', ''100'', ''-j'', ''MARK'', ''--set-mark'', ''100'']]"

text \<open>The commands run and the result; errors of the commands of the list are only logged.\<close>

definition setupTransparentRouting :: "cenv \<Rightarrow> string list list \<times> bool" where
  "setupTransparentRouting env =
     (case ce_LookPath env ''iptables'' of
        Inl e \<Rightarrow> ([], False)
      | Inr _ \<Rightarrow>
          (let probe = [''iptables'', ''-t'', ''mangle'', ''-L'', ''-n''] in
           case ce_Command env probe of
             Inl e \<Rightarrow> ([probe], False)
           | Inr _ \<Rightarrow> (probe # routing_cmds, True)))"

definition dialer_for :: "string \<Rightarrow> int \<Rightarrow> transparent_dialer" where
  "dialer_for sourceIP sourcePort =
     \<lparr>td_Timeout = 1000, td_LocalIP = ParseIP sourceIP, td_LocalPort = sourcePort, td_Control = transparent_control\<rparr>"

definition transparentDial :: "cenv \<Rightarrow> string \<Rightarrow> string \<Rightarrow> string \<Rightarrow> int \<Rightarrow> unit res" where
  "transparentDial env dialProto targetAddr sourceIP sourcePort =
     ce_TransparentDial env (dialer_for sourceIP sourcePort) dialProto targetAddr"

section \<open>Requests\<close>

definition dial_proto :: "string \<Rightarrow> string" where
  "dial_proto proto = TrimSuffix (TrimSuffix proto ''6'') ''4''"

definition target_ip :: "Request \<Rightarrow> string res" where
  "target_ip req =
     (if rq_IP req = [] then
        Inr (if rq_ParentIP req \<noteq> [] \<and> rq_ParentIP req \<noteq> rq_HostGatewayIP req \<and> rq_ParentIP req \<noteq> ''0.0.0.0''
             then rq_ParentIP req else ''127.0.0.1'')
      else if ParseIP (rq_IP req) = nil_IP then Inl (Errorf ''invalid IP: %q'' [rq_IP req])
      else Inr (IP_String (ParseIP (rq_IP req))))"

text \<open>The loop around \<^verbatim>\<open>Sendmsg\<close>; \<^const>\<open>None\<close>: the call has not returned.\<close>

fun send_loop :: "unit res list \<Rightarrow> unit res option" where
  "send_loop [] = None"
| "send_loop (r # rs) = (if r = Inl EINTR then send_loop rs else Some r)"

text \<open>
  What a request did: the new driver state, the commands run, the dials made and the result. A
  transparent dial comes with the local address it binds to, every dial with protocol and target.
\<close>

datatype dial = Transparent IP int string string | Plain string string

record served =
  sv_driver :: childDriver
  sv_cmds :: "string list list"
  sv_dials :: "dial list"
  sv_result :: "unit res option"

definition wants_transparent :: "childDriver \<Rightarrow> Request \<Rightarrow> bool" where
  "wants_transparent d req \<longleftrightarrow>
     cd_sourceIPTransparent d \<and> rq_SourceIP req \<noteq> [] \<and> rq_SourcePort req \<noteq> 0 \<and>
     dial_proto (rq_Proto req) = ''tcp'' \<and> \<not> IsLoopback (ParseIP (rq_SourceIP req))"

text \<open>The two \<^verbatim>\<open>sync.Once\<close> of the routing setup: the state after it, and the commands run.\<close>

definition routing_once :: "cenv \<Rightarrow> childDriver \<Rightarrow> childDriver \<times> string list list" where
  "routing_once env d =
     (let (d1, cmds) = (if routingSetup d then (d, [])
            else (case setupTransparentRouting env of
                    (cmds, ok) \<Rightarrow> (d\<lparr>routingSetup := True, routingReady := ok\<rparr>, cmds)))
      in (if routingReady d1 then d1 else d1\<lparr>routingWarn := True\<rparr>, cmds))"

definition send_target :: "cenv \<Rightarrow> unit res option" where
  "send_target env =
     (case ce_TargetFile env of
        Inl e \<Rightarrow> Some (Inl e)
      | Inr _ \<Rightarrow>
          (case ce_ConnFile env of
             Inl e \<Rightarrow> Some (Inl e)
           | Inr _ \<Rightarrow> send_loop (ce_Sendmsg env)))"

text \<open>The second half of \<^verbatim>\<open>handleConnectRequest\<close>: dial the target and send its descriptor.\<close>

definition dial_target :: "cenv \<Rightarrow> childDriver \<Rightarrow> Request \<Rightarrow> string \<Rightarrow> string \<Rightarrow> served" where
  "dial_target env d req dialProto targetAddr =
     (let (d1, cmds) = (if wants_transparent d req then routing_once env d else (d, []));
          try = (wants_transparent d req \<and> routingReady d1);
          tconn = (try \<and> \<not> isl (transparentDial env dialProto targetAddr (rq_SourceIP req) (rq_SourcePort req)));
          tdial = (if try then [Transparent (ParseIP (rq_SourceIP req)) (rq_SourcePort req) dialProto targetAddr] else [])
      in if tconn then \<lparr>sv_driver = d1, sv_cmds = cmds, sv_dials = tdial, sv_result = send_target env\<rparr>
         else
           \<lparr>sv_driver = d1, sv_cmds = cmds, sv_dials = tdial @ [Plain dialProto targetAddr],
            sv_result = (case ce_Dial env dialProto targetAddr of
                           Inl e \<Rightarrow> Some (Inl e)
                         | Inr _ \<Rightarrow> send_target env)\<rparr>)"

definition handleConnectRequest :: "cenv \<Rightarrow> childDriver \<Rightarrow> Request \<Rightarrow> served" where
  "handleConnectRequest env d req =
     (if rq_Proto req \<notin> {''tcp'', ''tcp4'', ''tcp6'', ''udp'', ''udp4'', ''udp6''}
      then \<lparr>sv_driver = d, sv_cmds = [], sv_dials = [], sv_result = Some (Inl (Errorf ''unknown proto: %q'' [rq_Proto req]))\<rparr>
      else
        (case target_ip req of
           Inl e \<Rightarrow> \<lparr>sv_driver = d, sv_cmds = [], sv_dials = [], sv_result = Some (Inl e)\<rparr>
         | Inr ip \<Rightarrow>
             dial_target env d req (dial_proto (rq_Proto req)) (JoinHostPort ip (strconv_Itoa (rq_Port req)))))"

text \<open>The answer to an init request is the JSON value null.\<close>

definition handleConnectInit :: "'w writer \<Rightarrow> 'w \<Rightarrow> unit res \<times> 'w" where
  "handleConnectInit wr w =
     (case MarshalToWriter wr JNull w of (Inl e, w') \<Rightarrow> (Inl e, w') | (Inr _, w') \<Rightarrow> (Inr (), w'))"

text \<open>
  \<^verbatim>\<open>routine\<close> and the goroutine around it: the reader and writer of the connection, the path of
  the detached network namespace. An error is sent back as a reply.
\<close>

definition routine :: "cenv \<Rightarrow> childDriver \<Rightarrow> string \<Rightarrow> reader \<Rightarrow> 'w writer \<Rightarrow> 'w \<Rightarrow> served \<times> 'w" where
  "routine env d nspath r wr w =
     (let none = \<lparr>sv_driver = d, sv_cmds = [], sv_dials = [], sv_result = None\<rparr> in
      case fst (snd (UnmarshalFromReader dec_Request r)) of
        Inl e \<Rightarrow> (none\<lparr>sv_result := Some (Inl e)\<rparr>, w)
      | Inr req \<Rightarrow>
          if rq_Type req = RequestTypeInit then
            (case handleConnectInit wr w of (res, w') \<Rightarrow> (none\<lparr>sv_result := Some res\<rparr>, w'))
          else if rq_Type req = RequestTypeConnect then
            (if nspath = [] then (handleConnectRequest env d req, w)
             else (case ce_WithNetNSPath env nspath of
                     Inl e \<Rightarrow> (none\<lparr>sv_result := Some (Inl e)\<rparr>, w)
                   | Inr _ \<Rightarrow> (handleConnectRequest env d req, w)))
          else (none\<lparr>sv_result := Some (Inl (Errorf ''unknown request type %q'' [rq_Type req]))\<rparr>, w))"

definition serve_conn :: "cenv \<Rightarrow> childDriver \<Rightarrow> string \<Rightarrow> reader \<Rightarrow> 'w writer \<Rightarrow> 'w \<Rightarrow> served \<times> 'w" where
  "serve_conn env d nspath r wr w =
     (case routine env d nspath r wr w of
        (sv, w1) \<Rightarrow>
          (case sv_result sv of
             Some (Inl rerr) \<Rightarrow> (sv, snd (MarshalToWriter wr (enc_Reply \<lparr>rp_Error = err_text rerr\<rparr>) w1))
           | _ \<Rightarrow> (sv, w1)))"

text \<open>
  The start of \<^verbatim>\<open>RunChildDriver\<close>: an error, or the driver that accepts connections. The socket
  listens before the ready pipe is closed, which is what releases the parent.
\<close>

datatype start_call = OpenPipe string | ListenUnix string | ClosePipe

definition RunChildDriver :: "(start_call \<Rightarrow> unit res) \<Rightarrow> childDriver \<Rightarrow> (string \<times> string) list \<Rightarrow> start_call list \<times> childDriver res" where
  "RunChildDriver sys d opq =
     (let get = (\<lambda>k. case map_of opq k of None \<Rightarrow> [] | Some v \<Rightarrow> v);
          d1 = d\<lparr>cd_sourceIPTransparent := get ''builtin.source-ip-transparent'' = ''true''\<rparr>;
          socketPath' = get ''builtin.socketpath''; pipe = get ''builtin.readypipepath''
      in if socketPath' = [] then ([], Inl (New ''socket path not set''))
         else if pipe = [] then ([], Inl (New ''child ready pipe path not set''))
         else
           (case sys (OpenPipe pipe) of
              Inl e \<Rightarrow> ([OpenPipe pipe], Inl e)
            | Inr _ \<Rightarrow>
                (case sys (ListenUnix socketPath') of
                   Inl e \<Rightarrow> ([OpenPipe pipe, ListenUnix socketPath'], Inl e)
                 | Inr _ \<Rightarrow>
                     (case sys ClosePipe of
                        Inl e \<Rightarrow> ([OpenPipe pipe, ListenUnix socketPath', ClosePipe], Inl e)
                      | Inr _ \<Rightarrow> ([OpenPipe pipe, ListenUnix socketPath', ClosePipe], Inr d1)))))"

section \<open>Properties\<close>

lemma fits_small: "wf_json j \<Longrightarrow> length (print_json j) \<le> 200 \<Longrightarrow> fits j"
  by (simp add: fits_def maxLength_def)

lemma fits_null: "fits JNull"
  by (simp add: fits_def maxLength_def)

lemma fits_init: "fits (enc_Request (zero_Request\<lparr>rq_Type := RequestTypeInit\<rparr>))"
  by (rule fits_small, simp, code_simp)

lemma dec_Request_init: "dec_Request (enc_Request (zero_Request\<lparr>rq_Type := RequestTypeInit\<rparr>)) = Inr (zero_Request\<lparr>rq_Type := RequestTypeInit\<rparr>)"
  by (rule dec_enc_Request) (simp_all add: zero_Request_def int64_ok_def)

lemma frame_reader: "fits j \<Longrightarrow> NewReader (frame j) = [frame j]"
  using print_json_not_Nil [of j] by (auto simp: NewReader_def frame_def fits_def)

lemma serve_init:
  "serve_conn env d ns (NewReader (frame (enc_Request (zero_Request\<lparr>rq_Type := RequestTypeInit\<rparr>)))) Buffer_Write [] =
     (\<lparr>sv_driver = d, sv_cmds = [], sv_dials = [], sv_result = Some (Inr ())\<rparr>, frame JNull)"
  by (simp add: serve_conn_def routine_def frame_reader [OF fits_init] UnmarshalFromReader_last [OF fits_init]
      dec_Request_init handleConnectInit_def MarshalToWriter_frame [OF fits_null] Buffer_Write_def)

text \<open>The two halves agree on the first exchange. The bytes that the parent writes to initiate
  are answered by the child, and the parent accepts the answer; the parent then signals that
  the driver is ready.\<close>

theorem init_exchange:
  assumes "\<And>bs. uc_Write c bs = Inr (length bs)" and "uc_CloseWrite c = Inr ()" and "uc_CloseRead c = Inr ()"
    and "uc_Read c = NewReader (snd (serve_conn env d ns (NewReader (fst (Initiate c))) Buffer_Write []))"
  shows "snd (Initiate c) = Inr () \<and>
    RunParentDriver pd (\<lambda>_. Inr ()) (Inr ()) (\<lambda>_. Inr c) = (True, Inr ())"
proof -
  let ?r = "enc_Request (zero_Request\<lparr>rq_Type := RequestTypeInit\<rparr>)"
  have sent: "fst (Initiate c) = frame ?r"
    using assms(1) by (simp add: Initiate_def MarshalToWriter_frame [OF fits_init] conn_writer_def
        split: sum.splits prod.splits)
  have "uc_Read c = [frame JNull]"
    using assms(4) unfolding sent serve_init by (simp add: frame_reader [OF fits_null])
  then have "snd (Initiate c) = Inr ()"
    using assms(1-3) UnmarshalFromReader_last [OF fits_null, of dec_Reply "[]"]
    by (simp add: Initiate_def MarshalToWriter_frame [OF fits_init] conn_writer_def dec_Reply_def)
  then show ?thesis by (simp add: RunParentDriver_def)
qed

definition cenv0 :: cenv where
  "cenv0 = \<lparr>ce_LookPath = (\<lambda>_. Inr ()), ce_Command = (\<lambda>_. Inr ()), ce_Dial = (\<lambda>_ _. Inr ()),
     ce_TransparentDial = (\<lambda>_ _ _. Inl EPERM), ce_TargetFile = Inr (), ce_ConnFile = Inr (),
     ce_Sendmsg = [Inl EINTR, Inr ()], ce_WithNetNSPath = (\<lambda>_. Inr ())\<rparr>"

theorem init_exchange_witness:
  "snd (Initiate \<lparr>uc_Write = (\<lambda>bs. Inr (length bs)), uc_CloseWrite = Inr (), uc_Read = [frame JNull], uc_ReadMsg = [], uc_CloseRead = Inr ()\<rparr>) = Inr ()"
proof -
  let ?c = "\<lparr>uc_Write = (\<lambda>bs. Inr (length bs)), uc_CloseWrite = Inr (), uc_Read = [frame JNull], uc_ReadMsg = [], uc_CloseRead = Inr ()\<rparr>"
  have sent: "fst (Initiate ?c) = frame (enc_Request (zero_Request\<lparr>rq_Type := RequestTypeInit\<rparr>))"
    by (simp add: Initiate_def MarshalToWriter_frame [OF fits_init] conn_writer_def split: sum.splits prod.splits)
  have "uc_Read ?c = NewReader (snd (serve_conn cenv0 NewDriver [] (NewReader (fst (Initiate ?c))) Buffer_Write []))"
    unfolding sent serve_init by (simp add: frame_reader [OF fits_null])
  from init_exchange [OF _ _ _ this, of driver0] show ?thesis by simp
qed

lemma dial_proto_cases:
  "p \<in> {''tcp'', ''tcp4'', ''tcp6''} \<Longrightarrow> dial_proto p = ''tcp''"
  "p \<in> {''udp'', ''udp4'', ''udp6''} \<Longrightarrow> dial_proto p = ''udp''"
  by (auto simp: dial_proto_def TrimSuffix_def HasSuffix_def)

lemma dial_target_dials:
  defines "T req pr t \<equiv> Transparent (ParseIP (rq_SourceIP req)) (rq_SourcePort req) pr t"
  shows "sv_dials (dial_target env d req pr t) \<in> {[T req pr t, Plain pr t], [T req pr t]} \<and> wants_transparent d req \<or>
    sv_dials (dial_target env d req pr t) = [Plain pr t]"
proof -
  obtain d1 cmds where r: "routing_once env d = (d1, cmds)" by fastforce
  show ?thesis
    by (cases "wants_transparent d req"; cases "routingReady d1") (auto simp: dial_target_def r Let_def T_def)
qed

text \<open>The address a request is dialled at.\<close>

definition dialled_at :: "Request \<Rightarrow> string" where
  "dialled_at req = JoinHostPort
     (if rq_IP req \<noteq> [] then IP_String (ParseIP (rq_IP req))
      else if rq_ParentIP req \<in> {[], rq_HostGatewayIP req, ''0.0.0.0''} then ''127.0.0.1''
      else rq_ParentIP req) (strconv_Itoa (rq_Port req))"

lemma target_ip_dialled_at: "target_ip req = Inr ip \<Longrightarrow> JoinHostPort ip (strconv_Itoa (rq_Port req)) = dialled_at req"
  by (auto simp: target_ip_def dialled_at_def split: if_splits)

lemma handle_dial_target:
  assumes "rq_Proto req \<in> supported" and "target_ip req = Inr ip"
  shows "handleConnectRequest env d req = dial_target env d req (dial_proto (rq_Proto req)) (dialled_at req)"
proof -
  have "\<not> rq_Proto req \<notin> {''tcp'', ''tcp4'', ''tcp6'', ''udp'', ''udp4'', ''udp6''}"
    using assms(1) unfolding supported_def by blast
  then show ?thesis
    unfolding handleConnectRequest_def by (simp only: if_False assms(2) sum.case target_ip_dialled_at [OF assms(2)])
qed



section \<open>The routing commands run once\<close>

fun serve_requests :: "childDriver \<Rightarrow> (cenv \<times> Request) list \<Rightarrow> string list list \<times> childDriver" where
  "serve_requests d [] = ([], d)"
| "serve_requests d ((env, req) # rs) =
     (let sv = handleConnectRequest env d req; (cmds, d') = serve_requests (sv_driver sv) rs
      in (sv_cmds sv @ cmds, d'))"

lemma handle_cmds:
  "sv_cmds (handleConnectRequest env d req) = [] \<and>
     sv_driver (handleConnectRequest env d req) \<in> {d, d\<lparr>routingWarn := True\<rparr>} \<or>
   \<not> routingSetup d \<and> routingSetup (sv_driver (handleConnectRequest env d req)) \<and>
     sv_cmds (handleConnectRequest env d req) = fst (setupTransparentRouting env)"
proof -
  have "sv_cmds (dial_target env d req pr t) = [] \<and> sv_driver (dial_target env d req pr t) \<in> {d, d\<lparr>routingWarn := True\<rparr>} \<or>
    \<not> routingSetup d \<and> routingSetup (sv_driver (dial_target env d req pr t)) \<and>
      sv_cmds (dial_target env d req pr t) = fst (setupTransparentRouting env)" for pr t
    by (cases "wants_transparent d req"; cases "routingSetup d"; cases "setupTransparentRouting env")
      (auto simp: dial_target_def routing_once_def Let_def)
  then show ?thesis by (auto simp only: handleConnectRequest_def split: if_splits sum.splits) auto
qed

lemma serve_after_setup: "routingSetup d \<Longrightarrow> fst (serve_requests d rs) = []"
proof (induction d rs rule: serve_requests.induct)
  case (2 d env req rs)
  have "sv_cmds (handleConnectRequest env d req) = [] \<and> routingSetup (sv_driver (handleConnectRequest env d req))"
    using handle_cmds [of env d req] 2(2) by auto
  with 2 show ?case by (auto simp: Let_def split: prod.splits)
qed simp

text \<open>The routing rules are set up at most once. Whatever requests a driver serves, the
  external commands run are none, or those of one setup: the probe and the nine routing
  commands, or the probe alone when the mangle table is not available.\<close>

theorem routing_setup_once:
  "fst (serve_requests d rs) \<in>
     {[], [[''iptables'', ''-t'', ''mangle'', ''-L'', ''-n'']],
      [''iptables'', ''-t'', ''mangle'', ''-L'', ''-n''] # routing_cmds}"
proof (induction d rs rule: serve_requests.induct)
  case (2 d env req rs)
  let ?sv = "handleConnectRequest env d req"
  have "fst (setupTransparentRouting env) \<in> {[], [[''iptables'', ''-t'', ''mangle'', ''-L'', ''-n'']],
      [''iptables'', ''-t'', ''mangle'', ''-L'', ''-n''] # routing_cmds}"
    by (simp add: setupTransparentRouting_def Let_def split: sum.splits)
  moreover have "fst (serve_requests d ((env, req) # rs)) = sv_cmds ?sv @ fst (serve_requests (sv_driver ?sv) rs)"
    by (simp add: Let_def split: prod.splits)
  ultimately show ?case
    using handle_cmds [of env d req] 2 [of ?sv] serve_after_setup [of "sv_driver ?sv" rs] by auto
qed simp

end
