(* ===== verification/Slirp_Port.thy ===== *)
theory Slirp_Port
  imports Portutil Go_Json
begin

text \<open>
  \<^verbatim>\<open>pkg/port/slirp4netns\<close>: the port driver that asks the slirp4netns process to forward
  ports, through JSON requests on its API socket. The socket is the environment: a function
  from the path and the text of a request to the text of the reply or an error. The ids of
  the ports are chosen by slirp4netns, which documents them as unique among its forwards.
\<close>

record sdriver =
  apiSocketPath :: string
  sd_childIP :: string
  sd_ports :: port_table

type_synonym api = "string \<Rightarrow> string \<Rightarrow> string res"

record reply =
  rep_Return :: "(string \<times> json) list"
  rep_Error :: "(string \<times> json) list"

section \<open>The API of slirp4netns\<close>

definition get_obj :: "string \<Rightarrow> (string \<times> json) list \<Rightarrow> (string \<times> json) list res" where
  "get_obj f ms =
     (case last_member f ms of
        None \<Rightarrow> Inr []
      | Some JNull \<Rightarrow> Inr []
      | Some (JObj kvs) \<Rightarrow> Inr kvs
      | _ \<Rightarrow> Inl type_error)"

definition dec_reply :: "json \<Rightarrow> reply res" where
  "dec_reply j =
     (case j of
        JNull \<Rightarrow> Inr \<lparr>rep_Return = [], rep_Error = []\<rparr>
      | JObj ms \<Rightarrow>
          (case (get_obj ''return'' ms, get_obj ''error'' ms) of
             (Inr r, Inr e) \<Rightarrow> Inr \<lparr>rep_Return = r, rep_Error = e\<rparr>
           | _ \<Rightarrow> Inl type_error)
      | _ \<Rightarrow> Inl type_error)"

text \<open>\<^verbatim>\<open>json.Encoder\<close> ends the text with a newline.\<close>

definition request_text :: "string \<Rightarrow> json \<Rightarrow> string" where
  "request_text execute arguments =
     print_json (JObj [(''execute'', JStr execute), (''arguments'', arguments)]) @ [CHR 0x0A]"

definition callAPI :: "api \<Rightarrow> string \<Rightarrow> string \<Rightarrow> json \<Rightarrow> reply res" where
  "callAPI api path execute arguments =
     (case api path (request_text execute arguments) of
        Inl e \<Rightarrow> Inl e
      | Inr b \<Rightarrow> (case json_parse b of Inl e \<Rightarrow> Inl e | Inr j \<Rightarrow> dec_reply j))"

text \<open>
  The integer part of a JSON number: a number in an \<^verbatim>\<open>interface{}\<close> is a \<^verbatim>\<open>float64\<close> and the
  code converts it with \<^verbatim>\<open>int\<close>. Exact for numbers below 2 to the 53.
\<close>

definition int_of_number :: "string \<Rightarrow> int" where
  "int_of_number s =
     (let neg = (s \<noteq> [] \<and> hd s = CHR ''-''); a = (if neg then tl s else s);
          ip = takeWhile is_digit a; r = dropWhile is_digit a;
          fr = (if r \<noteq> [] \<and> hd r = CHR ''.'' then takeWhile is_digit (tl r) else []);
          r2 = (if r \<noteq> [] \<and> hd r = CHR ''.'' then dropWhile is_digit (tl r) else r);
          ex = (if r2 = [] then 0 else case strconv_Atoi (tl r2) of Inl e \<Rightarrow> 0 | Inr n \<Rightarrow> n);
          m = fold (\<lambda>c acc. acc * 10 + digit_val c) (ip @ fr) 0;
          e = ex - int (length fr);
          v = (if 0 \<le> e then m * 10 ^ nat e else m div 10 ^ nat (- e))
      in if neg then - v else v)"

fun last_exact :: "string \<Rightarrow> (string \<times> json) list \<Rightarrow> json option" where
  "last_exact k [] = None"
| "last_exact k ((k', v) # ms) =
     (case last_exact k ms of Some w \<Rightarrow> Some w | None \<Rightarrow> if k' = k then Some v else None)"

section \<open>Operations\<close>

definition NewParentDriver :: "string \<Rightarrow> sdriver res" where
  "NewParentDriver path =
     (if path = [] then Inl (New ''api socket path is not set'')
      else Inr \<lparr>apiSocketPath = path, sd_childIP = [], sd_ports = []\<rparr>)"

definition Info :: "sdriver \<Rightarrow> PortDriverInfo" where
  "Info d = \<lparr>pdi_Driver = ''slirp4netns'', pdi_Protos = [''tcp'', ''tcp4'', ''udp'', ''udp4''],
     pdi_DisallowLoopbackChildIP = True\<rparr>"

definition OpaqueForChild :: "sdriver \<Rightarrow> (string \<times> string) list" where
  "OpaqueForChild d = []"

text \<open>The call then signals that it is ready and waits for \<^verbatim>\<open>quit\<close>.\<close>

definition RunParentDriver :: "sdriver \<Rightarrow> ChildContext option \<Rightarrow> sdriver" where
  "RunParentDriver d cctx =
     (case cctx of
        None \<Rightarrow> d
      | Some c \<Rightarrow>
          if cctx_IP c \<noteq> nil_IP \<and> To4 (cctx_IP c) \<noteq> nil_IP
          then d\<lparr>sd_childIP := IP_String (To4 (cctx_IP c))\<rparr> else d)"

definition guest_addr :: "sdriver \<Rightarrow> Spec \<Rightarrow> string res" where
  "guest_addr d spec =
     (let ip = ChildIP spec in
      if ip = [] then Inr (sd_childIP d)
      else
        (let p = ParseIP ip in
         if p = nil_IP then Inl (Errorf ''invalid IP: %q'' [ip])
         else if To4 p = nil_IP then Inl (Errorf ''unsupported IP (v6?): %s'' [ip])
         else Inr (IP_String (To4 p))))"

definition add_arguments :: "Spec \<Rightarrow> string \<Rightarrow> json" where
  "add_arguments spec ip =
     JObj [(''proto'', JStr (TrimSuffix (Proto spec) ''4'')), (''host_addr'', JStr (ParentIP spec)),
           (''host_port'', enc_int (ParentPort spec)), (''guest_addr'', JStr ip),
           (''guest_port'', enc_int (ChildPort spec))]"

definition reply_id :: "reply \<Rightarrow> int res" where
  "reply_id rep =
     (if length (rep_Error rep) \<noteq> 0 then Inl (New ''reply.Error'')
      else
        (case last_exact ''id'' (rep_Return rep) of
           None \<Rightarrow> Inl (New ''unexpected reply'')
         | Some (JNum s) \<Rightarrow> Inr (int_of_number s)
         | Some _ \<Rightarrow> Inl (New ''unexpected id'')))"

definition AddPort :: "api \<Rightarrow> sdriver \<Rightarrow> Spec \<Rightarrow> Status res \<times> sdriver" where
  "AddPort api d spec =
     (case ValidatePortSpec spec (sd_ports d) of
        Inl e \<Rightarrow> (Inl e, d)
      | Inr _ \<Rightarrow>
          if HasSuffix (Proto spec) ''6'' then (Inl (Errorf ''unsupported protocol %q'' [Proto spec]), d)
          else
            (case guest_addr d spec of
               Inl e \<Rightarrow> (Inl e, d)
             | Inr ip \<Rightarrow>
                 (case callAPI api (apiSocketPath d) ''add_hostfwd'' (add_arguments spec ip) of
                    Inl e \<Rightarrow> (Inl e, d)
                  | Inr rep \<Rightarrow>
                      (case reply_id rep of
                         Inl e \<Rightarrow> (Inl e, d)
                       | Inr i \<Rightarrow>
                           (let st = \<lparr>ID = i, St_Spec = spec\<rparr> in
                            (Inr st, d\<lparr>sd_ports := map_put i st (sd_ports d)\<rparr>))))))"

definition ListPorts :: "sdriver \<Rightarrow> Status list" where
  "ListPorts d = map snd (sd_ports d)"

definition RemovePort :: "api \<Rightarrow> sdriver \<Rightarrow> int \<Rightarrow> unit res \<times> sdriver" where
  "RemovePort api d i =
     (case callAPI api (apiSocketPath d) ''remove_hostfwd'' (JObj [(''id'', enc_int i)]) of
        Inl e \<Rightarrow> (Inl e, d)
      | Inr rep \<Rightarrow>
          if length (rep_Error rep) \<noteq> 0 then (Inl (New ''reply.Error''), d)
          else (Inr (), d\<lparr>sd_ports := map_del i (sd_ports d)\<rparr>))"

section \<open>Contract\<close>

text \<open>The documented behaviour of slirp4netns: it does not hand out an id that is in use.\<close>

definition fresh_ids :: "api \<Rightarrow> sdriver \<Rightarrow> bool" where
  "fresh_ids api d \<longleftrightarrow>
     (\<forall>args rep i. callAPI api (apiSocketPath d) ''add_hostfwd'' args = Inr rep \<and> reply_id rep = Inr i \<longrightarrow>
        i \<notin> set (keys (sd_ports d)))"

definition sdriver_inv :: "sdriver \<Rightarrow> bool" where
  "sdriver_inv d \<longleftrightarrow> wf_table (sd_ports d) \<and>
     (\<forall>p\<in>set (sd_ports d). \<not> HasSuffix (Proto (St_Spec (snd p))) ''6'') \<and> no_conflicts (sd_ports d)"

lemma AddPort_success:
  assumes "AddPort api d spec = (Inr st, d')"
  obtains u ip rep where "ValidatePortSpec spec (sd_ports d) = Inr u" and "\<not> HasSuffix (Proto spec) ''6''"
    and "guest_addr d spec = Inr ip"
    and "callAPI api (apiSocketPath d) ''add_hostfwd'' (add_arguments spec ip) = Inr rep" and "reply_id rep = Inr (ID st)"
    and "St_Spec st = spec" and "d' = d\<lparr>sd_ports := map_put (ID st) st (sd_ports d)\<rparr>"
  using assms by (auto simp: AddPort_def Let_def split: sum.splits if_splits)

lemma sdriver_inv_put:
  assumes "sdriver_inv d" and "ValidatePortSpec (St_Spec st) (sd_ports d) = Inr u"
    and "\<not> HasSuffix (Proto (St_Spec st)) ''6''" and "ID st \<notin> set (keys (sd_ports d))"
  shows "sdriver_inv (d\<lparr>sd_ports := map_put (ID st) st (sd_ports d)\<rparr>)"
  using assms no_conflicts_put [OF _ assms(4,2)] by (simp add: sdriver_inv_def set_map_put_fresh)

lemma slirp_add_ok:
  assumes "sdriver_inv d" and "fresh_ids api d" and "AddPort api d spec = (Inr st, d')"
  shows "sdriver_inv d' \<and> ID st \<notin> set (keys (sd_ports d)) \<and> sd_ports d' = map_put (ID st) st (sd_ports d)"
proof -
  obtain u ip rep where a: "ValidatePortSpec spec (sd_ports d) = Inr u" "\<not> HasSuffix (Proto spec) ''6''"
    "guest_addr d spec = Inr ip"
    "callAPI api (apiSocketPath d) ''add_hostfwd'' (add_arguments spec ip) = Inr rep" "reply_id rep = Inr (ID st)"
    "St_Spec st = spec" "d' = d\<lparr>sd_ports := map_put (ID st) st (sd_ports d)\<rparr>"
    using AddPort_success [OF assms(3)] by metis
  have fresh: "ID st \<notin> set (keys (sd_ports d))" using assms(2) a(4,5) by (auto simp: fresh_ids_def)
  then show ?thesis using sdriver_inv_put [OF assms(1), of st u] a by simp
qed

lemma slirp_add_err: "AddPort api d spec = (Inl e, d') \<Longrightarrow> d' = d"
  by (auto simp: AddPort_def Let_def split: sum.splits if_splits)

lemma sdriver_inv_del: "sdriver_inv d \<Longrightarrow> sdriver_inv (d\<lparr>sd_ports := map_del i (sd_ports d)\<rparr>)"
  by (simp add: sdriver_inv_def set_map_del no_conflicts_del)

lemma slirp_remove_ok: "RemovePort api d i = (Inr u, d') \<Longrightarrow> d' = d\<lparr>sd_ports := map_del i (sd_ports d)\<rparr>"
  by (auto simp: RemovePort_def split: sum.splits if_splits)

lemma slirp_remove_err: "RemovePort api d i = (Inl e, d') \<Longrightarrow> d' = d"
  by (auto simp: RemovePort_def split: sum.splits if_splits)

interpretation slirp: port_manager AddPort RemovePort ListPorts sd_ports sdriver_inv fresh_ids
proof
  fix d :: sdriver and api spec st d' er i u
  show "sdriver_inv d \<Longrightarrow> ListPorts d = map snd (sd_ports d)" by (simp add: ListPorts_def)
  show "sdriver_inv d \<Longrightarrow> wf_table (sd_ports d)" by (simp add: sdriver_inv_def)
  show "sdriver_inv d \<Longrightarrow> fresh_ids api d \<Longrightarrow> AddPort api d spec = (Inr st, d') \<Longrightarrow>
      sdriver_inv d' \<and> ID st \<notin> set (keys (sd_ports d)) \<and> sd_ports d' = map_put (ID st) st (sd_ports d)"
    by (rule slirp_add_ok)
  show "sdriver_inv d \<Longrightarrow> fresh_ids api d \<Longrightarrow> AddPort api d spec = (Inl er, d') \<Longrightarrow>
      sdriver_inv d' \<and> sd_ports d' = sd_ports d"
    using slirp_add_err by blast
  show "sdriver_inv d \<Longrightarrow> RemovePort api d i = (Inr u, d') \<Longrightarrow> sdriver_inv d' \<and> sd_ports d' = map_del i (sd_ports d)"
    using slirp_remove_ok sdriver_inv_del by fastforce
  show "sdriver_inv d \<Longrightarrow> RemovePort api d i = (Inl er, d') \<Longrightarrow>
      sdriver_inv d' \<and> (sd_ports d' = sd_ports d \<or> sd_ports d' = map_del i (sd_ports d))"
    using slirp_remove_err by blast
qed

text \<open>The slirp4netns driver under the documented uniqueness of the ids of slirp4netns. A
  successful \<open>AddPort\<close> lists one more port, keeps ids distinct, never exposes an IPv6
  protocol and never lists two ports with the same protocol, parent address and parent port;
  a failed one changes nothing.\<close>

theorem slirp_AddPort:
  assumes "sdriver_inv d" and "fresh_ids api d"
  shows "(case AddPort api d spec of
            (Inr st, d') \<Rightarrow> ListPorts d' = ListPorts d @ [st] \<and> St_Spec st = spec \<and> sdriver_inv d' \<and>
              distinct (map ID (ListPorts d'))
          | (Inl e, d') \<Rightarrow> d' = d)"
proof (cases "AddPort api d spec")
  case (Pair r d')
  show ?thesis
  proof (cases r)
    case (Inl e)
    with Pair show ?thesis using slirp_add_err by simp
  next
    case (Inr st)
    with Pair have a: "AddPort api d spec = (Inr st, d')" by simp
    have inv: "sdriver_inv d'" using slirp_add_ok [OF assms a] by simp
    have "St_Spec st = spec" using AddPort_success [OF a] by metis
    then show ?thesis
      using slirp.list_after_add [OF assms a] inv slirp.list_ids_distinct [OF inv] Pair Inr by simp
  qed
qed

definition api0 :: api where
  "api0 path req = Inr (print_json (JObj [(''return'', JObj [(''id'', JNum ''3'')])]))"

theorem slirp_AddPort_witness:
  "ListPorts (snd (AddPort api0 \<lparr>apiSocketPath = ''/s'', sd_childIP = ''10.0.2.100'', sd_ports = []\<rparr>
      \<lparr>Proto = ''tcp'', ParentIP = [], ParentPort = 8080, ChildPort = 80, ChildIP = []\<rparr>)) =
   [\<lparr>ID = 3, St_Spec = \<lparr>Proto = ''tcp'', ParentIP = [], ParentPort = 8080, ChildPort = 80, ChildIP = []\<rparr>\<rparr>]"
proof -
  let ?d = "\<lparr>apiSocketPath = ''/s'', sd_childIP = ''10.0.2.100'', sd_ports = []\<rparr>"
  let ?sp = "\<lparr>Proto = ''tcp'', ParentIP = [], ParentPort = 8080, ChildPort = 80, ChildIP = []\<rparr>"
  have "sdriver_inv ?d" "fresh_ids api0 ?d"
    by (simp_all add: sdriver_inv_def no_conflicts_def fresh_ids_def keys_def)
  note t = slirp_AddPort [OF this, of ?sp]
  have "fst (AddPort api0 ?d ?sp) = Inr \<lparr>ID = 3, St_Spec = ?sp\<rparr>"
    by code_simp
  with t show ?thesis by (cases "AddPort api0 ?d ?sp") (simp add: ListPorts_def)
qed

text \<open>What reaches slirp4netns. For a specification with an explicit child address the
  request names the address in dotted IPv4 form, and every request names a protocol without
  the suffix of the address family; other addresses and protocols are refused before any
  request is sent.\<close>

theorem slirp_request:
  assumes "AddPort api d spec = (Inr st, d')"
  shows "\<exists>ip b. api (apiSocketPath d) (request_text ''add_hostfwd'' (add_arguments spec ip)) = Inr b \<and>
    TrimSuffix (Proto spec) ''4'' \<in> {''tcp'', ''udp'', ''sctp''} \<and>
    (if ChildIP spec = [] then ip = sd_childIP d
     else length (To4 (ParseIP (ChildIP spec))) = 4 \<and> ip = ipv4_text (To4 (ParseIP (ChildIP spec))))"
proof -
  obtain u ip rep where a: "ValidatePortSpec spec (sd_ports d) = Inr u" "\<not> HasSuffix (Proto spec) ''6''"
    "guest_addr d spec = Inr ip"
    "callAPI api (apiSocketPath d) ''add_hostfwd'' (add_arguments spec ip) = Inr rep"
    using AddPort_success [OF assms] by metis
  have "Proto spec \<in> valid_protos" using ValidatePortSpec_ok [OF a(1)] by simp
  with a(2) have "TrimSuffix (Proto spec) ''4'' \<in> {''tcp'', ''udp'', ''sctp''}"
    by (auto simp: valid_protos_def HasSuffix_def TrimSuffix_def)
  moreover obtain b where "api (apiSocketPath d) (request_text ''add_hostfwd'' (add_arguments spec ip)) = Inr b"
    using a(4) by (auto simp: callAPI_def split: sum.splits)
  moreover have "if ChildIP spec = [] then ip = sd_childIP d
     else length (To4 (ParseIP (ChildIP spec))) = 4 \<and> ip = ipv4_text (To4 (ParseIP (ChildIP spec)))"
    using a(3) length_To4 [of "ParseIP (ChildIP spec)"]
    by (auto simp: guest_addr_def Let_def IP_String_def split: if_splits)
  ultimately show ?thesis by blast
qed

theorem slirp_request_witness:
  "TrimSuffix ''udp4'' ''4'' \<in> {''tcp'', ''udp'', ''sctp''} \<and> length (To4 (ParseIP ''10.0.2.99'')) = 4"
proof -
  let ?d = "\<lparr>apiSocketPath = ''/s'', sd_childIP = ''10.0.2.100'', sd_ports = []\<rparr>"
  let ?sp = "\<lparr>Proto = ''udp4'', ParentIP = [], ParentPort = 8080, ChildPort = 80, ChildIP = ''10.0.2.99''\<rparr>"
  have "fst (AddPort api0 ?d ?sp) = Inr \<lparr>ID = 3, St_Spec = ?sp\<rparr>"
    by code_simp
  then obtain d' where "AddPort api0 ?d ?sp = (Inr \<lparr>ID = 3, St_Spec = ?sp\<rparr>, d')"
    by (cases "AddPort api0 ?d ?sp") simp
  from slirp_request [OF this] show ?thesis by (auto split: if_splits)
qed

end
