(* ===== verification/Gvisor_Port.thy ===== *)
theory Gvisor_Port
  imports Portutil
begin

text \<open>
  \<^verbatim>\<open>pkg/port/gvisortapvsock\<close>: the port driver on top of the virtual network of
  gvisor-tap-vsock, driven through the HTTP handler of that network (a parameter: it maps the
  URL, protocol, local and remote address of a request to a status code and a body). The
  mutex of the driver is part of the state: an operation on a driver whose mutex is held
  blocks and has no result.
\<close>

record gdriver =
  gd_mu :: bool
  gd_ports :: port_table
  portSeq :: int
  gd_cancel :: bool
  gd_childIP :: string
  gatewayIP :: IP
  servicesMux :: bool

record genv =
  ge_NewRequest :: "string \<Rightarrow> unit res"
  ge_ServeHTTP :: "string \<Rightarrow> string \<Rightarrow> string \<Rightarrow> string \<Rightarrow> int \<times> string"

definition Lock :: "gdriver \<Rightarrow> gdriver option" where
  "Lock d = (if gd_mu d then None else Some (d\<lparr>gd_mu := True\<rparr>))"

definition Unlock :: "gdriver \<Rightarrow> gdriver" where
  "Unlock d = d\<lparr>gd_mu := False\<rparr>"

definition NewParentDriver :: gdriver where
  "NewParentDriver = \<lparr>gd_mu = False, gd_ports = [], portSeq = 1, gd_cancel = False, gd_childIP = [],
     gatewayIP = nil_IP, servicesMux = False\<rparr>"

definition Info :: PortDriverInfo where
  "Info = \<lparr>pdi_Driver = ''gvisor-tap-vsock'', pdi_Protos = [''tcp'', ''tcp4'', ''udp'', ''udp4''],
     pdi_DisallowLoopbackChildIP = True\<rparr>"

definition OpaqueForChild :: "(string \<times> string) list" where
  "OpaqueForChild = []"

section \<open>Requests to the virtual network\<close>

definition exposePort :: "genv \<Rightarrow> gdriver \<Rightarrow> string \<Rightarrow> string \<Rightarrow> string \<Rightarrow> unit res option" where
  "exposePort env d protocol local remote =
     (case Lock d of
        None \<Rightarrow> None
      | Some d1 \<Rightarrow> Some
          (if \<not> servicesMux d1 then Inl (New ''services mux not initialized'')
           else
             (let u = ''http://'' @ IP_String (gatewayIP d1) @ ''/services/forwarder/expose'' in
              case ge_NewRequest env u of
                Inl e \<Rightarrow> Inl (Wrapf ''failed to create request: %w'' [] e)
              | Inr _ \<Rightarrow>
                  (case ge_ServeHTTP env u protocol local remote of
                     (code, body) \<Rightarrow>
                       if code \<noteq> 200
                       then Inl (Errorf ''expose request failed with status %d: %s'' [strconv_Itoa code, body])
                       else Inr ()))))"

definition unexposePort :: "genv \<Rightarrow> gdriver \<Rightarrow> string \<Rightarrow> string \<Rightarrow> unit res option" where
  "unexposePort env d protocol local =
     (case Lock d of
        None \<Rightarrow> None
      | Some d1 \<Rightarrow> Some
          (if \<not> servicesMux d1 then Inl (New ''services mux not initialized'')
           else
             (let u = ''http://'' @ IP_String (gatewayIP d1) @ ''/services/forwarder/unexpose'' in
              case ge_NewRequest env u of
                Inl e \<Rightarrow> Inl (Wrapf ''failed to create request: %w'' [] e)
              | Inr _ \<Rightarrow>
                  (case ge_ServeHTTP env u protocol local [] of
                     (code, body) \<Rightarrow>
                       if code \<noteq> 200
                       then Inl (Errorf ''unexpose request failed with status %d: %s'' [strconv_Itoa code, body])
                       else Inr ()))))"

section \<open>Operations\<close>

text \<open>
  The result, whether \<^verbatim>\<open>initComplete\<close> was closed, the state while the driver runs and the
  state after \<^verbatim>\<open>quit\<close>. \<^const>\<open>None\<close>: blocked on the mutex.
\<close>

definition RunParentDriver :: "gdriver \<Rightarrow> ChildContext option \<Rightarrow> (unit res \<times> bool \<times> gdriver \<times> gdriver) option" where
  "RunParentDriver d cctx =
     (case cctx of
        None \<Rightarrow> Some (Inl (New ''child context IP is required''), False, d, d)
      | Some c \<Rightarrow>
          if cctx_IP c = nil_IP then Some (Inl (New ''child context IP is required''), False, d, d)
          else
            (case Lock (d\<lparr>gd_childIP := IP_String (cctx_IP c), gatewayIP := cctx_GatewayIP c\<rparr>) of
               None \<Rightarrow> None
             | Some d1 \<Rightarrow>
                 (let d2 = d1\<lparr>gd_cancel := True\<rparr>;
                      d3 = (if cctx_Network c then d2\<lparr>servicesMux := True\<rparr> else d2)
                  in if \<not> servicesMux d3
                     then Some (Inl (New ''Virtual network services mux not available in child context''), False, d3, d3)
                     else (let d4 = Unlock d3 in Some (Inr (), True, d4, d4\<lparr>gd_cancel := False\<rparr>)))))"

definition transport :: "string \<Rightarrow> string" where
  "transport proto = (if HasPrefix proto ''udp'' then ''udp'' else ''tcp'')"

definition local_addr :: "Spec \<Rightarrow> string" where
  "local_addr sp =
     (let a = ParentIP sp @ '':'' @ strconv_Itoa (ParentPort sp) in
      if HasPrefix (Proto sp) ''udp'' then ''udp:'' @ a else a)"

definition forward_addr :: "Spec \<Rightarrow> string" where
  "forward_addr sp =
     (if transport (Proto sp) = ''udp'' then TrimPrefix (local_addr sp) ''udp:'' else local_addr sp)"

definition AddPort :: "genv \<Rightarrow> gdriver \<Rightarrow> Spec \<Rightarrow> (Status res \<times> gdriver) option" where
  "AddPort env d spec0 =
     (case Lock d of
        None \<Rightarrow> None
      | Some d1 \<Rightarrow>
          if \<not> HasPrefix (Proto spec0) ''tcp'' \<and> \<not> HasPrefix (Proto spec0) ''udp''
          then Some (Inl (Errorf ''unsupported protocol: %s'' [Proto spec0]), Unlock d1)
          else
            (let spec = (if ChildIP spec0 = [] then spec0\<lparr>ChildIP := gd_childIP d1\<rparr> else spec0);
                 i = portSeq d1;
                 st = \<lparr>ID = i, St_Spec = spec\<rparr>;
                 d2 = Unlock (d1\<lparr>portSeq := i + 1, gd_ports := map_put i st (gd_ports d1)\<rparr>);
                 remoteAddr = ChildIP spec @ '':'' @ strconv_Itoa (ChildPort spec)
             in case exposePort env d2 (transport (Proto spec)) (forward_addr spec) remoteAddr of
                  None \<Rightarrow> None
                | Some (Inl e) \<Rightarrow>
                    Some (Inl (Wrapf ''failed to expose port: %w'' [] e),
                          Unlock (d2\<lparr>gd_ports := map_del i (gd_ports d2)\<rparr>))
                | Some (Inr _) \<Rightarrow> Some (Inr st, d2)))"

definition ListPorts :: "gdriver \<Rightarrow> Status list" where
  "ListPorts d = map snd (gd_ports d)"

text \<open>A failed request to unexpose is logged and not returned.\<close>

definition RemovePort :: "genv \<Rightarrow> gdriver \<Rightarrow> int \<Rightarrow> (unit res \<times> gdriver) option" where
  "RemovePort env d i =
     (case Lock d of
        None \<Rightarrow> None
      | Some d1 \<Rightarrow>
          (case map_of (gd_ports d1) i of
             None \<Rightarrow> Some (Inl (Errorf ''unknown port id: %d'' [strconv_Itoa i]), Unlock d1)
           | Some st \<Rightarrow>
               (let d2 = Unlock (d1\<lparr>gd_ports := map_del i (gd_ports d1)\<rparr>) in
                case unexposePort env d2 (transport (Proto (St_Spec st))) (forward_addr (St_Spec st)) of
                  None \<Rightarrow> None
                | Some _ \<Rightarrow> Some (Inr (), d2))))"

section \<open>Contract\<close>

definition gdriver_inv :: "gdriver \<Rightarrow> bool" where
  "gdriver_inv d \<longleftrightarrow> \<not> gd_mu d \<and> wf_table (gd_ports d) \<and> (\<forall>i\<in>set (keys (gd_ports d)). i < portSeq d)"

text \<open>With the mutex free, every operation returns and frees the mutex again.\<close>

definition add_port :: "genv \<Rightarrow> gdriver \<Rightarrow> Spec \<Rightarrow> Status res \<times> gdriver" where
  "add_port env d spec = the (AddPort env d spec)"

definition remove_port :: "genv \<Rightarrow> gdriver \<Rightarrow> int \<Rightarrow> unit res \<times> gdriver" where
  "remove_port env d i = the (RemovePort env d i)"

lemma exposePort_returns: "\<not> gd_mu d \<Longrightarrow> exposePort env d p l r \<noteq> None"
  by (simp add: exposePort_def Lock_def)

lemma unexposePort_returns: "\<not> gd_mu d \<Longrightarrow> unexposePort env d p l \<noteq> None"
  by (simp add: unexposePort_def Lock_def)

lemma gd_Unlock [simp]: "gd_ports (Unlock d) = gd_ports d" "portSeq (Unlock d) = portSeq d" "gd_mu (Unlock d) = False"
  by (simp_all add: Unlock_def)

lemma portSeq_fresh: "gdriver_inv d \<Longrightarrow> portSeq d \<notin> set (keys (gd_ports d))"
  by (auto simp: gdriver_inv_def)

lemma AddPort_cases:
  assumes "gdriver_inv d"
  shows "(\<exists>e d'. AddPort env d spec = Some (Inl e, d') \<and> gdriver_inv d' \<and> gd_ports d' = gd_ports d) \<or>
    (\<exists>st d'. AddPort env d spec = Some (Inr st, d') \<and> gdriver_inv d' \<and> ID st = portSeq d \<and>
       St_Spec st = (if ChildIP spec = [] then spec\<lparr>ChildIP := gd_childIP d\<rparr> else spec) \<and>
       gd_ports d' = map_put (ID st) st (gd_ports d))"
proof (cases "\<not> HasPrefix (Proto spec) ''tcp'' \<and> \<not> HasPrefix (Proto spec) ''udp''")
  case True
  then have "AddPort env d spec = Some (Inl (Errorf ''unsupported protocol: %s'' [Proto spec]), Unlock (d\<lparr>gd_mu := True\<rparr>))"
    using assms by (simp add: AddPort_def Lock_def gdriver_inv_def)
  with assms show ?thesis by (simp add: gdriver_inv_def)
next
  case False
  let ?spec = "if ChildIP spec = [] then spec\<lparr>ChildIP := gd_childIP d\<rparr> else spec"
  let ?i = "portSeq d" and ?st = "\<lparr>ID = portSeq d, St_Spec = ?spec\<rparr>"
  let ?d2 = "Unlock (d\<lparr>gd_mu := True, portSeq := ?i + 1, gd_ports := map_put ?i ?st (gd_ports d)\<rparr>)"
  let ?ex = "exposePort env ?d2 (transport (Proto ?spec)) (forward_addr ?spec) (ChildIP ?spec @ '':'' @ strconv_Itoa (ChildPort ?spec))"
  note fresh = portSeq_fresh [OF assms]
  have run: "AddPort env d spec = (case ?ex of None \<Rightarrow> None
      | Some (Inl e) \<Rightarrow> Some (Inl (Wrapf ''failed to expose port: %w'' [] e), Unlock (?d2\<lparr>gd_ports := map_del ?i (gd_ports ?d2)\<rparr>))
      | Some (Inr _) \<Rightarrow> Some (Inr ?st, ?d2))"
    using False assms by (auto simp: AddPort_def Lock_def gdriver_inv_def Let_def cong: option.case_cong sum.case_cong)
  have inv2: "gdriver_inv ?d2" using assms fresh by (auto simp: gdriver_inv_def)
  have "?ex \<noteq> None" by (rule exposePort_returns) simp
  then obtain r where r: "?ex = Some r" by blast
  show ?thesis
  proof (cases r)
    case (Inl e)
    with run r have "AddPort env d spec = Some (Inl (Wrapf ''failed to expose port: %w'' [] e), Unlock (?d2\<lparr>gd_ports := map_del ?i (gd_ports ?d2)\<rparr>))"
      by simp
    moreover have "map_del ?i (gd_ports ?d2) = gd_ports d" using fresh by (simp add: map_del_put_fresh)
    ultimately show ?thesis using inv2 assms by (auto simp: gdriver_inv_def)
  next
    case (Inr u)
    with run r inv2 show ?thesis by auto
  qed
qed

lemma RemovePort_cases:
  assumes "gdriver_inv d"
  shows "RemovePort env d i = Some (Inl (Errorf ''unknown port id: %d'' [strconv_Itoa i]), d) \<and> map_of (gd_ports d) i = None \<or>
    RemovePort env d i = Some (Inr (), d\<lparr>gd_ports := map_del i (gd_ports d)\<rparr>) \<and> map_of (gd_ports d) i \<noteq> None"
proof -
  have u: "Unlock (d\<lparr>gd_mu := True\<rparr>) = d" "Unlock (d\<lparr>gd_mu := True, gd_ports := m\<rparr>) = d\<lparr>gd_ports := m\<rparr>" for m
    using assms by (cases d; simp add: Unlock_def gdriver_inv_def)+
  have ret: "unexposePort env (d\<lparr>gd_ports := m\<rparr>) p l \<noteq> None" for m p l
    using assms by (intro unexposePort_returns) (simp add: gdriver_inv_def)
  show ?thesis
  proof (cases "map_of (gd_ports d) i")
    case None
    then show ?thesis using assms by (simp add: RemovePort_def Lock_def gdriver_inv_def u)
  next
    case (Some st)
    obtain r where "unexposePort env (d\<lparr>gd_ports := map_del i (gd_ports d)\<rparr>) (transport (Proto (St_Spec st))) (forward_addr (St_Spec st)) = Some r"
      using ret by blast
    then show ?thesis using Some assms by (simp add: RemovePort_def Lock_def gdriver_inv_def Let_def u)
  qed
qed

lemma gdriver_inv_del: "gdriver_inv d \<Longrightarrow> gdriver_inv (d\<lparr>gd_ports := map_del i (gd_ports d)\<rparr>)"
  by (auto simp: gdriver_inv_def)

interpretation gvisor: port_manager add_port remove_port ListPorts gd_ports gdriver_inv "\<lambda>_ _. True"
proof
  fix d :: gdriver and e spec st d' er i u
  show "gdriver_inv d \<Longrightarrow> ListPorts d = map snd (gd_ports d)" by (simp add: ListPorts_def)
  show "gdriver_inv d \<Longrightarrow> wf_table (gd_ports d)" by (simp add: gdriver_inv_def)
  show "gdriver_inv d \<Longrightarrow> True \<Longrightarrow> add_port e d spec = (Inr st, d') \<Longrightarrow>
      gdriver_inv d' \<and> ID st \<notin> set (keys (gd_ports d)) \<and> gd_ports d' = map_put (ID st) st (gd_ports d)"
    using AddPort_cases [of d e spec] portSeq_fresh by (auto simp: add_port_def)
  show "gdriver_inv d \<Longrightarrow> True \<Longrightarrow> add_port e d spec = (Inl er, d') \<Longrightarrow> gdriver_inv d' \<and> gd_ports d' = gd_ports d"
    using AddPort_cases [of d e spec] by (auto simp: add_port_def)
  show "gdriver_inv d \<Longrightarrow> remove_port e d i = (Inr u, d') \<Longrightarrow> gdriver_inv d' \<and> gd_ports d' = map_del i (gd_ports d)"
    using RemovePort_cases [of d e i] gdriver_inv_del by (auto simp: remove_port_def)
  show "gdriver_inv d \<Longrightarrow> remove_port e d i = (Inl er, d') \<Longrightarrow>
      gdriver_inv d' \<and> (gd_ports d' = gd_ports d \<or> gd_ports d' = map_del i (gd_ports d))"
    using RemovePort_cases [of d e i] gdriver_inv_del by (auto simp: remove_port_def)
qed



text \<open>C35: a defect. When the virtual network has no services handler, \<open>RunParentDriver\<close> returns
  an error without unlocking its mutex: every later operation of the driver blocks for
  ever.\<close>

theorem RunParentDriver_deadlock:
  assumes "gdriver_inv d" and "\<not> servicesMux d" and "cctx_IP c \<noteq> nil_IP" and "\<not> cctx_Network c"
  shows "\<exists>e d'. RunParentDriver d (Some c) = Some (Inl e, False, d', d') \<and> gd_mu d' \<and>
    (\<forall>env spec. AddPort env d' spec = None) \<and> (\<forall>env i. RemovePort env d' i = None)"
  using assms by (simp add: RunParentDriver_def Lock_def gdriver_inv_def AddPort_def RemovePort_def Let_def)

theorem RunParentDriver_deadlock_witness:
  "\<exists>e d'. RunParentDriver NewParentDriver (Some \<lparr>cctx_IP = [10, 0, 2, 100], cctx_Network = False, cctx_GatewayIP = nil_IP\<rparr>)
      = Some (Inl e, False, d', d') \<and> gd_mu d'"
proof -
  have "gdriver_inv NewParentDriver" "\<not> servicesMux NewParentDriver"
    by (simp_all add: gdriver_inv_def NewParentDriver_def keys_def)
  from RunParentDriver_deadlock [OF this, of "\<lparr>cctx_IP = [10, 0, 2, 100], cctx_Network = False, cctx_GatewayIP = nil_IP\<rparr>"]
  show ?thesis by auto
qed

end
