(* ===== verification/Cli.thy ===== *)
theory Cli
  imports Exit_Status Gvisor_Net Builtin_Child Slirp_Port Gvisor_Port
begin

text \<open>
  \<^verbatim>\<open>cmd/rootlesskit\<close>: from the flags of the command line to the options of the parent and of the
  child, the choice of the drivers, the roles of the process and its exit code; and the helpers
  \<^verbatim>\<open>unshare\<close> and \<^verbatim>\<open>pkg/systemd/activation\<close>. The parser of the flags is a third-party package: the
  record of their values is an argument. Warnings are left out.
\<close>

definition pipeFDEnvKey :: string where "pipeFDEnvKey = ''_ROOTLESSKIT_PIPEFD_UNDOCUMENTED''"
definition childUseActivationEnvKey :: string where
  "childUseActivationEnvKey = ''_ROOTLESSKIT_SYSTEMD_ACTIVATION_CHILD_USE_UNDOCUMENTED''"
definition runActivationHelperEnvKey :: string where
  "runActivationHelperEnvKey = ''_ROOTLESSKIT_SYSTEMD_ACTIVATION_RUN_HELPER_UNDOCUMENTED''"
definition stateDirEnvKey :: string where "stateDirEnvKey = ''ROOTLESSKIT_STATE_DIR''"
definition parentEUIDEnvKey :: string where "parentEUIDEnvKey = ''ROOTLESSKIT_PARENT_EUID''"
definition parentEGIDEnvKey :: string where "parentEGIDEnvKey = ''ROOTLESSKIT_PARENT_EGID''"

record flags =
  fl_args :: "string list"
  fl_print_semver :: string
  fl_state_dir :: string
  fl_net :: string
  fl_mtu :: int
  fl_cidr :: string
  fl_ifname :: string
  fl_ipv6 :: bool
  fl_disable_host_loopback :: bool
  fl_detach_netns :: bool
  fl_pasta_binary :: string
  fl_slirp4netns_binary :: string
  fl_slirp4netns_sandbox :: string
  fl_slirp4netns_seccomp :: string
  fl_vpnkit_binary :: string
  fl_lxc_user_nic_binary :: string
  fl_lxc_user_nic_bridge :: string
  fl_port_driver :: string
  fl_publish :: "string list"
  fl_source_ip_transparent :: bool
  fl_pidns :: bool
  fl_cgroupns :: bool
  fl_utsns :: bool
  fl_ipcns :: bool
  fl_propagation :: string
  fl_reaper :: string
  fl_evacuate_cgroup2 :: string
  fl_subid_source :: string
  fl_copy_up :: "string list"
  fl_copy_up_mode :: string

text \<open>What the drivers take from third-party packages, and the fuel of their waiting loops.\<close>

record plugins =
  pl_vn_json :: json
  pl_dhcp :: "ans \<Rightarrow> dhcp_packet list"
  pl_fuel :: nat

section \<open>The parent\<close>

definition parseCIDR :: "string \<Rightarrow> ipnet option res" where
  "parseCIDR s =
     (if s = [] then Inr None
      else
        (case ParseCIDR s of
           Inl e \<Rightarrow> Inl e
         | Inr (ip, ipnet) \<Rightarrow>
             if \<not> IP_Equal ip (fst ipnet) then Inl (New ''cidr must be like 10.0.2.0/24, not like 10.0.2.100/24'')
             else Inr (Some ipnet)))"

definition filepath_Abs :: "string \<Rightarrow> string res prog" where
  "filepath_Abs p =
     (if IsAbs p then Ret (Inr (Clean p))
      else tryp (sys_str (Driver ''os.Getwd'' [])) (\<lambda>wd. Ret (Inr (filepath_Join [wd, p]))))"

definition make_state_dir :: "flags \<Rightarrow> string res prog" where
  "make_state_dir fl =
     (if fl_state_dir fl = []
      then tryw ''creating a state directory: %w'' [] (sys_str (MkdirTemp [] ''rootlesskit'')) (\<lambda>d. Ret (Inr d))
      else
        tryp (filepath_Abs (fl_state_dir fl)) (\<lambda>d.
        tryp (InitStateDir d) (\<lambda>_. Ret (Inr d))))"

definition need_default :: "bool \<Rightarrow> string \<Rightarrow> 'a res prog \<Rightarrow> 'a res prog" where
  "need_default bad msg k = (if bad then Ret (Inl (New msg)) else k)"

definition sandbox_mode :: "flags \<Rightarrow> slirp_Features \<Rightarrow> bool res" where
  "sandbox_mode fl f =
     (let s = fl_slirp4netns_sandbox fl in
      if s = ''auto'' then Inr (SupportsEnableSandbox f \<and> \<not> fl_detach_netns fl)
      else if s = ''true'' then
        (if \<not> SupportsEnableSandbox f then Inl (New ''unsupported slirp4netns version: lacks SupportsEnableSandbox'')
         else if fl_detach_netns fl
         then Inl (New ''--slirp4netns-sandbox conflicts with --detach-netns (https://github.com/rootless-containers/slirp4netns/issues/317)'')
         else Inr True)
      else if s = ''false'' \<or> s = [] then Inr False
      else Inl (Errorf ''unsupported slirp4netns-sandbox mode: %q'' [s]))"

definition seccomp_mode :: "flags \<Rightarrow> slirp_Features \<Rightarrow> bool res" where
  "seccomp_mode fl f =
     (let s = fl_slirp4netns_seccomp fl in
      if s = ''auto'' then Inr (SupportsEnableSeccomp f \<and> KernelSupportsEnableSeccomp f)
      else if s = ''true'' then
        (if \<not> SupportsEnableSeccomp f then Inl (New ''unsupported slirp4netns version: lacks SupportsEnableSeccomp'')
         else if \<not> KernelSupportsEnableSeccomp f then Inl (New (''kernel doesn'' @ [CHR 0x27] @ ''t support seccomp''))
         else Inr True)
      else if s = ''false'' \<or> s = [] then Inr False
      else Inl (Errorf ''unsupported slirp4netns-seccomp mode: %q'' [s]))"

definition slirp_of_flags :: "plugins \<Rightarrow> flags \<Rightarrow> string \<Rightarrow> ipnet option \<Rightarrow> net_driver option res prog" where
  "slirp_of_flags pl fl api ipnet =
     (let binary = fl_slirp4netns_binary fl in
      tryp (sys_str (LookPath binary)) (\<lambda>_.
      tryp (slirp_DetectFeatures binary) (\<lambda>f.
      need_default (fl_disable_host_loopback fl \<and> \<not> SupportsDisableHostLoopback f)
        ''unsupported slirp4netns version: lacks SupportsDisableHostLoopback''
      (need_default (api \<noteq> [] \<and> \<not> SupportsAPISocket f) ''unsupported slirp4netns version: lacks SupportsAPISocket''
      (tryp (Ret (sandbox_mode fl f)) (\<lambda>sandbox.
       tryp (Ret (seccomp_mode fl f)) (\<lambda>seccomp.
       tryp (slirp_NewParentDriver \<lparr>sl_binary = binary, sl_mtu = fl_mtu fl, sl_ipnet = ipnet,
         sl_disableHostLoopback = fl_disable_host_loopback fl, sl_apiSocketPath = api, sl_enableSandbox = sandbox,
         sl_enableSeccomp = seccomp, sl_enableIPv6 = fl_ipv6 fl, sl_ifname = fl_ifname fl\<rparr>) (\<lambda>d.
       Ret (Inr (Some (slirp_ConfigureNetwork (pl_fuel pl, d))))))))))))"

definition pasta_of_flags :: "flags \<Rightarrow> ipnet option \<Rightarrow> net_driver option res prog" where
  "pasta_of_flags fl ipnet =
     (let binary = fl_pasta_binary fl in
      tryp (sys_str (LookPath binary)) (\<lambda>_.
      need_default (fl_port_driver fl \<noteq> ''none'' \<and> fl_port_driver fl \<noteq> ''implicit'')
        ''network \"pasta\" requires port driver \"none\" or \"implicit\"''
      (tryp (pasta_NewParentDriver binary (fl_mtu fl) ipnet (fl_ifname fl) (fl_disable_host_loopback fl) (fl_ipv6 fl)
               (fl_port_driver fl = ''implicit'')) (\<lambda>d.
       Ret (Inr (Some (pasta_ConfigureNetwork d)))))))"

definition gvisor_of_flags :: "plugins \<Rightarrow> flags \<Rightarrow> net_driver option res" where
  "gvisor_of_flags pl fl =
     (case (if fl_cidr fl \<noteq> []
            then (case parseCIDR (fl_cidr fl) of Inl e \<Rightarrow> Inl e | Inr None \<Rightarrow> Inl (go_panic ''nil ipnet'') | Inr (Some n) \<Rightarrow> Inr n)
            else (case ParseCIDR ''10.0.2.0/24'' of Inl e \<Rightarrow> Inl e | Inr (ip, n) \<Rightarrow> Inr n)) of
        Inl e \<Rightarrow> Inl e
      | Inr ipnet \<Rightarrow>
          if fl_ipv6 fl then Inl (New ''--ipv6 is not supported for gvisor-tap-vsock'')
          else
            (case gvisor_NewParentDriver (pl_vn_json pl) (fl_mtu fl) ipnet (fl_ifname fl) (fl_disable_host_loopback fl) (fl_ipv6 fl) of
               Inl e \<Rightarrow> Inl e
             | Inr d \<Rightarrow> Inr (Some (gvisor_ConfigureNetwork d))))"

text \<open>The network driver that \<^verbatim>\<open>--net\<close> selects, none for the network of the host.\<close>

definition net_of_flags :: "plugins \<Rightarrow> flags \<Rightarrow> string \<Rightarrow> ipnet option \<Rightarrow> net_driver option res prog" where
  "net_of_flags pl fl api ipnet =
     (let s = fl_net fl in
      if s = ''host'' then
        need_default (ipnet \<noteq> None) ''custom cidr is not supported for --net=host''
        (need_default (fl_ifname fl \<noteq> []) ''ifname cannot be specified for --net=host'' (Ret (Inr None)))
      else if s = ''none'' then
        need_default (ipnet \<noteq> None) ''custom cidr is not supported for --net=none''
        (need_default (fl_ifname fl \<noteq> []) ''ifname cannot be specified for --net=none''
        (need_default (fl_port_driver fl \<noteq> ''none'' \<and> fl_port_driver fl \<noteq> ''builtin'')
           ''network \"none\" requires either port driver \"none\" or \"builtin\"'' (Ret (Inr (Some (none_ConfigureNetwork ()))))))
      else if s = ''pasta'' then pasta_of_flags fl ipnet
      else if s = ''slirp4netns'' then slirp_of_flags pl fl api ipnet
      else if s = ''vpnkit'' then
        need_default (ipnet \<noteq> None) ''custom cidr is not supported for --net=vpnkit''
        (tryp (sys_str (LookPath (fl_vpnkit_binary fl))) (\<lambda>_.
         tryp (Ret (vpnkit_NewParentDriver (fl_vpnkit_binary fl) (fl_mtu fl) (fl_ifname fl) (fl_disable_host_loopback fl))) (\<lambda>d.
         Ret (Inr (Some (vpnkit_ConfigureNetwork (pl_fuel pl) d))))))
      else if s = ''lxc-user-nic'' then
        need_default (ipnet \<noteq> None) ''custom cidr is not supported for --net=lxc-user-nic''
        (tryp (sys_str (LookPath (fl_lxc_user_nic_binary fl))) (\<lambda>_.
         tryp (Ret (lxc_NewParentDriver (fl_lxc_user_nic_binary fl) (fl_mtu fl) (fl_lxc_user_nic_bridge fl) (fl_ifname fl))) (\<lambda>d.
         Ret (Inr (Some (lxc_ConfigureNetwork d))))))
      else if s = ''gvisor-tap-vsock'' then Ret (gvisor_of_flags pl fl)
      else Ret (Inl (Errorf ''unknown network mode: %s'' [s])))"

text \<open>The port driver that \<^verbatim>\<open>--port-driver\<close> selects, known to the parent by its strings for the child.\<close>

definition builtin_of_flags :: "flags \<Rightarrow> string \<Rightarrow> (string \<times> string) list option res prog" where
  "builtin_of_flags fl stateDir =
     (let pipe = filepath_Join [stateDir, ''.bp-ready.pipe''] in
      pbind (sys_unit (RemoveAll pipe)) (\<lambda>rm.
      pbind (case rm of Inl e \<Rightarrow> Ret (Inl e) | Inr _ \<Rightarrow> sys_unit (Driver ''syscall.Mkfifo'' [pipe])) (\<lambda>mk.
      tryp (Ret (Builtin_Parent.NewDriver stateDir (fl_source_ip_transparent fl) rm mk)) (\<lambda>d.
      Ret (Inr (Some (Builtin_Parent.OpaqueForChild d)))))))"

definition port_of_flags :: "flags \<Rightarrow> string \<Rightarrow> string \<Rightarrow> bool \<Rightarrow> (string \<times> string) list option res prog" where
  "port_of_flags fl stateDir api has_net =
     (let s = fl_port_driver fl in
      if s = ''none'' then
        (if fl_publish fl \<noteq> [] then Ret (Inl (Errorf ''port driver %q does not support publishing ports'' [s])) else Ret (Inr None))
      else if s = ''implicit'' then
        need_default (fl_net fl \<noteq> ''pasta'') ''port driver requires pasta network'' (Ret (Inr None))
      else if s = ''slirp4netns'' then
        need_default (fl_net fl \<noteq> ''slirp4netns'') ''port driver requires slirp4netns network''
        (tryp (Ret (Slirp_Port.NewParentDriver api)) (\<lambda>d. Ret (Inr (Some (Slirp_Port.OpaqueForChild d)))))
      else if s = ''builtin'' then
        need_default (\<not> has_net) ''port driver requires non-host network'' (builtin_of_flags fl stateDir)
      else if s = ''gvisor-tap-vsock'' then
        need_default (\<not> has_net) ''port driver requires non-host network'' (Ret (Inr (Some Gvisor_Port.OpaqueForChild)))
      else Ret (Inl (Errorf ''unknown port driver: %s'' [s])))"

fun publish_of_flags :: "string list \<Rightarrow> Spec list res" where
  "publish_of_flags [] = Inr []"
| "publish_of_flags (s # ss) =
     (case ParsePortSpec s of
        Inl e \<Rightarrow> Inl e
      | Inr spec \<Rightarrow>
          (case ValidatePortSpec spec [] of
             Inl e \<Rightarrow> Inl e
           | Inr _ \<Rightarrow> (case publish_of_flags ss of Inl e \<Rightarrow> Inl e | Inr ps \<Rightarrow> Inr (spec # ps))))"

definition createParentOpt :: "plugins \<Rightarrow> flags \<Rightarrow> Opt res prog" where
  "createParentOpt pl fl =
     need_default (fl_evacuate_cgroup2 fl \<noteq> [] \<and> \<not> fl_cgroupns fl) ''evacuate-cgroup2 requires --cgroupns''
     (need_default (fl_evacuate_cgroup2 fl \<noteq> [] \<and> \<not> fl_pidns fl) ''evacuate-cgroup2 requires --pidns''
     (tryp (make_state_dir fl) (\<lambda>stateDir.
      if fl_mtu fl < 0 \<or> 65521 < fl_mtu fl
      then Ret (Inl (Errorf ''mtu must be <= 65521, got %d'' [strconv_Itoa (fl_mtu fl)]))
      else
        tryp (Ret (parseCIDR (fl_cidr fl))) (\<lambda>ipnet.
        need_default (Contains (fl_ifname fl) ''/'') ''ifname must not contain \"/\"''
        (let api = (if fl_port_driver fl = ''slirp4netns'' then filepath_Join [stateDir, ''.s4nn.sock''] else []) in
         tryp (net_of_flags pl fl api ipnet) (\<lambda>net.
         tryp (port_of_flags fl stateDir api (net \<noteq> None)) (\<lambda>prt.
         tryp (Ret (publish_of_flags (fl_publish fl))) (\<lambda>ports.
         Ret (Inr \<lparr>PipeFDEnvKey = pipeFDEnvKey, ChildUseActivationEnvKey = childUseActivationEnvKey, StateDir = stateDir,
           StateDirEnvKey = stateDirEnvKey, NetworkDriver = net, PortDriver = prt, PublishPorts = ports,
           CreatePIDNS = fl_pidns fl, CreateCgroupNS = fl_cgroupns fl, CreateUTSNS = fl_utsns fl, CreateIPCNS = fl_ipcns fl,
           DetachNetNS = fl_detach_netns fl, ParentEUIDEnvKey = parentEUIDEnvKey, ParentEGIDEnvKey = parentEGIDEnvKey,
           Propagation = fl_propagation fl, Opt_EvacuateCgroup2 = fl_evacuate_cgroup2 fl,
           Opt_SubidSource = fl_subid_source fl\<rparr>)))))))))"

section \<open>The child\<close>

definition lxc_child :: "plugins \<Rightarrow> child_net_driver" where
  "lxc_child pl = \<lparr>cn_ConfigureNetworkChild = lxc_ConfigureNetworkChild (pl_dhcp pl) (pl_fuel pl), cn_ConfiguresInterface = False\<rparr>"

definition vpnkit_child :: child_net_driver where
  "vpnkit_child = \<lparr>cn_ConfigureNetworkChild = vpnkit_ConfigureNetworkChild, cn_ConfiguresInterface = False\<rparr>"

definition child_net_of_flags :: "plugins \<Rightarrow> string \<Rightarrow> child_net_driver option res" where
  "child_net_of_flags pl s =
     (if s = ''host'' \<or> s = ''none'' then Inr None
      else if s = ''pasta'' then Inr (Some pasta_child)
      else if s = ''slirp4netns'' then Inr (Some slirp_child)
      else if s = ''vpnkit'' then Inr (Some vpnkit_child)
      else if s = ''lxc-user-nic'' then Inr (Some (lxc_child pl))
      else if s = ''gvisor-tap-vsock'' then Inr (Some gvisor_child)
      else Inl (Errorf ''unknown network mode: %s'' [s]))"

definition reaper_of_flags :: "flags \<Rightarrow> bool res" where
  "reaper_of_flags fl =
     (let s = fl_reaper fl in
      if s = ''auto'' then Inr (fl_pidns fl)
      else if s = ''true'' then (if \<not> fl_pidns fl then Inl (New ''reaper requires --pidns'') else Inr True)
      else if s = ''false'' then Inr False
      else Inl (Errorf ''unknown reaper mode: %s'' [s]))"

definition createChildOpt :: "plugins \<Rightarrow> flags \<Rightarrow> child_Opt res" where
  "createChildOpt pl fl =
     (case reaper_of_flags fl of
        Inl e \<Rightarrow> Inl e
      | Inr reaper \<Rightarrow>
          (case child_net_of_flags pl (fl_net fl) of
             Inl e \<Rightarrow> Inl e
           | Inr net \<Rightarrow>
               if fl_copy_up_mode fl \<noteq> ''tmpfs+symlink'' then Inl (Errorf ''unknown copy-up mode: %s'' [fl_copy_up_mode fl])
               else if fl_copy_up fl \<noteq> [] \<and> (fl_propagation fl = ''rshared'' \<or> fl_propagation fl = ''shared'')
               then Inl (Errorf ''propagation %s does not support copy-up driver %s'' [fl_propagation fl, fl_copy_up_mode fl])
               else if fl_port_driver fl \<notin> {''none'', ''implicit'', ''slirp4netns'', ''builtin'', ''gvisor-tap-vsock''}
               then Inl (Errorf ''unknown port driver: %s'' [fl_port_driver fl])
               else Inr \<lparr>co_PipeFDEnvKey = pipeFDEnvKey, co_RunActivationHelperEnvKey = runActivationHelperEnvKey,
                 co_ChildUseActivationEnvKey = childUseActivationEnvKey, co_StateDirEnvKey = stateDirEnvKey,
                 co_TargetCmd = fl_args fl, co_NetworkDriver = net, co_CopyUpDriver = Some CopyUp, co_CopyUpDirs = fl_copy_up fl,
                 co_DetachNetNS = fl_detach_netns fl,
                 co_PortDriver = (fl_port_driver fl \<in> {''slirp4netns'', ''builtin'', ''gvisor-tap-vsock''}),
                 co_MountProcfs = fl_pidns fl, co_Propagation = fl_propagation fl, co_Reaper = reaper,
                 co_EvacuateCgroup2 = (fl_evacuate_cgroup2 fl \<noteq> [])\<rparr>))"

section \<open>The roles of the process\<close>

text \<open>The answer of \<^verbatim>\<open>LookupEnv\<close> holds 1 when the variable is set.\<close>

definition checkActivationHelper :: "bool res prog" where
  "checkActivationHelper =
     Do (Getenv runActivationHelperEnvKey) (\<lambda>a.
       if a_int a \<noteq> 1 then Ret (Inr False)
       else
         (case strconv_ParseBool (a_str a) of
            Inl e \<Rightarrow> Ret (Inl (go_panic (render ''Env variable [%s] is set to [%s] and cannot be parsed''
              [runActivationHelperEnvKey, a_str a])))
          | Inr b \<Rightarrow> Ret (Inr b)))"

text \<open>The process image is replaced by the command; a call that returns at all has failed.\<close>

definition ActivationHelper :: "string list \<Rightarrow> unit res prog" where
  "ActivationHelper argsv =
     pbind (get_int_of Getpid) (\<lambda>pid.
     ignore (sys_unit (Unsetenv runActivationHelperEnvKey))
      (ignore (sys_unit (Setenv ''LISTEN_PID'' (strconv_Itoa pid)))
        (if argsv = [] then Ret (Inl (go_panic ''runtime error: index out of range [0] with length 0''))
         else
           tryp (sys_str (LookPath (hd argsv))) (\<lambda>execPath.
           pbind (get_strs_of Environ) (\<lambda>_.
           tryp (sys_unit (Execve execPath argsv)) (\<lambda>_. Ret (Inl (go_panic ''should not reach here''))))))))"

definition print_semver :: "(string \<times> string \<times> string) res \<Rightarrow> string \<Rightarrow> string \<Rightarrow> unit res prog" where
  "print_semver sv version s =
     (case sv of
        Inl e \<Rightarrow> Ret (Inl (Wrapf ''failed to parse version %q: %w'' [version] e))
      | Inr (major, minor, patch) \<Rightarrow>
          if s = ''major'' then ignore (sys_unit (Driver ''Fprintln'' [major])) (Ret (Inr ()))
          else if s = ''minor'' then ignore (sys_unit (Driver ''Fprintln'' [minor])) (Ret (Inr ()))
          else if s = ''patch'' then ignore (sys_unit (Driver ''Fprintln'' [patch])) (Ret (Inr ()))
          else Ret (Inl (Errorf ''expected --print-semver=(major|minor|patch), got %q'' [s])))"

text \<open>The action of the program: the role is chosen by two environment variables.\<close>

definition app_Action ::
  "(string \<times> string \<times> string) res \<Rightarrow> string \<Rightarrow> host \<Rightarrow> plugins \<Rightarrow> bool \<Rightarrow> bool \<Rightarrow> flags \<Rightarrow> unit res prog" where
  "app_Action sv version host pl iAmActivationHelper iAmChild fl =
     (if fl_print_semver fl \<noteq> [] then print_semver sv version (fl_print_semver fl)
      else if fl_args fl = [] then Ret (Inl (New ''no command specified''))
      else if iAmActivationHelper then ActivationHelper (fl_args fl)
      else if iAmChild then tryp (Ret (createChildOpt pl fl)) (\<lambda>opt. Child (pl_fuel pl) opt)
      else tryp (createParentOpt pl fl) (\<lambda>opt. Parent host opt))"

text \<open>The helper that replaces \<^verbatim>\<open>unshare(1)\<close>.\<close>

definition unshare_action :: "bool \<Rightarrow> string list \<Rightarrow> unit res prog" where
  "unshare_action n args =
     (if args = [] then Ret (Inl (New ''no command specified''))
      else
        tryp (sys_int (StartCmd args [] [] (if n then [''clone:NEWNET''] else []))) (\<lambda>pid.
        sys_unit (WaitProc pid)))"

definition checkUnshareHelper :: "bool prog" where
  "checkUnshareHelper = pbind (get_strs_of Args) (\<lambda>args. Ret (args \<noteq> [] \<and> filepath_Base (hd args) = ''unshare''))"

definition unshare_Main :: "bool \<Rightarrow> string list \<Rightarrow> int prog" where
  "unshare_Main n args = pbind (unshare_action n args) (\<lambda>r. Ret (exit_code r))"

text \<open>The exit code of the program; the runtime ends a process that panics with the code 2.\<close>

definition panicked :: "unit res \<Rightarrow> bool" where
  "panicked r = (case r of Inl (Sys t) \<Rightarrow> HasPrefix t ''panic: '' | _ \<Rightarrow> False)"

definition main ::
  "(string \<times> string \<times> string) res \<Rightarrow> string \<Rightarrow> host \<Rightarrow> plugins \<Rightarrow> bool \<Rightarrow> flags \<Rightarrow> int prog" where
  "main sv version host pl unshare_n fl =
     pbind checkUnshareHelper (\<lambda>unshare.
     if unshare then unshare_Main unshare_n (fl_args fl)
     else
       pbind checkActivationHelper (\<lambda>act.
       case act of
         Inl e \<Rightarrow> Ret 2
       | Inr iAmActivationHelper \<Rightarrow>
           pbind (get_env pipeFDEnvKey) (\<lambda>fd.
           pbind (app_Action sv version host pl iAmActivationHelper (fd \<noteq> []) fl) (\<lambda>r.
           Ret (if panicked r then 2 else exit_code r)))))"

definition unameM :: "string res prog" where
  "unameM = sys_str (Driver ''syscall.Uname'' [])"

fun first_existing :: "string list \<Rightarrow> string prog" where
  "first_existing [] = Ret []"
| "first_existing (p # ps) = pbind (sys_unit (Stat p)) (\<lambda>r. case r of Inr _ \<Rightarrow> Ret p | Inl _ \<Rightarrow> first_existing ps)"

definition lxcUserNicBin :: "string res prog" where
  "lxcUserNicBin =
     tryp unameM (\<lambda>m.
     pbind (first_existing [''/usr/libexec/lxc/lxc-user-nic'', ''/usr/lib/'' @ m @ ''-linux-gnu/lxc/lxc-user-nic'', ''/usr/lib/lxc/lxc-user-nic''])
       (\<lambda>p. Ret (Inr p)))"

section \<open>What the options promise\<close>

lemma returns_try:
  "returns P (tryp m k) = returns (\<lambda>r. case r of Inl e \<Rightarrow> P (Inl e) | Inr x \<Rightarrow> returns P (k x)) m"
  unfolding tryp_def returns_bind by (rule arg_cong [where f = "\<lambda>R. returns R m"]) (auto simp: fun_eq_iff split: sum.splits)

lemma returns_tryw:
  "returns P (tryw f as m k) = returns (\<lambda>r. case r of Inl e \<Rightarrow> P (Inl (Wrapf f as e)) | Inr x \<Rightarrow> returns P (k x)) m"
  unfolding tryw_def returns_bind by (rule arg_cong [where f = "\<lambda>R. returns R m"]) (auto simp: fun_eq_iff split: sum.splits)

lemma returns_run: "returns P m \<Longrightarrow> P (fst (run m os h))"
  by (induction m arbitrary: h) auto

text \<open>A property of the values that a program returns without an error.\<close>

definition gives :: "('a \<Rightarrow> bool) \<Rightarrow> 'a res prog \<Rightarrow> bool" where
  "gives P m = returns (\<lambda>r. case r of Inl e \<Rightarrow> True | Inr x \<Rightarrow> P x) m"

lemma gives_Ret [simp]: "gives P (Ret r) = (case r of Inl e \<Rightarrow> True | Inr x \<Rightarrow> P x)"
  by (simp add: gives_def)

lemma gives_try: "gives R m \<Longrightarrow> (\<And>x. R x \<Longrightarrow> gives P (k x)) \<Longrightarrow> gives P (tryp m k)"
  unfolding gives_def returns_try by (erule returns_mono) (auto split: sum.splits)

lemma gives_tryw: "gives R m \<Longrightarrow> (\<And>x. R x \<Longrightarrow> gives P (k x)) \<Longrightarrow> gives P (tryw f as m k)"
  unfolding gives_def returns_tryw by (erule returns_mono) (auto split: sum.splits)

lemma gives_need: "(\<not> b \<Longrightarrow> gives P k) \<Longrightarrow> gives P (need_default b msg k)"
  by (simp add: need_default_def)

lemma gives_any: "gives (\<lambda>_. True) m"
  unfolding gives_def by (rule returns_trivial) (auto split: sum.splits)

lemma gives_run: "gives P m \<Longrightarrow> fst (run m os h) = Inr x \<Longrightarrow> P x"
  unfolding gives_def by (drule returns_run [of _ m os h]) simp

text \<open>Flags that pass the checks of the parent give drivers that keep the contract of the handshake.\<close>

definition plugins_ok :: "plugins \<Rightarrow> bool" where
  "plugins_ok pl \<longleftrightarrow> wf_json (pl_vn_json pl) \<and> length (print_json (pl_vn_json pl)) \<le> 10000"

definition fit :: "net_driver option \<Rightarrow> bool" where
  "fit d \<longleftrightarrow> (\<forall>sd drv. d = Some drv \<longrightarrow> length sd \<le> 4096 \<longrightarrow> driver_ok sd drv)"

definition ipnet_ok :: "ipnet option \<Rightarrow> bool" where
  "ipnet_ok n \<longleftrightarrow> (case n of None \<Rightarrow> True | Some (ip, ones) \<Rightarrow> 0 \<le> ones \<and> ones \<le> 128)"

lemma ParseCIDR_ones: "ParseCIDR s = Inr (ip, n) \<Longrightarrow> ipnet_ok (Some n)"
  by (auto simp: ParseCIDR_def Let_def ipnet_ok_def intro: digits_nonneg split: if_splits)

lemma parseCIDR_ones: "parseCIDR s = Inr n \<Longrightarrow> ipnet_ok n"
  by (auto simp: parseCIDR_def ParseCIDR_ones split: if_splits sum.splits) (simp add: ipnet_ok_def)

definition flags_ok :: "flags \<Rightarrow> bool" where
  "flags_ok fl \<longleftrightarrow> 0 \<le> fl_mtu fl \<and> fl_mtu fl \<le> 65521 \<and> length (fl_ifname fl) \<le> 900"

lemma fit_None [simp]: "fit None"
  by (simp add: fit_def)

lemma slirp_New_ok:
  assumes "flags_ok fl" and "sl_mtu d = fl_mtu fl" and "sl_ifname d = fl_ifname fl" and "ipnet_ok (sl_ipnet d)"
  shows "gives (\<lambda>d'. slirp_ok (n, d')) (slirp_NewParentDriver d)"
proof -
  have "slirp_ok (n, d\<lparr>sl_mtu := (if sl_mtu d = 0 then 65520 else sl_mtu d),
                         sl_ifname := (if sl_ifname d = [] then ''tap0'' else sl_ifname d)\<rparr>)"
    using assms by (auto simp: flags_ok_def slirp_ok_def dev_ok_def int64_ok_def ipnet_ok_def split: option.splits)
  then show ?thesis unfolding slirp_NewParentDriver_def by (auto intro!: gives_try [OF gives_any])
qed

lemma slirp_fit:
  assumes "flags_ok fl" and "ipnet_ok ipnet"
  shows "gives fit (slirp_of_flags pl fl api ipnet)"
  unfolding slirp_of_flags_def Let_def
  by (rule gives_try [OF gives_any], rule gives_try [OF gives_any], rule gives_need, rule gives_need,
      rule gives_try [OF gives_any], rule gives_try [OF gives_any], rule gives_try [OF slirp_New_ok [OF assms(1)]])
    (auto simp: fit_def assms(2) intro: slirp4netns.accepted)

lemma pasta_fit:
  assumes "flags_ok fl" and "ipnet_ok ipnet"
  shows "gives fit (pasta_of_flags fl ipnet)"
proof -
  have "gives pasta_ok (pasta_NewParentDriver b (fl_mtu fl) ipnet (fl_ifname fl) dis v6 im)" for b dis v6 im
    unfolding pasta_NewParentDriver_def using assms
    by (auto intro!: gives_try [OF gives_any] simp: flags_ok_def pasta_ok_def dev_ok_def int64_ok_def ipnet_ok_def default_ipnet_def
        split: option.splits)
  then show ?thesis unfolding pasta_of_flags_def Let_def
    by (auto simp: fit_def intro!: gives_need gives_try [where R = pasta_ok] gives_try [OF gives_any, where m = "sys_str _"]
       intro: pasta.accepted)
qed

lemma gvisor_fit:
  assumes "flags_ok fl" and "plugins_ok pl" and "gvisor_of_flags pl fl = Inr d"
  shows "fit d"
proof -
  obtain ipnet g where "ipnet_ok (Some ipnet)" and
    g: "gvisor_NewParentDriver (pl_vn_json pl) (fl_mtu fl) ipnet (fl_ifname fl) (fl_disable_host_loopback fl) False = Inr g"
    "d = Some (gvisor_ConfigureNetwork g)"
    using assms(3) parseCIDR_ones ParseCIDR_ones unfolding gvisor_of_flags_def
    by (fastforce split: sum.splits if_splits option.splits)
  then have "gvisor_ok g"
    using assms(1,2) by (auto simp: gvisor_NewParentDriver_def flags_ok_def plugins_ok_def gvisor_ok_def dev_ok_def int64_ok_def
        ipnet_ok_def split: if_splits)
  then show ?thesis using g(2) by (auto simp: fit_def intro: gvisortapvsock.accepted)
qed

lemma none_fit: "fit (Some (none_ConfigureNetwork ()))"
  by (auto simp: fit_def intro: none.accepted)

lemma lxc_fit:
  assumes "flags_ok fl" and "lxc_NewParentDriver b (fl_mtu fl) br (fl_ifname fl) = Inr d"
  shows "fit (Some (lxc_ConfigureNetwork d))"
proof -
  have "lxc_ok d" using assms
    by (auto simp: lxc_NewParentDriver_def flags_ok_def lxc_ok_def dev_ok_def int64_ok_def split: if_splits)
  then show ?thesis by (auto simp: fit_def intro: lxcusernic.accepted)
qed

lemma gives_LookPath: "(\<And>x. gives P (k x)) \<Longrightarrow> gives P (tryp (sys_str c) k)"
  by (rule gives_try [OF gives_any])

lemma gives_pure: "(\<And>x. r = Inr x \<Longrightarrow> gives P (k x)) \<Longrightarrow> gives P (tryp (Ret r) k)"
  by (rule gives_try [where R = "\<lambda>x. r = Inr x"]) (auto split: sum.splits)

lemma net_fit:
  assumes "flags_ok fl" and "plugins_ok pl" and "ipnet_ok ipnet" and "fl_net fl \<noteq> ''vpnkit''"
  shows "gives fit (net_of_flags pl fl api ipnet)"
  unfolding net_of_flags_def Let_def
  using assms slirp_fit pasta_fit gvisor_fit
  by (auto intro!: gives_need gives_LookPath gives_pure none_fit lxc_fit split: sum.splits)

lemma gives_bind: "(\<And>x. gives P (k x)) \<Longrightarrow> gives P (pbind m k)"
  unfolding gives_def returns_bind by (rule returns_trivial)

lemma driver_chosen:
  "gives (\<lambda>d. d \<noteq> None) (slirp_of_flags pl fl api ipnet)" "gives (\<lambda>d. d \<noteq> None) (pasta_of_flags fl ipnet)"
  "gives (\<lambda>d. d \<noteq> None) (Ret (gvisor_of_flags pl fl))"
proof -
  show "gives (\<lambda>d. d \<noteq> None) (slirp_of_flags pl fl api ipnet)"
    unfolding slirp_of_flags_def Let_def by (intro gives_need gives_try [OF gives_any]) simp
  show "gives (\<lambda>d. d \<noteq> None) (pasta_of_flags fl ipnet)"
    unfolding pasta_of_flags_def Let_def by (intro gives_need gives_try [OF gives_any]) simp
  show "gives (\<lambda>d. d \<noteq> None) (Ret (gvisor_of_flags pl fl))"
    unfolding gvisor_of_flags_def by (simp split: sum.splits)
qed

lemma net_present: "gives (\<lambda>d. (d = None) = (fl_net fl = ''host'')) (net_of_flags pl fl api ipnet)"
  unfolding net_of_flags_def Let_def using driver_chosen
  by (auto intro!: gives_need gives_LookPath gives_pure)

lemma small_port_deliverable:
  assumes "wf_map m" and "opaque_size m \<le> 60000"
  shows "deliverable ''ParentInitPortDriverCompleted'' (port_Message m)"
proof -
  let ?m = "port_Message m"
  have U: "U_fields (m_U ?m) = [''ParentInitPortDriverCompleted'']" and nm: "m_Name ?m = []"
    by (simp_all add: port_Message_def empty_Message_def nil_U_def U_fields_def)
  have wf: "wf_Message ?m" using assms by (simp add: wf_Message_def port_Message_def empty_Message_def nil_U_def)
  have keys: "length (print_str ''Name'') = 6" "length (print_str ''PortDriverOpaque'') = 18"
    "length (print_str ''ParentInitPortDriverCompleted'') = 31"
    by code_simp+
  have "enc_Message (named ?m) = JObj [(''Name'', JStr ''ParentInitPortDriverCompleted''), (''PortDriverOpaque'', enc_map m)]"
    using U nm by (simp add: enc_Message_def named_def port_Message_def empty_Message_def nil_U_def)
  moreover have "length (print_json (JObj [(''Name'', JStr ''ParentInitPortDriverCompleted''), (''PortDriverOpaque'', enc_map m)])) \<le> 65536"
    using assms(2) length_print_map [of m] by (simp add: keys)
  ultimately show ?thesis
    using U nm wf wf_enc_Message [of "named ?m"] by (simp add: deliverable_def fits_def maxLength_def)
qed

definition port_fit :: "string \<Rightarrow> (string \<times> string) list option \<Rightarrow> bool" where
  "port_fit sd p \<longleftrightarrow> (length sd \<le> 4096 \<longrightarrow>
     deliverable ''ParentInitPortDriverCompleted'' (port_Message (case p of None \<Rightarrow> [] | Some opq \<Rightarrow> opq)))"

lemma builtin_opaque_small:
  assumes "Builtin_Parent.NewDriver sd t rm mk = Inr d" and "length sd \<le> 4096"
  shows "wf_map (Builtin_Parent.OpaqueForChild d) \<and> opaque_size (Builtin_Parent.OpaqueForChild d) \<le> 60000"
proof -
  have "length (filepath_Join [sd, ''.bp.sock'']) \<le> 4120" "length (filepath_Join [sd, ''.bp-ready.pipe'']) \<le> 4120"
    using assms(2) length_filepath_Join [of "[sd, ''.bp.sock'']"] length_filepath_Join [of "[sd, ''.bp-ready.pipe'']"] by simp_all
  then show ?thesis using assms(1)
    by (auto simp: Builtin_Parent.NewDriver_def Builtin_Parent.OpaqueForChild_def Let_def wf_map_def keys_def opaque_size_def
        split: sum.splits)
qed

lemma port_fit_gives: "gives (port_fit sd) (port_of_flags fl sd api has)"
proof -
  have nil: "port_fit sd None" "port_fit sd (Some [])"
    by (simp_all add: port_fit_def small_port_deliverable wf_map_def keys_def opaque_size_def)
  have "gives (port_fit sd) (builtin_of_flags fl sd)"
    unfolding builtin_of_flags_def Let_def
    by (intro gives_bind gives_pure) (auto simp: port_fit_def builtin_opaque_small intro!: small_port_deliverable)
  then show ?thesis
    unfolding port_of_flags_def Let_def
    by (auto simp: nil Slirp_Port.OpaqueForChild_def Gvisor_Port.OpaqueForChild_def intro!: gives_need gives_pure)
qed

lemma port_present:
  "gives (\<lambda>p. (p \<noteq> None) = (fl_port_driver fl \<in> {''slirp4netns'', ''builtin'', ''gvisor-tap-vsock''})) (port_of_flags fl sd api has)"
proof -
  have "gives (\<lambda>p. p \<noteq> None) (builtin_of_flags fl sd)"
    unfolding builtin_of_flags_def Let_def by (intro gives_bind gives_pure) simp
  then show ?thesis unfolding port_of_flags_def Let_def by (auto intro!: gives_need gives_pure)
qed

lemma createChildOpt_ok: "createChildOpt pl fl = Inr copt \<Longrightarrow> child_opt_ok copt"
  by (auto simp: createChildOpt_def child_opt_ok_def child_net_of_flags_def child_drivers_silent CopyUp_silent lxc_child_def
      vpnkit_child_def gvisor_child_def lxc_child_silent vpnkit_child_silent gvisor_child_silent
      split: sum.splits if_splits)

lemma createParentOpt_ok:
  assumes "plugins_ok pl" and "fl_net fl \<noteq> ''vpnkit''" and "length (fl_ifname fl) \<le> 900"
  shows "gives (\<lambda>opt. length (StateDir opt) \<le> 4096 \<longrightarrow> parent_opt_ok opt) (createParentOpt pl fl)"
  unfolding createParentOpt_def Let_def
proof (intro gives_need gives_try [OF gives_any [of "make_state_dir fl"]], goal_cases)
  case (1 sd)
  show ?case
  proof (cases "fl_mtu fl < 0 \<or> 65521 < fl_mtu fl")
    case False
    then have fl: "flags_ok fl" using assms(3) by (simp add: flags_ok_def)
    show ?thesis using False
      by (auto intro!: gives_need gives_pure gives_try [OF net_fit [OF fl assms(1) _ assms(2)]] gives_try [OF port_fit_gives]
          simp: parseCIDR_ones fit_def port_fit_def parent_opt_ok_def split: option.splits)
  qed simp
qed


lemma publish_valid:
  "publish_of_flags ss = Inr ps \<Longrightarrow> length ps = length ss \<and> list_all (\<lambda>p. ValidatePortSpec p [] = Inr ()) ps"
  by (induction ss arbitrary: ps) (auto split: sum.splits)

lemma createParentOpt_fields:
  "gives (\<lambda>opt. PipeFDEnvKey opt = pipeFDEnvKey \<and> ChildUseActivationEnvKey opt = childUseActivationEnvKey \<and>
     StateDirEnvKey opt = stateDirEnvKey \<and> DetachNetNS opt = fl_detach_netns fl \<and> CreatePIDNS opt = fl_pidns fl \<and>
     (NetworkDriver opt = None) = (fl_net fl = ''host'') \<and>
     (PortDriver opt \<noteq> None) = (fl_port_driver fl \<in> {''slirp4netns'', ''builtin'', ''gvisor-tap-vsock''}) \<and>
     Opt_EvacuateCgroup2 opt = fl_evacuate_cgroup2 fl \<and>
     (fl_evacuate_cgroup2 fl \<noteq> [] \<longrightarrow> CreateCgroupNS opt \<and> CreatePIDNS opt) \<and>
     publish_of_flags (fl_publish fl) = Inr (PublishPorts opt)) (createParentOpt pl fl)"
  unfolding createParentOpt_def Let_def
proof (intro gives_need gives_try [OF gives_any [of "make_state_dir fl"]], goal_cases)
  case (1 sd)
  show ?case
  proof (cases "fl_mtu fl < 0 \<or> 65521 < fl_mtu fl")
    case False
    then show ?thesis using 1
      by (auto intro!: gives_need gives_pure gives_try [OF net_present] gives_try [OF port_present])
  qed simp
qed

lemma createChildOpt_fields:
  assumes "createChildOpt pl fl = Inr copt"
  shows "reaper_of_flags fl = Inr (co_Reaper copt)" "child_net_of_flags pl (fl_net fl) = Inr (co_NetworkDriver copt)"
    "co_PipeFDEnvKey copt = pipeFDEnvKey" "co_ChildUseActivationEnvKey copt = childUseActivationEnvKey"
    "co_StateDirEnvKey copt = stateDirEnvKey" "co_DetachNetNS copt = fl_detach_netns fl" "co_MountProcfs copt = fl_pidns fl"
    "co_PortDriver copt = (fl_port_driver fl \<in> {''slirp4netns'', ''builtin'', ''gvisor-tap-vsock''})"
    "co_EvacuateCgroup2 copt = (fl_evacuate_cgroup2 fl \<noteq> [])"
  using assms by (simp_all add: createChildOpt_def split: sum.splits if_split_asm) auto

lemma child_net_present:
  "child_net_of_flags pl s = Inr d \<Longrightarrow> (d = None) = (s = ''host'' \<or> s = ''none'')"
  by (auto simp: child_net_of_flags_def split: if_split_asm)

lemma reaper_pidns: "reaper_of_flags fl = Inr r \<Longrightarrow> r \<Longrightarrow> fl_pidns fl"
  by (auto simp: reaper_of_flags_def Let_def split: if_split_asm)

text \<open>C39: parent and child agree. When both sides accept the same command line, they use the same environment
  variables, the same kind of network namespace and both or neither have a port driver; a
  reaper and the evacuation of cgroups come with the namespaces they need, only
  \<^verbatim>\<open>--net=none\<close> has a driver in the parent but not in the child, and every published port is valid.\<close>

theorem options_agree:
  assumes "fst (run (createParentOpt pl fl) os h) = Inr opt" and "createChildOpt pl fl = Inr copt"
  shows "PipeFDEnvKey opt = co_PipeFDEnvKey copt \<and> ChildUseActivationEnvKey opt = co_ChildUseActivationEnvKey copt \<and>
    StateDirEnvKey opt = co_StateDirEnvKey copt \<and> DetachNetNS opt = co_DetachNetNS copt \<and>
    CreatePIDNS opt = co_MountProcfs copt \<and> (co_Reaper copt \<longrightarrow> CreatePIDNS opt) \<and>
    (NetworkDriver opt = None) = (fl_net fl = ''host'') \<and>
    (co_NetworkDriver copt = None) = (fl_net fl = ''host'' \<or> fl_net fl = ''none'') \<and>
    (PortDriver opt \<noteq> None) = co_PortDriver copt \<and>
    (Opt_EvacuateCgroup2 opt \<noteq> []) = co_EvacuateCgroup2 copt \<and>
    (co_EvacuateCgroup2 copt \<longrightarrow> CreateCgroupNS opt \<and> CreatePIDNS opt) \<and>
    list_all (\<lambda>p. ValidatePortSpec p [] = Inr ()) (PublishPorts opt)"
proof -
  note p = gives_run [OF createParentOpt_fields assms(1)]
  note c = createChildOpt_fields [OF assms(2)]
  have "list_all (\<lambda>p. ValidatePortSpec p [] = Inr ()) (PublishPorts opt)" using p publish_valid by blast
  then show ?thesis unfolding c(3-9) using p reaper_pidns [OF c(1)] child_net_present [OF c(2)]
    by (elim conjE, intro conjI) (assumption | simp)+
qed

text \<open>A command line.\<close>

definition pl0 :: plugins where
  "pl0 = \<lparr>pl_vn_json = JObj [], pl_dhcp = (\<lambda>_. []), pl_fuel = 1\<rparr>"

definition flags0 :: flags where
  "flags0 = \<lparr>fl_args = [''sh''], fl_print_semver = [], fl_state_dir = [], fl_net = ''none'', fl_mtu = 0, fl_cidr = [], fl_ifname = [],
     fl_ipv6 = False, fl_disable_host_loopback = False, fl_detach_netns = False, fl_pasta_binary = ''pasta'',
     fl_slirp4netns_binary = ''slirp4netns'', fl_slirp4netns_sandbox = ''auto'', fl_slirp4netns_seccomp = ''auto'',
     fl_vpnkit_binary = ''vpnkit'', fl_lxc_user_nic_binary = [], fl_lxc_user_nic_bridge = ''lxcbr0'', fl_port_driver = ''builtin'',
     fl_publish = [''127.0.0.1:8080:80/tcp''], fl_source_ip_transparent = True, fl_pidns = True, fl_cgroupns = False, fl_utsns = False,
     fl_ipcns = False, fl_propagation = ''rprivate'', fl_reaper = ''auto'', fl_evacuate_cgroup2 = [], fl_subid_source = ''auto'',
     fl_copy_up = [''/etc''], fl_copy_up_mode = ''tmpfs+symlink''\<rparr>"

definition cli_os :: os where
  "cli_os h c = (case c of MkdirTemp d p \<Rightarrow> ok_ans\<lparr>a_str := ''/tmp/rootlesskit1''\<rparr> | _ \<Rightarrow> ok_ans)"

lemma publish0: "\<exists>ps. publish_of_flags [''127.0.0.1:8080:80/tcp''] = Inr ps"
proof -
  have "case publish_of_flags [''127.0.0.1:8080:80/tcp''] of Inr _ \<Rightarrow> True | Inl _ \<Rightarrow> False" by code_simp
  then show ?thesis by (auto split: sum.splits)
qed

lemma flags0_parent: "\<exists>opt. fst (run (createParentOpt pl0 flags0) cli_os []) = Inr opt \<and> StateDir opt = ''/tmp/rootlesskit1''"
proof -
  obtain ps where ps: "publish_of_flags [''127.0.0.1:8080:80/tcp''] = Inr ps" using publish0 by blast
  show ?thesis
    by (simp add: createParentOpt_def need_default_def make_state_dir_def flags0_def run_simps run_sys_vals cli_os_def parseCIDR_def
        net_of_flags_def port_of_flags_def builtin_of_flags_def Builtin_Parent.NewDriver_def ps Let_def del: publish_of_flags.simps)
qed

lemma flags0_child: "\<exists>copt. createChildOpt pl0 flags0 = Inr copt"
  by (simp add: createChildOpt_def reaper_of_flags_def child_net_of_flags_def flags0_def)

theorem options_agree_witness:
  "\<exists>opt copt. fst (run (createParentOpt pl0 flags0) cli_os []) = Inr opt \<and> createChildOpt pl0 flags0 = Inr copt \<and>
     PortDriver opt \<noteq> None \<and> co_PortDriver copt"
proof -
  obtain opt copt where o: "fst (run (createParentOpt pl0 flags0) cli_os []) = Inr opt" "createChildOpt pl0 flags0 = Inr copt"
    using flags0_parent flags0_child by blast
  have "co_PortDriver copt" using o(2) by (simp add: createChildOpt_fields(8) flags0_def)
  then show ?thesis using options_agree [OF o] o by blast
qed

section \<open>Networks of the command line\<close>



text \<open>A defect of the \<^verbatim>\<open>unshare\<close> helper. It means to pass on the exit code of its command, but the error of
  \<^verbatim>\<open>cmd.Run\<close> is not wrapped and \<^verbatim>\<open>GetExecExitStatus\<close> only looks behind a wrapper: whatever
  status the command had, the code is 1.\<close>

theorem unshare_exit_lost:
  assumes "args \<noteq> []" and "\<And>h x y z w. a_err (os h (StartCmd x y z w)) = None" and "\<And>h p. a_err (os h (WaitProc p)) = Some (WaitErr t ws)"
  shows "fst (run (unshare_Main n args) os h) = 1"
  using assms by (simp add: unshare_Main_def unshare_action_def run_simps run_sys_vals exit_code_def GetExecExitStatus_def)

definition unshare_os :: os where
  "unshare_os h c = (case c of WaitProc p \<Rightarrow> ok_ans\<lparr>a_err := Some (WaitErr ''exit status 32'' (wait_status 32))\<rparr> | _ \<Rightarrow> ok_ans)"

theorem unshare_exit_lost_witness: "fst (run (unshare_Main True [''mount'']) unshare_os []) = 1"
  by (rule unshare_exit_lost [where t = "''exit status 32''" and ws = "wait_status 32"]) (simp_all add: unshare_os_def)

end
