(* ===== verification/Flags.thy ===== *)
theory Flags
  imports Cli
begin

text \<open>
  The declaration of the options of \<^verbatim>\<open>rootlesskit\<close> (\<^verbatim>\<open>cmd/rootlesskit/main.go\<close>) with their
  categories, default values and usage texts, the help text made of them
  (\<^verbatim>\<open>category.go\<close>), and the values that the options have when none is given. The drivers
  that are compiled in are a parameter; the text of a single flag is made by urfave/cli, a
  parameter too.
\<close>

record build =
  b_slirp4netns :: bool
  b_vpnkit :: bool
  b_lxcusernic :: bool
  b_gvisortapvsock :: bool
  b_slirp4netns_port :: bool
  b_gvisortapvsock_port :: bool

definition netDriversHelp :: "build \<Rightarrow> string" where
  "netDriversHelp b =
     Join ([''host'', ''none'', ''pasta(experimental)''] @ (if b_slirp4netns b then [''slirp4netns''] else []) @
       (if b_vpnkit b then [''vpnkit''] else []) @ (if b_lxcusernic b then [''lxc-user-nic(experimental)''] else []) @
       (if b_gvisortapvsock b then [''gvisor-tap-vsock(experimental)''] else [])) '', ''"

definition portDriversHelp :: "build \<Rightarrow> string" where
  "portDriversHelp b =
     Join ([''none'', ''implicit (for pasta)'', ''builtin''] @ (if b_slirp4netns_port b then [''slirp4netns''] else []) @
       (if b_gvisortapvsock_port b then [''gvisor-tap-vsock(experimental)''] else [])) '', ''"

datatype flag_value = VBool bool | VString string | VInt int | VSlice "string list"

record cli_flag =
  cf_Name :: string
  cf_Value :: flag_value
  cf_Category :: string
  cf_Usage :: string

definition flag_decl :: "string \<Rightarrow> flag_value \<Rightarrow> string \<Rightarrow> string \<Rightarrow> cli_flag" where
  "flag_decl n v c u = \<lparr>cf_Name = n, cf_Value = v, cf_Category = c, cf_Usage = u\<rparr>"

definition CategoryState :: string where "CategoryState = ''State''"
definition CategoryNetwork :: string where "CategoryNetwork = ''Network''"
definition CategoryPasta :: string where "CategoryPasta = ''Network [pasta]''"
definition CategorySlirp4netns :: string where "CategorySlirp4netns = ''Network [slirp4netns]''"
definition CategoryVPNKit :: string where "CategoryVPNKit = ''Network [vpnkit]''"
definition CategoryLXCUserNic :: string where "CategoryLXCUserNic = ''Network [lxc-user-nic]''"
definition CategoryPort :: string where "CategoryPort = ''Port''"
definition CategoryMount :: string where "CategoryMount = ''Mount''"
definition CategoryProcess :: string where "CategoryProcess = ''Process''"
definition CategorySubID :: string where "CategorySubID = ''SubID''"
definition CategoryMisc :: string where "CategoryMisc = ''Misc''"

text \<open>\<open>lxcbin\<close> is the path that \<^const>\<open>lxcUserNicBin\<close> found.\<close>

definition app_Flags :: "build \<Rightarrow> string \<Rightarrow> cli_flag list" where
  "app_Flags b lxcbin =
    [flag_decl ''debug'' (VBool False) CategoryMisc
       (''debug mode''),
     flag_decl ''print-semver'' (VString []) CategoryMisc
       (''print a version component as a decimal integer [major, minor, patch]''),
     flag_decl ''state-dir'' (VString []) CategoryState
       (''state directory''),
     flag_decl ''net'' (VString ''host'') CategoryNetwork
       (''network driver ['' @ netDriversHelp b @ '']''),
     flag_decl ''pasta-binary'' (VString ''pasta'') CategoryPasta
       (''path of pasta binary for --net=pasta''),
     flag_decl ''slirp4netns-binary'' (VString ''slirp4netns'') CategorySlirp4netns
       (''path of slirp4netns binary for --net=slirp4netns''),
     flag_decl ''slirp4netns-sandbox'' (VString ''false'') CategorySlirp4netns
       (''enable slirp4netns sandbox (experimental) [auto, true, false] (the default is planned to be '' @ [CHR 0x22] @ ''auto'' @ [CHR 0x22] @ '' in future)''),
     flag_decl ''slirp4netns-seccomp'' (VString ''false'') CategorySlirp4netns
       (''enable slirp4netns seccomp (experimental) [auto, true, false] (the default is planned to be '' @ [CHR 0x22] @ ''auto'' @ [CHR 0x22] @ '' in future)''),
     flag_decl ''vpnkit-binary'' (VString ''vpnkit'') CategoryVPNKit
       (''path of VPNKit binary for --net=vpnkit''),
     flag_decl ''lxc-user-nic-binary'' (VString lxcbin) CategoryLXCUserNic
       (''path of lxc-user-nic binary for --net=lxc-user-nic''),
     flag_decl ''lxc-user-nic-bridge'' (VString ''lxcbr0'') CategoryLXCUserNic
       (''lxc-user-nic bridge name''),
     flag_decl ''mtu'' (VInt 0) CategoryNetwork
       (''MTU for non-host network (default: 65520 for pasta and slirp4netns, 1500 for others)''),
     flag_decl ''cidr'' (VString []) CategoryNetwork
       (''CIDR for pasta, slirp4netns and gvisor-tap-vsock networks (default: 10.0.2.0/24)''),
     flag_decl ''ifname'' (VString []) CategoryNetwork
       (''Network interface name (default: tap0 for pasta, slirp4netns, and vpnkit; eth0 for lxc-user-nic)''),
     flag_decl ''disable-host-loopback'' (VBool False) CategoryNetwork
       (''prohibit connecting to 127.0.0.1:* on the host namespace''),
     flag_decl ''ipv6'' (VBool False) CategoryNetwork
       (''enable IPv6 routing. Unrelated to port forwarding. Only supported for pasta and slirp4netns. (experimental)''),
     flag_decl ''copy-up'' (VSlice []) CategoryMount
       (''mount a filesystem and copy-up the contents. e.g. '' @ [CHR 0x22] @ ''--copy-up=/etc'' @ [CHR 0x22] @ '' (typically required for non-host network)''),
     flag_decl ''copy-up-mode'' (VString ''tmpfs+symlink'') CategoryMount
       (''copy-up mode [tmpfs+symlink]''),
     flag_decl ''port-driver'' (VString ''none'') CategoryPort
       (''port driver for non-host network. ['' @ portDriversHelp b @ '']''),
     flag_decl ''publish'' (VSlice []) CategoryPort
       (''publish ports. e.g. '' @ [CHR 0x22] @ ''127.0.0.1:8080:80/tcp'' @ [CHR 0x22]),
     flag_decl ''source-ip-transparent'' (VBool True) CategoryPort
       (''preserve real client source IP using IP_TRANSPARENT (builtin port driver, TCP only)''),
     flag_decl ''pidns'' (VBool False) CategoryProcess
       (''create a PID namespace''),
     flag_decl ''cgroupns'' (VBool False) CategoryProcess
       (''create a cgroup namespace''),
     flag_decl ''utsns'' (VBool False) CategoryProcess
       (''create a UTS namespace''),
     flag_decl ''ipcns'' (VBool False) CategoryProcess
       (''create an IPC namespace''),
     flag_decl ''detach-netns'' (VBool False) CategoryNetwork
       (''detach network namespaces ''),
     flag_decl ''propagation'' (VString ''rprivate'') CategoryMount
       (''mount propagation [rprivate, rslave]''),
     flag_decl ''reaper'' (VString ''auto'') CategoryProcess
       (''enable process reaper. Requires --pidns. [auto,true,false]''),
     flag_decl ''evacuate-cgroup2'' (VString []) CategoryProcess
       (''evacuate processes into the specified subgroup. Requires --pidns and --cgroupns''),
     flag_decl ''subid-source'' (VString ''auto'') CategorySubID
       (''the source of the subids. '' @ [CHR 0x22] @ ''dynamic'' @ [CHR 0x22] @ '' executes /usr/bin/getsubids. '' @ [CHR 0x22] @ ''static'' @ [CHR 0x22] @ '' reads /etc/{subuid,subgid}. [auto,dynamic,static]'')]"

section \<open>The help text\<close>

text \<open>The flags collected by category, in the order of the declaration.\<close>

definition flag_category :: "cli_flag \<Rightarrow> string" where
  "flag_category f = (if cf_Category f \<noteq> [] then cf_Category f else ''(Uncategorized)'')"

definition add_flag :: "cli_flag \<Rightarrow> (string \<times> cli_flag list) list \<Rightarrow> (string \<times> cli_flag list) list" where
  "add_flag f m =
     (let cat = flag_category f;
          m' = (case map_of m cat of None \<Rightarrow> map_put cat [] m | Some _ \<Rightarrow> m)
      in map_put cat ((case map_of m' cat of Some l \<Rightarrow> l | None \<Rightarrow> []) @ [f]) m')"

definition collect_flags :: "cli_flag list \<Rightarrow> (string \<times> cli_flag list) list" where
  "collect_flags flags = fold add_flag flags []"

definition flag_groups :: "cli_flag list \<Rightarrow> (string \<times> cli_flag list) list" where
  "flag_groups flags =
     (let m = collect_flags flags; catList = sort (keys m)
      in map (\<lambda>cat. (cat, case map_of m cat of Some l \<Rightarrow> l | None \<Rightarrow> [])) catList)"

definition formatFlags :: "(cli_flag \<Rightarrow> string) \<Rightarrow> cli_flag list \<Rightarrow> string" where
  "formatFlags flag_string flags =
     concat (map (\<lambda>(cat, catFlags).
       ''  '' @ cat @ [CHR '':'', CHR 0x09, CHR 0x0A] @
       concat (map (\<lambda>f. ''    '' @ flag_string f @ [CHR 0x0A]) catFlags) @ ''  '' @ [CHR 0x09, CHR 0x0A]) (flag_groups flags))"

definition flags_in :: "(string \<times> cli_flag list) list \<Rightarrow> string \<Rightarrow> cli_flag list" where
  "flags_in m c = (case map_of m c of Some l \<Rightarrow> l | None \<Rightarrow> [])"

lemma add_flag_facts:
  "wf_map m \<Longrightarrow> wf_map (add_flag f m)"
  "flags_in (add_flag f m) c = flags_in m c @ (if flag_category f = c then [f] else [])"
  "set (keys (add_flag f m)) = insert (flag_category f) (set (keys m))"
  by (auto simp: add_flag_def flags_in_def Let_def split: option.splits)

lemma fold_add_flag:
  "wf_map m \<Longrightarrow> wf_map (fold add_flag fs m)"
  "flags_in (fold add_flag fs m) c = flags_in m c @ filter (\<lambda>f. flag_category f = c) fs"
  "set (keys (fold add_flag fs m)) = flag_category ` set fs \<union> set (keys m)"
  by (induction fs arbitrary: m) (auto simp: add_flag_facts)

lemma collect_flags_facts:
  "distinct (keys (collect_flags fs))"
  "flags_in (collect_flags fs) c = filter (\<lambda>f. flag_category f = c) fs"
  "set (keys (collect_flags fs)) = flag_category ` set fs"
  using fold_add_flag(1) [OF wf_map_Nil, of fs]
  by (simp_all add: collect_flags_def wf_map_def fold_add_flag(2,3)) (simp_all add: flags_in_def keys_def)

text \<open>Reference: the categories in order, each with its flags in the order of the declaration.\<close>

lemma flag_groups_eq:
  "flag_groups fs = map (\<lambda>c. (c, filter (\<lambda>f. flag_category f = c) fs)) (sorted_list_of_set (flag_category ` set fs))"
proof -
  have "sort (keys (collect_flags fs)) = sorted_list_of_set (flag_category ` set fs)"
    using collect_flags_facts(1,3) [of fs] sorted_list_of_set_sort_remdups [of "keys (collect_flags fs)"]
    by (simp add: distinct_remdups_id)
  then show ?thesis
    by (simp only: flag_groups_def Let_def flags_in_def [symmetric] collect_flags_facts(2))
qed

lemma mset_groups:
  assumes "distinct cs" and "f ` set xs \<subseteq> set cs"
  shows "mset (concat (map (\<lambda>c. filter (\<lambda>x. f x = c) xs) cs)) = mset xs"
  using assms
proof (induction xs)
  case Nil
  then show ?case by (induction cs) auto
next
  case (Cons x xs)
  then obtain as bs where cs: "cs = as @ f x # bs" by (auto dest: split_list)
  with Cons.prems(1) have no: "f x \<notin> set as" "f x \<notin> set bs" by auto
  have skip: "map (\<lambda>c. filter (\<lambda>y. f y = c) (x # xs)) ds = map (\<lambda>c. filter (\<lambda>y. f y = c) xs) ds" if "f x \<notin> set ds" for ds
    using that by (induction ds) auto
  have "mset (concat (map (\<lambda>c. filter (\<lambda>y. f y = c) (x # xs)) cs)) =
      add_mset x (mset (concat (map (\<lambda>c. filter (\<lambda>y. f y = c) xs) cs)))"
    unfolding cs map_append list.map skip [OF no(1)] skip [OF no(2)] by simp
  with Cons show ?case by simp
qed

text \<open>The help text. Every option that is declared is listed exactly once, under its own category
  and there in the order of the declaration; the categories are in order, each once, and
  none is empty.\<close>

theorem formatFlags_groups:
  "sorted (map fst (flag_groups fs)) \<and> distinct (map fst (flag_groups fs)) \<and>
   mset (concat (map snd (flag_groups fs))) = mset fs \<and>
   (\<forall>g\<in>set (flag_groups fs). snd g = filter (\<lambda>f. flag_category f = fst g) fs \<and> snd g \<noteq> [])"
proof -
  let ?cs = "sorted_list_of_set (flag_category ` set fs)"
  have "map fst (flag_groups fs) = ?cs" "map snd (flag_groups fs) = map (\<lambda>c. filter (\<lambda>f. flag_category f = c) fs) ?cs"
    by (simp_all add: flag_groups_eq comp_def)
  moreover have "mset (concat (map (\<lambda>c. filter (\<lambda>f. flag_category f = c) fs) ?cs)) = mset fs"
    by (rule mset_groups) simp_all
  moreover have "\<forall>g\<in>set (flag_groups fs). snd g = filter (\<lambda>f. flag_category f = fst g) fs \<and> snd g \<noteq> []"
    by (auto simp: flag_groups_eq filter_empty_conv)
  ultimately show ?thesis by (simp only: sorted_sorted_list_of_set distinct_sorted_list_of_set simp_thms)
qed

section \<open>The default values\<close>

definition default_value :: "cli_flag list \<Rightarrow> string \<Rightarrow> flag_value option" where
  "default_value fs n = map_option cf_Value (find (\<lambda>f. cf_Name f = n) fs)"

definition dstr :: "cli_flag list \<Rightarrow> string \<Rightarrow> string" where
  "dstr fs n = (case default_value fs n of Some (VString s) \<Rightarrow> s | _ \<Rightarrow> [])"

definition dbool :: "cli_flag list \<Rightarrow> string \<Rightarrow> bool" where
  "dbool fs n = (case default_value fs n of Some (VBool b) \<Rightarrow> b | _ \<Rightarrow> False)"

definition dint :: "cli_flag list \<Rightarrow> string \<Rightarrow> int" where
  "dint fs n = (case default_value fs n of Some (VInt i) \<Rightarrow> i | _ \<Rightarrow> 0)"

definition dslice :: "cli_flag list \<Rightarrow> string \<Rightarrow> string list" where
  "dslice fs n = (case default_value fs n of Some (VSlice l) \<Rightarrow> l | _ \<Rightarrow> [])"

definition default_flags :: "cli_flag list \<Rightarrow> string list \<Rightarrow> flags" where
  "default_flags fs args =
     \<lparr>fl_args = args, fl_print_semver = dstr fs ''print-semver'', fl_state_dir = dstr fs ''state-dir'', fl_net = dstr fs ''net'',
      fl_mtu = dint fs ''mtu'', fl_cidr = dstr fs ''cidr'', fl_ifname = dstr fs ''ifname'', fl_ipv6 = dbool fs ''ipv6'',
      fl_disable_host_loopback = dbool fs ''disable-host-loopback'', fl_detach_netns = dbool fs ''detach-netns'',
      fl_pasta_binary = dstr fs ''pasta-binary'', fl_slirp4netns_binary = dstr fs ''slirp4netns-binary'',
      fl_slirp4netns_sandbox = dstr fs ''slirp4netns-sandbox'', fl_slirp4netns_seccomp = dstr fs ''slirp4netns-seccomp'',
      fl_vpnkit_binary = dstr fs ''vpnkit-binary'', fl_lxc_user_nic_binary = dstr fs ''lxc-user-nic-binary'',
      fl_lxc_user_nic_bridge = dstr fs ''lxc-user-nic-bridge'', fl_port_driver = dstr fs ''port-driver'',
      fl_publish = dslice fs ''publish'', fl_source_ip_transparent = dbool fs ''source-ip-transparent'', fl_pidns = dbool fs ''pidns'',
      fl_cgroupns = dbool fs ''cgroupns'', fl_utsns = dbool fs ''utsns'', fl_ipcns = dbool fs ''ipcns'',
      fl_propagation = dstr fs ''propagation'', fl_reaper = dstr fs ''reaper'', fl_evacuate_cgroup2 = dstr fs ''evacuate-cgroup2'',
      fl_subid_source = dstr fs ''subid-source'', fl_copy_up = dslice fs ''copy-up'', fl_copy_up_mode = dstr fs ''copy-up-mode''\<rparr>"


lemma flag_names_distinct: "distinct (map cf_Name (app_Flags b lxcbin))"
  by (simp add: app_Flags_def flag_decl_def del: append.simps)

lemma flag_table: "map (\<lambda>f. (cf_Name f, cf_Value f)) (app_Flags b lxcbin) =
     [(''debug'', VBool False),
      (''print-semver'', VString []),
      (''state-dir'', VString []),
      (''net'', VString ''host''),
      (''pasta-binary'', VString ''pasta''),
      (''slirp4netns-binary'', VString ''slirp4netns''),
      (''slirp4netns-sandbox'', VString ''false''),
      (''slirp4netns-seccomp'', VString ''false''),
      (''vpnkit-binary'', VString ''vpnkit''),
      (''lxc-user-nic-binary'', VString lxcbin),
      (''lxc-user-nic-bridge'', VString ''lxcbr0''),
      (''mtu'', VInt 0),
      (''cidr'', VString []),
      (''ifname'', VString []),
      (''disable-host-loopback'', VBool False),
      (''ipv6'', VBool False),
      (''copy-up'', VSlice []),
      (''copy-up-mode'', VString ''tmpfs+symlink''),
      (''port-driver'', VString ''none''),
      (''publish'', VSlice []),
      (''source-ip-transparent'', VBool True),
      (''pidns'', VBool False),
      (''cgroupns'', VBool False),
      (''utsns'', VBool False),
      (''ipcns'', VBool False),
      (''detach-netns'', VBool False),
      (''propagation'', VString ''rprivate''),
      (''reaper'', VString ''auto''),
      (''evacuate-cgroup2'', VString []),
      (''subid-source'', VString ''auto'')]"
  by (simp add: app_Flags_def flag_decl_def)

lemma default_value_map_of: "default_value fs n = map_of (map (\<lambda>f. (cf_Name f, cf_Value f)) fs) n"
  by (induction fs) (auto simp: default_value_def)

lemma default_flags_eq:
  "default_flags (app_Flags b lxcbin) args =
     \<lparr>fl_args = args, fl_print_semver = [], fl_state_dir = [], fl_net = ''host'', fl_mtu = 0, fl_cidr = [], fl_ifname = [], fl_ipv6 = False,
      fl_disable_host_loopback = False, fl_detach_netns = False, fl_pasta_binary = ''pasta'', fl_slirp4netns_binary = ''slirp4netns'',
      fl_slirp4netns_sandbox = ''false'', fl_slirp4netns_seccomp = ''false'', fl_vpnkit_binary = ''vpnkit'',
      fl_lxc_user_nic_binary = lxcbin, fl_lxc_user_nic_bridge = ''lxcbr0'', fl_port_driver = ''none'', fl_publish = [],
      fl_source_ip_transparent = True, fl_pidns = False, fl_cgroupns = False, fl_utsns = False, fl_ipcns = False,
      fl_propagation = ''rprivate'', fl_reaper = ''auto'', fl_evacuate_cgroup2 = [], fl_subid_source = ''auto'', fl_copy_up = [],
      fl_copy_up_mode = ''tmpfs+symlink''\<rparr>"
  unfolding default_flags_def dstr_def dbool_def dint_def dslice_def default_value_map_of flag_table by simp

section \<open>The application object\<close>

text \<open>
  The help template, the hook that runs before the action and the formatter of the log it installs.
  \<open>inner\<close> is the formatter that logrus had before.
\<close>

record cli_app =
  app_Name :: string
  app_Usage :: string
  app_UsageText :: string
  app_HideHelpCommand :: bool

definition new_app :: cli_app where
  "new_app = \<lparr>app_Name = ''rootlesskit'', app_Usage = ''Linux-native fakeroot using user namespaces'',
     app_UsageText = ''rootlesskit [global options] [arguments...]'', app_HideHelpCommand = True\<rparr>"

record log_state =
  log_debug :: bool
  log_format :: "string \<Rightarrow> string res"

definition logrusFormatter_Format :: "string \<Rightarrow> (string \<Rightarrow> string res) \<Rightarrow> string \<Rightarrow> string res" where
  "logrusFormatter_Format ident inner msg = inner (''[rootlesskit:'' @ ident @ ''] '' @ msg)"

definition app_Before :: "bool \<Rightarrow> string \<Rightarrow> log_state \<Rightarrow> unit res \<times> log_state" where
  "app_Before debug ident l =
     (let l1 = (if debug then l\<lparr>log_debug := True\<rparr> else l)
      in (Inr (), l1\<lparr>log_format := logrusFormatter_Format ident (log_format l1)\<rparr>))"

text \<open>The parent and the child log to the same stream; every message starts with the role of its process.\<close>

lemma log_messages_tagged:
  "app_Before debug ident \<lparr>log_debug = False, log_format = Inr\<rparr> = (Inr (), l) \<Longrightarrow>
     log_debug l = debug \<and> log_format l msg = Inr (''[rootlesskit:'' @ ident @ ''] '' @ msg)"
  by (cases debug) (auto simp: app_Before_def logrusFormatter_Format_def Let_def)

end
