(* ===== verification/Rest_Api.thy ===== *)
theory Rest_Api
  imports Builtin_Parent Slirp_Port Gvisor_Port
begin

text \<open>
  The REST API: \<^verbatim>\<open>pkg/httputil\<close>, \<^verbatim>\<open>pkg/api/router\<close> (server) and \<^verbatim>\<open>pkg/api/client\<close>.
  A port driver is a record of its operations on its own state, so that the handlers serve
  every driver. The path templates are matched by gorilla/mux, a parameter that returns the
  variables of the template when the path matches. The client reaches the server through a
  function from requests to responses.
\<close>

record http_request =
  hr_Method :: string
  hr_Path :: string
  hr_Body :: string

record http_response =
  hp_Code :: int
  hp_Body :: string

section \<open>httputil\<close>

definition HTTPStatusErrorBodyMaxLength :: nat where
  "HTTPStatusErrorBodyMaxLength = 64 * 1024"

text \<open>The bytes read and whether the limit was reached, which is reported as an error.\<close>

definition readAtMost :: "string \<Rightarrow> nat \<Rightarrow> string \<times> unit res" where
  "readAtMost body maxBytes =
     (let b = take maxBytes body in
      (b, if length b = maxBytes
          then Inl (Errorf ''expected at most %d bytes, got more'' [strconv_Itoa (int maxBytes)])
          else Inr ()))"

definition StatusText :: "int \<Rightarrow> string" where
  "StatusText c =
     (if c = 400 then ''Bad Request'' else if c = 404 then ''Not Found''
      else if c = 405 then ''Method Not Allowed'' else if c = 500 then ''Internal Server Error'' else [])"

definition dec_ErrorJSON :: "json \<Rightarrow> string res" where
  "dec_ErrorJSON j =
     (case j of JNull \<Rightarrow> Inr [] | JObj ms \<Rightarrow> get_str ''message'' ms | _ \<Rightarrow> Inl type_error)"

text \<open>\<^verbatim>\<open>HTTPStatusError.Error\<close>.\<close>

definition HTTPStatusError_Error :: "int \<Rightarrow> string \<Rightarrow> string" where
  "HTTPStatusError_Error code body =
     (let ej = (if body \<noteq> [] \<and> length body < HTTPStatusErrorBodyMaxLength
                then (case json_parse body of Inl e \<Rightarrow> Inl e | Inr j \<Rightarrow> dec_ErrorJSON j)
                else Inl type_error)
      in case ej of
           Inr m \<Rightarrow> m
         | Inl _ \<Rightarrow> ''unexpected HTTP status '' @ StatusText code @ '', body='' @ quote body)"

definition Successful :: "http_response \<Rightarrow> unit res" where
  "Successful resp =
     (if hp_Code resp div 100 \<noteq> 2
      then Inl (Sys (HTTPStatusError_Error (hp_Code resp) (fst (readAtMost (hp_Body resp) HTTPStatusErrorBodyMaxLength))))
      else Inr ())"

definition WriteError :: "err \<Rightarrow> int \<Rightarrow> http_response" where
  "WriteError e ec = \<lparr>hp_Code = ec, hp_Body = print_json (JObj [(''message'', JStr (err_text e))]) @ [CHR 0x0A]\<rparr>"

section \<open>JSON forms\<close>

definition enc_Spec :: "Spec \<Rightarrow> json" where
  "enc_Spec sp =
     JObj ((if Proto sp = [] then [] else [(''proto'', JStr (Proto sp))]) @
           (if ParentIP sp = [] then [] else [(''parentIP'', JStr (ParentIP sp))]) @
           (if ParentPort sp = 0 then [] else [(''parentPort'', enc_int (ParentPort sp))]) @
           (if ChildPort sp = 0 then [] else [(''childPort'', enc_int (ChildPort sp))]) @
           (if ChildIP sp = [] then [] else [(''childIP'', JStr (ChildIP sp))]))"

definition dec_Spec :: "json \<Rightarrow> Spec res" where
  "dec_Spec j =
     (case j of
        JNull \<Rightarrow> Inr \<lparr>Proto = [], ParentIP = [], ParentPort = 0, ChildPort = 0, ChildIP = []\<rparr>
      | JObj ms \<Rightarrow>
          (case (get_str ''proto'' ms, get_str ''parentIP'' ms, get_int ''parentPort'' ms,
                 get_int ''childPort'' ms, get_str ''childIP'' ms) of
             (Inr p, Inr pip, Inr pp, Inr cp, Inr cip) \<Rightarrow>
               Inr \<lparr>Proto = p, ParentIP = pip, ParentPort = pp, ChildPort = cp, ChildIP = cip\<rparr>
           | _ \<Rightarrow> Inl type_error)
      | _ \<Rightarrow> Inl type_error)"

definition enc_Status :: "Status \<Rightarrow> json" where
  "enc_Status st = JObj [(''id'', enc_int (ID st)), (''spec'', enc_Spec (St_Spec st))]"

definition dec_Status :: "json \<Rightarrow> Status res" where
  "dec_Status j =
     (case j of
        JNull \<Rightarrow> Inr \<lparr>ID = 0, St_Spec = \<lparr>Proto = [], ParentIP = [], ParentPort = 0, ChildPort = 0, ChildIP = []\<rparr>\<rparr>
      | JObj ms \<Rightarrow>
          (case (get_int ''id'' ms, (case last_member ''spec'' ms of None \<Rightarrow> dec_Spec JNull | Some v \<Rightarrow> dec_Spec v)) of
             (Inr i, Inr sp) \<Rightarrow> Inr \<lparr>ID = i, St_Spec = sp\<rparr>
           | _ \<Rightarrow> Inl type_error)
      | _ \<Rightarrow> Inl type_error)"

text \<open>\<^verbatim>\<open>IP.MarshalText\<close>: nil is the empty text, and only addresses of 4 or 16 bytes have a text.\<close>

definition enc_IP :: "IP \<Rightarrow> json" where
  "enc_IP ip = JStr (if ip = nil_IP then [] else IP_String ip)"

definition IP_marshals :: "IP \<Rightarrow> bool" where
  "IP_marshals ip \<longleftrightarrow> length ip = 0 \<or> length ip = 4 \<or> length ip = 16"

definition enc_NetworkDriverInfo :: "NetworkDriverInfo \<Rightarrow> json" where
  "enc_NetworkDriverInfo i =
     JObj ([(''driver'', JStr (ndi_Driver i))] @
           (if ndi_DNS i = [] then [] else [(''dns'', JArr (map enc_IP (ndi_DNS i)))]) @
           (if ndi_ChildIP i = nil_IP then [] else [(''childIP'', enc_IP (ndi_ChildIP i))]) @
           (if ndi_DynamicChildIP i then [(''dynamicChildIP'', JBool True)] else []))"

definition enc_PortDriverInfo :: "PortDriverInfo \<Rightarrow> json" where
  "enc_PortDriverInfo i =
     JObj ([(''driver'', JStr (pdi_Driver i)), (''protos'', enc_list JStr (pdi_Protos i))] @
           (if pdi_DisallowLoopbackChildIP i then [(''disallowLoopbackChildIP'', JBool True)] else []))"

record Info =
  inf_APIVersion :: string
  inf_Version :: string
  inf_StateDir :: string
  inf_ChildPID :: int
  inf_NetworkDriver :: "NetworkDriverInfo option"
  inf_PortDriver :: "PortDriverInfo option"

definition enc_Info :: "Info \<Rightarrow> json" where
  "enc_Info i =
     JObj ([(''apiVersion'', JStr (inf_APIVersion i)), (''version'', JStr (inf_Version i)),
            (''stateDir'', JStr (inf_StateDir i)), (''childPID'', enc_int (inf_ChildPID i))] @
           (case inf_NetworkDriver i of None \<Rightarrow> [] | Some n \<Rightarrow> [(''networkDriver'', enc_NetworkDriverInfo n)]) @
           (case inf_PortDriver i of None \<Rightarrow> [] | Some p \<Rightarrow> [(''portDriver'', enc_PortDriverInfo p)]))"

text \<open>\<^verbatim>\<open>json.Marshal(info)\<close> fails only on an address that has no text.\<close>

definition marshal_Info :: "Info \<Rightarrow> string res" where
  "marshal_Info i =
     (case inf_NetworkDriver i of
        Some n \<Rightarrow>
          (case find (\<lambda>ip. \<not> IP_marshals ip) (ndi_DNS n @ [ndi_ChildIP n]) of
             Some ip \<Rightarrow> Inl (Sys (''json: error calling MarshalText for type net.IP: address '' @ tl (IP_String ip) @ '': invalid IP address''))
           | None \<Rightarrow> Inr (print_json (enc_Info i)))
      | None \<Rightarrow> Inr (print_json (enc_Info i)))"

section \<open>The router\<close>

record 's PortDriver =
  pd_Info :: "'s \<Rightarrow> PortDriverInfo res"
  pd_AddPort :: "'s \<Rightarrow> Spec \<Rightarrow> Status res \<times> 's"
  pd_ListPorts :: "'s \<Rightarrow> Status list res"
  pd_RemovePort :: "'s \<Rightarrow> int \<Rightarrow> unit res \<times> 's"

record 's Backend =
  be_StateDir :: string
  be_ChildPID :: int
  be_NetworkDriver :: "NetworkDriverInfo res option"
  be_PortDriver :: "'s PortDriver option"

definition onPortDriverNil :: http_response where
  "onPortDriverNil = WriteError (New ''no PortDriver is available'') 400"

definition GetPorts :: "'s Backend \<Rightarrow> http_request \<Rightarrow> 's \<Rightarrow> http_response \<times> 's" where
  "GetPorts b r s =
     (case be_PortDriver b of
        None \<Rightarrow> (onPortDriverNil, s)
      | Some d \<Rightarrow>
          (case pd_ListPorts d s of
             Inl e \<Rightarrow> (WriteError e 500, s)
           | Inr ps \<Rightarrow> (\<lparr>hp_Code = 200, hp_Body = print_json (enc_list enc_Status ps)\<rparr>, s)))"

definition PostPort :: "'s Backend \<Rightarrow> http_request \<Rightarrow> 's \<Rightarrow> http_response \<times> 's" where
  "PostPort b r s =
     (case be_PortDriver b of
        None \<Rightarrow> (onPortDriverNil, s)
      | Some d \<Rightarrow>
          (case (case json_decode (hr_Body r) of Inl e \<Rightarrow> Inl e | Inr j \<Rightarrow> dec_Spec j) of
             Inl e \<Rightarrow> (WriteError e 400, s)
           | Inr portSpec \<Rightarrow>
               (case pd_AddPort d s portSpec of
                  (Inl e, s') \<Rightarrow> (WriteError e 400, s')
                | (Inr portStatus, s') \<Rightarrow> (\<lparr>hp_Code = 201, hp_Body = print_json (enc_Status portStatus)\<rparr>, s'))))"

definition DeletePort :: "'s Backend \<Rightarrow> (string \<times> string) list \<Rightarrow> http_request \<Rightarrow> 's \<Rightarrow> http_response \<times> 's" where
  "DeletePort b vars r s =
     (case be_PortDriver b of
        None \<Rightarrow> (onPortDriverNil, s)
      | Some d \<Rightarrow>
          (case map_of vars ''id'' of
             None \<Rightarrow> (WriteError (New ''id not specified'') 400, s)
           | Some idStr \<Rightarrow>
               (case strconv_Atoi idStr of
                  Inl e \<Rightarrow> (WriteError (Wrapf ''bad id %s: %w'' [idStr] e) 400, s)
                | Inr i \<Rightarrow>
                    (case pd_RemovePort d s i of
                       (Inl e, s') \<Rightarrow> (WriteError e 400, s')
                     | (Inr _, s') \<Rightarrow> (\<lparr>hp_Code = 200, hp_Body = []\<rparr>, s')))))"

definition GetInfo :: "'s Backend \<Rightarrow> http_request \<Rightarrow> 's \<Rightarrow> http_response \<times> 's" where
  "GetInfo b r s =
     (let info = \<lparr>inf_APIVersion = ''1.1.1'', inf_Version = ''3.0.1+dev'', inf_StateDir = be_StateDir b,
                  inf_ChildPID = be_ChildPID b, inf_NetworkDriver = None, inf_PortDriver = None\<rparr>;
          send = (\<lambda>i. case marshal_Info i of Inl e \<Rightarrow> WriteError e 500 | Inr m \<Rightarrow> \<lparr>hp_Code = 200, hp_Body = m\<rparr>) in
      case be_NetworkDriver b of
        Some (Inl e) \<Rightarrow> (WriteError e 500, s)
      | nd \<Rightarrow>
          (let info1 = (case nd of Some (Inr n) \<Rightarrow> info\<lparr>inf_NetworkDriver := Some n\<rparr> | _ \<Rightarrow> info) in
           case be_PortDriver b of
             None \<Rightarrow> (send info1, s)
           | Some d \<Rightarrow>
               (case pd_Info d s of
                  Inl e \<Rightarrow> (WriteError e 500, s)
                | Inr p \<Rightarrow> (send (info1\<lparr>inf_PortDriver := Some p\<rparr>), s))))"

text \<open>
  \<^verbatim>\<open>AddRoutes\<close> under the matcher of gorilla/mux: the first route whose template and method
  match serves the request; a path that matches with another method gives 405, no match 404.
\<close>

type_synonym matcher = "string \<Rightarrow> string \<Rightarrow> (string \<times> string) list option"

definition AddRoutes :: "matcher \<Rightarrow> 's Backend \<Rightarrow> http_request \<Rightarrow> 's \<Rightarrow> http_response \<times> 's" where
  "AddRoutes match b r s =
     (let ports = match ''/v1/ports'' (hr_Path r); port = match ''/v1/ports/{id}'' (hr_Path r);
          info = match ''/v1/info'' (hr_Path r); m = hr_Method r
      in if ports \<noteq> None \<and> m = ''GET'' then GetPorts b r s
         else if ports \<noteq> None \<and> m = ''POST'' then PostPort b r s
         else if port \<noteq> None \<and> m = ''DELETE'' then DeletePort b (the port) r s
         else if info \<noteq> None \<and> m = ''GET'' then GetInfo b r s
         else if ports \<noteq> None \<or> port \<noteq> None \<or> info \<noteq> None then (\<lparr>hp_Code = 405, hp_Body = []\<rparr>, s)
         else (\<lparr>hp_Code = 404, hp_Body = ''404 page not found''\<rparr>, s))"

section \<open>The client\<close>

text \<open>\<open>do\<close> is \<^verbatim>\<open>http.Client.Do\<close> on the state of the server; the host part of the URL is a dummy.\<close>

type_synonym 's http_do = "http_request \<Rightarrow> 's \<Rightarrow> http_response res \<times> 's"

definition client_AddPort :: "'s http_do \<Rightarrow> 's \<Rightarrow> Spec \<Rightarrow> Status res \<times> 's" where
  "client_AddPort do s spec =
     (case do \<lparr>hr_Method = ''POST'', hr_Path = ''/v1/ports'', hr_Body = print_json (enc_Spec spec)\<rparr> s of
        (Inl e, s') \<Rightarrow> (Inl e, s')
      | (Inr resp, s') \<Rightarrow>
          (case Successful resp of
             Inl e \<Rightarrow> (Inl e, s')
           | Inr _ \<Rightarrow>
               (case json_decode (hp_Body resp) of
                  Inl e \<Rightarrow> (Inl e, s')
                | Inr j \<Rightarrow> (dec_Status j, s'))))"

definition dec_statuses :: "json \<Rightarrow> Status list res" where
  "dec_statuses j = (case j of JNull \<Rightarrow> Inr [] | JArr xs \<Rightarrow> map_res dec_Status xs | _ \<Rightarrow> Inl type_error)"

definition client_ListPorts :: "'s http_do \<Rightarrow> 's \<Rightarrow> Status list res \<times> 's" where
  "client_ListPorts do s =
     (case do \<lparr>hr_Method = ''GET'', hr_Path = ''/v1/ports'', hr_Body = []\<rparr> s of
        (Inl e, s') \<Rightarrow> (Inl e, s')
      | (Inr resp, s') \<Rightarrow>
          (case Successful resp of
             Inl e \<Rightarrow> (Inl e, s')
           | Inr _ \<Rightarrow>
               (case json_decode (hp_Body resp) of
                  Inl e \<Rightarrow> (Inl e, s')
                | Inr j \<Rightarrow> (dec_statuses j, s'))))"

definition client_RemovePort :: "'s http_do \<Rightarrow> 's \<Rightarrow> int \<Rightarrow> unit res \<times> 's" where
  "client_RemovePort do s i =
     (case do \<lparr>hr_Method = ''DELETE'', hr_Path = ''/v1/ports/'' @ strconv_Itoa i, hr_Body = []\<rparr> s of
        (Inl e, s') \<Rightarrow> (Inl e, s')
      | (Inr resp, s') \<Rightarrow>
          (case Successful resp of Inl e \<Rightarrow> (Inl e, s') | Inr _ \<Rightarrow> (Inr (), s')))"

section \<open>Client and server together\<close>

text \<open>The documented matching of gorilla/mux on the three templates of the API.\<close>

definition mux_documented :: "matcher \<Rightarrow> bool" where
  "mux_documented match \<longleftrightarrow>
     (\<forall>p. match ''/v1/ports'' p = (if p = ''/v1/ports'' then Some [] else None)) \<and>
     (\<forall>p. match ''/v1/info'' p = (if p = ''/v1/info'' then Some [] else None)) \<and>
     (\<forall>s. s \<noteq> [] \<and> CHR ''/'' \<notin> set s \<longrightarrow> match ''/v1/ports/{id}'' (''/v1/ports/'' @ s) = Some [(''id'', s)])"

definition path_match :: matcher where
  "path_match tmpl p =
     (if tmpl = ''/v1/ports/{id}'' then
        (if HasPrefix p ''/v1/ports/'' \<and> p \<noteq> ''/v1/ports/'' \<and> CHR ''/'' \<notin> set (drop 10 p)
         then Some [(''id'', drop 10 p)] else None)
      else if p = tmpl then Some [] else None)"

lemma path_match_documented: "mux_documented path_match"
  by (simp add: mux_documented_def path_match_def)

definition serve :: "matcher \<Rightarrow> 's Backend \<Rightarrow> 's http_do" where
  "serve match b r s = (case AddRoutes match b r s of (resp, s') \<Rightarrow> (Inr resp, s'))"

definition wf_Spec :: "Spec \<Rightarrow> bool" where
  "wf_Spec sp \<longleftrightarrow> int64_ok (ParentPort sp) \<and> int64_ok (ChildPort sp)"

definition wf_Status :: "Status \<Rightarrow> bool" where
  "wf_Status st \<longleftrightarrow> int64_ok (ID st) \<and> wf_Spec (St_Spec st)"

lemma lower_spec_names:
  "map ToLower [''proto'', ''parentIP'', ''parentPort'', ''childPort'', ''childIP'', ''id'', ''spec'', ''message'']
     = [''proto'', ''parentip'', ''parentport'', ''childport'', ''childip'', ''id'', ''spec'', ''message'']"
  by code_simp

lemmas lower_spec_name = lower_spec_names [simplified list.map list.inject]

lemma wf_enc_Spec [simp]: "wf_json (enc_Spec sp)"
  by (auto simp: enc_Spec_def)

lemma wf_enc_Status [simp]: "wf_json (enc_Status st)"
  by (simp add: enc_Status_def)

lemma dec_enc_Spec:
  assumes "wf_Spec sp"
  shows "dec_Spec (enc_Spec sp) = Inr sp"
proof -
  obtain ms where ms: "enc_Spec sp = JObj ms" by (simp add: enc_Spec_def)
  note d = enc_Spec_def lower_spec_name last_member_append
  have "get_str ''proto'' ms = Inr (Proto sp)" "get_str ''parentIP'' ms = Inr (ParentIP sp)"
    "get_str ''childIP'' ms = Inr (ChildIP sp)"
    using ms by (auto simp: d get_str_def)
  moreover have "get_int ''parentPort'' ms = Inr (ParentPort sp)" "get_int ''childPort'' ms = Inr (ChildPort sp)"
    using ms assms by (auto simp: d get_int_def enc_int_def Atoi_Itoa wf_Spec_def)
  ultimately show ?thesis unfolding ms dec_Spec_def by simp
qed

lemma dec_enc_Status: "wf_Status st \<Longrightarrow> dec_Status (enc_Status st) = Inr st"
  by (simp add: dec_Status_def enc_Status_def lower_spec_name get_int_def enc_int_def Atoi_Itoa
      wf_Status_def dec_enc_Spec)

lemma Successful_2xx [simp]: "Successful \<lparr>hp_Code = 200, hp_Body = b\<rparr> = Inr ()" "Successful \<lparr>hp_Code = 201, hp_Body = b\<rparr> = Inr ()"
  by (simp_all add: Successful_def)

text \<open>An error body that is not cut off carries the text of the error to the client.\<close>

definition short_err :: "err \<Rightarrow> bool" where
  "short_err e \<longleftrightarrow> length (hp_Body (WriteError e 400)) < HTTPStatusErrorBodyMaxLength"

lemma Successful_WriteError:
  assumes "short_err e" and "ec div 100 \<noteq> 2"
  shows "Successful (WriteError e ec) = Inl (Sys (err_text e))"
proof -
  let ?j = "JObj [(''message'', JStr (err_text e))]"
  have b: "hp_Body (WriteError e ec) = print_json ?j @ [CHR 0x0A]" "hp_Code (WriteError e ec) = ec"
    by (simp_all add: WriteError_def)
  have len: "length (print_json ?j @ [CHR 0x0A]) < HTTPStatusErrorBodyMaxLength"
    using assms(1) by (simp add: short_err_def WriteError_def)
  have "json_parse (print_json ?j @ [CHR 0x0A]) = Inr ?j" by (rule json_parse_newline) simp
  moreover have "dec_ErrorJSON ?j = Inr (err_text e)" by (simp add: dec_ErrorJSON_def get_str_def lower_spec_name)
  ultimately have "HTTPStatusError_Error ec (print_json ?j @ [CHR 0x0A]) = err_text e"
    using len unfolding HTTPStatusError_Error_def by (simp add: Let_def)
  moreover have "fst (readAtMost (print_json ?j @ [CHR 0x0A]) HTTPStatusErrorBodyMaxLength) = print_json ?j @ [CHR 0x0A]"
    using len by (simp add: readAtMost_def Let_def)
  ultimately show ?thesis using assms(2) unfolding Successful_def b by simp
qed

lemma WriteError_fails: "ec div 100 \<noteq> 2 \<Longrightarrow> \<exists>e'. Successful (WriteError e ec) = Inl e'"
  by (simp add: Successful_def WriteError_def)

lemma serve_post:
  assumes "mux_documented match" and "be_PortDriver b = Some d" and "wf_Spec sp"
  shows "serve match b \<lparr>hr_Method = ''POST'', hr_Path = ''/v1/ports'', hr_Body = print_json (enc_Spec sp)\<rparr> s =
    (case pd_AddPort d s sp of
       (Inl e, s') \<Rightarrow> (Inr (WriteError e 400), s')
     | (Inr st, s') \<Rightarrow> (Inr \<lparr>hp_Code = 201, hp_Body = print_json (enc_Status st)\<rparr>, s'))"
  using assms
  by (auto simp: serve_def AddRoutes_def mux_documented_def PostPort_def json_decode_print dec_enc_Spec
      split: prod.splits sum.splits)

text \<open>C27: the REST API is transparent for \<open>AddPort\<close>. For every port driver, a client that adds a
  port over the API changes the driver exactly as a direct call does, gets the status the
  driver returned, and on failure an error with the same text.\<close>

theorem rest_AddPort:
  assumes "mux_documented match" and "be_PortDriver b = Some d" and "wf_Spec sp"
    and "\<And>st s'. pd_AddPort d s sp = (Inr st, s') \<Longrightarrow> wf_Status st"
    and "\<And>e s'. pd_AddPort d s sp = (Inl e, s') \<Longrightarrow> short_err e"
  shows "client_AddPort (serve match b) s sp =
    (case pd_AddPort d s sp of
       (Inl e, s') \<Rightarrow> (Inl (Sys (err_text e)), s')
     | (Inr st, s') \<Rightarrow> (Inr st, s'))"
proof (cases "pd_AddPort d s sp")
  case (Pair r s')
  show ?thesis
  proof (cases r)
    case (Inl e)
    with Pair assms(5) [of e s'] show ?thesis
      by (simp add: client_AddPort_def serve_post [OF assms(1-3)] Successful_WriteError)
  next
    case (Inr st)
    with Pair assms(4) [of st s'] show ?thesis
      by (simp add: client_AddPort_def serve_post [OF assms(1-3)] json_decode_print dec_enc_Status)
  qed
qed

text \<open>The builtin driver behind the API.\<close>

definition builtin_driver :: "env \<Rightarrow> driver PortDriver" where
  "builtin_driver env = \<lparr>pd_Info = (\<lambda>d. Inr (Builtin_Parent.Info d)), pd_AddPort = Builtin_Parent.AddPort env,
     pd_ListPorts = (\<lambda>d. Inr (Builtin_Parent.ListPorts d)), pd_RemovePort = Builtin_Parent.RemovePort env\<rparr>"

definition backend0 :: "driver Backend" where
  "backend0 = \<lparr>be_StateDir = ''/s'', be_ChildPID = 42, be_NetworkDriver = None, be_PortDriver = Some (builtin_driver env0)\<rparr>"

lemma wf_spec0: "wf_Spec spec0" "wf_Status \<lparr>ID = 1, St_Spec = spec0\<rparr>"
  by (simp_all add: spec0_def wf_Spec_def wf_Status_def int64_ok_def)

theorem rest_AddPort_witness:
  "fst (client_AddPort (serve path_match backend0) driver0 spec0) = Inr \<lparr>ID = 1, St_Spec = spec0\<rparr>"
proof -
  have a: "pd_AddPort (builtin_driver env0) driver0 spec0 = (Inr \<lparr>ID = 1, St_Spec = spec0\<rparr>, snd (add_commit driver0 spec0))"
    by (simp add: builtin_driver_def spec0_added)
  have "client_AddPort (serve path_match backend0) driver0 spec0 =
    (case pd_AddPort (builtin_driver env0) driver0 spec0 of
       (Inl e, s') \<Rightarrow> (Inl (Sys (err_text e)), s') | (Inr st, s') \<Rightarrow> (Inr st, s'))"
    by (rule rest_AddPort [OF path_match_documented]) (auto simp: a backend0_def wf_spec0)
  then show ?thesis by (simp add: a)
qed

lemma map_res_statuses: "list_all wf_Status ps \<Longrightarrow> map_res dec_Status (map enc_Status ps) = Inr ps"
  by (rule map_res_map) (simp add: list_all_iff dec_enc_Status)

lemma rest_ListPorts_eq:
  assumes "mux_documented match" and "be_PortDriver b = Some d" and "pd_ListPorts d s = Inr ps" and "list_all wf_Status ps"
  shows "client_ListPorts (serve match b) s = (Inr ps, s)"
proof -
  have "serve match b \<lparr>hr_Method = ''GET'', hr_Path = ''/v1/ports'', hr_Body = []\<rparr> s =
    (Inr \<lparr>hp_Code = 200, hp_Body = print_json (enc_list enc_Status ps)\<rparr>, s)"
    using assms(1-3) by (simp add: serve_def AddRoutes_def mux_documented_def GetPorts_def)
  moreover have "dec_statuses (enc_list enc_Status ps) = Inr ps"
    using assms(4) by (simp add: dec_statuses_def enc_list_def map_res_statuses)
  ultimately show ?thesis by (simp add: client_ListPorts_def json_decode_print)
qed

text \<open>The REST API is transparent for \<open>ListPorts\<close>: the client gets exactly the listing of the
  driver, an empty one too, and the driver is not changed.\<close>

theorem rest_ListPorts:
  assumes "mux_documented match" and "be_PortDriver b = Some d" and "pd_ListPorts d s = Inr ps" and "list_all wf_Status ps"
  shows "client_ListPorts (serve match b) s = (Inr ps, s)"
  by (rule rest_ListPorts_eq [OF assms])

theorem rest_ListPorts_witness:
  "client_ListPorts (serve path_match backend0) (snd (add_commit driver0 spec0)) =
     (Inr [\<lparr>ID = 1, St_Spec = spec0\<rparr>], snd (add_commit driver0 spec0))"
  by (rule rest_ListPorts [OF path_match_documented])
    (auto simp: backend0_def builtin_driver_def Builtin_Parent.ListPorts_def add_commit_def driver0_def Let_def wf_spec0)

lemma serve_delete:
  assumes "mux_documented match" and "be_PortDriver b = Some d" and "int64_ok i"
  shows "serve match b \<lparr>hr_Method = ''DELETE'', hr_Path = ''/v1/ports/'' @ strconv_Itoa i, hr_Body = []\<rparr> s =
    (case pd_RemovePort d s i of
       (Inl e, s') \<Rightarrow> (Inr (WriteError e 400), s')
     | (Inr _, s') \<Rightarrow> (Inr \<lparr>hp_Code = 200, hp_Body = []\<rparr>, s'))"
proof -
  have m: "match ''/v1/ports/{id}'' (''/v1/ports/'' @ strconv_Itoa i) = Some [(''id'', strconv_Itoa i)]"
    using assms(1) Itoa_no_delim(2) [of i] Itoa_not_Nil [of i] unfolding mux_documented_def by blast
  show ?thesis unfolding serve_def AddRoutes_def Let_def http_request.simps m
    using assms(2,3) by (auto simp: DeletePort_def Atoi_Itoa split: prod.splits sum.splits)
qed

text \<open>The REST API is transparent for \<open>RemovePort\<close>: the id is printed into the path and read
  back from it, the driver changes as by a direct call, and an error has the same text.\<close>

theorem rest_RemovePort:
  assumes "mux_documented match" and "be_PortDriver b = Some d" and "int64_ok i"
    and "\<And>e s'. pd_RemovePort d s i = (Inl e, s') \<Longrightarrow> short_err e"
  shows "client_RemovePort (serve match b) s i =
    (case pd_RemovePort d s i of
       (Inl e, s') \<Rightarrow> (Inl (Sys (err_text e)), s')
     | (Inr u, s') \<Rightarrow> (Inr (), s'))"
  using assms(4) Successful_WriteError [of _ 400] unfolding client_RemovePort_def serve_delete [OF assms(1-3)]
  by (cases "pd_RemovePort d s i"; cases "fst (pd_RemovePort d s i)") auto

theorem rest_RemovePort_witness:
  "fst (client_RemovePort (serve path_match backend0) driver0 7) = Inl (Sys ''unknown id: 7'')"
proof -
  have r: "pd_RemovePort (builtin_driver env0) driver0 7 = (Inl (Errorf ''unknown id: %d'' [''7'']), driver0)"
  proof -
    have "strconv_Itoa 7 = ''7''" by code_simp
    then show ?thesis by (simp add: builtin_driver_def Builtin_Parent.RemovePort_def driver0_def)
  qed
  have "length (hp_Body (WriteError (Errorf ''unknown id: %d'' [''7'']) 400)) \<le> 100" by code_simp
  then have "short_err (Errorf ''unknown id: %d'' [''7''])"
    by (simp add: short_err_def HTTPStatusErrorBodyMaxLength_def)
  then have "client_RemovePort (serve path_match backend0) driver0 7 =
    (case pd_RemovePort (builtin_driver env0) driver0 7 of
       (Inl e, s') \<Rightarrow> (Inl (Sys (err_text e)), s') | (Inr u, s') \<Rightarrow> (Inr (), s'))"
    by (intro rest_RemovePort [OF path_match_documented]) (auto simp: r backend0_def int64_ok_def)
  then show ?thesis by (simp add: r)
qed

section \<open>The port manager contract through the API\<close>

text \<open>
  Proved once for every port manager: what a client of the API sees after it has added or
  removed a port.
\<close>

context port_manager
begin

definition drives :: "'e \<Rightarrow> 's Backend \<Rightarrow> bool" where
  "drives e b \<longleftrightarrow> (\<exists>d. be_PortDriver b = Some d \<and> pd_AddPort d = add_port e \<and> pd_RemovePort d = remove_port e \<and>
     pd_ListPorts d = (\<lambda>s. Inr (list_ports s)))"

lemma rest_client_add:
  assumes "mux_documented match" and "drives e b" and "wf_Spec sp"
    and "\<And>st s'. add_port e s sp = (Inr st, s') \<Longrightarrow> wf_Status st"
    and "client_AddPort (serve match b) s sp = (Inr st, s')"
  shows "add_port e s sp = (Inr st, s')"
proof -
  obtain d where d: "be_PortDriver b = Some d" "pd_AddPort d = add_port e" using assms(2) by (auto simp: drives_def)
  show ?thesis
  proof (cases "add_port e s sp")
    case (Pair r t)
    show ?thesis
    proof (cases r)
      case (Inl er)
      obtain e' where e': "Successful (WriteError er 400) = Inl e'" using WriteError_fails by fastforce
      have "client_AddPort (serve match b) s sp = (Inl e', t)"
        using Pair Inl d e' by (simp add: client_AddPort_def serve_post [OF assms(1) d(1) assms(3)])
      with assms(5) show ?thesis by simp
    next
      case (Inr st')
      with Pair assms(4) have "wf_Status st'" by simp
      then have "client_AddPort (serve match b) s sp = (Inr st', t)"
        using Pair Inr d by (simp add: client_AddPort_def serve_post [OF assms(1) d(1) assms(3)] json_decode_print dec_enc_Status)
      with assms(5) Pair Inr show ?thesis by simp
    qed
  qed
qed

lemma rest_list_after_add:
  assumes "mux_documented match" and "drives e b" and "invar s" and "env_ok e s"
    and "wf_Spec sp" and "list_all wf_Status (list_ports s)"
    and wf: "\<And>st s'. add_port e s sp = (Inr st, s') \<Longrightarrow> wf_Status st"
    and "client_AddPort (serve match b) s sp = (Inr st, s')"
  shows "client_ListPorts (serve match b) s' = (Inr (list_ports s @ [st]), s') \<and> invar s'"
proof -
  have a: "add_port e s sp = (Inr st, s')" using rest_client_add [OF assms(1,2,5,7,8)] .
  have l: "list_ports s' = list_ports s @ [st]" using list_after_add [OF assms(3,4) a] .
  obtain d where d: "be_PortDriver b = Some d" "pd_ListPorts d = (\<lambda>s. Inr (list_ports s))"
    using assms(2) by (auto simp: drives_def)
  have "list_all wf_Status (list_ports s')" using l assms(6) wf [OF a] by simp
  with rest_ListPorts_eq [OF assms(1) d(1), of s' "list_ports s'"] d(2) l add_ok [OF assms(3,4) a]
  show ?thesis by simp
qed

end

lemma builtin_drives: "builtin.drives env (\<lparr>be_StateDir = dir, be_ChildPID = pid, be_NetworkDriver = nd, be_PortDriver = Some (builtin_driver env)\<rparr>)"
  by (simp add: builtin.drives_def builtin_driver_def)



end
