(* ===== verification/Disabled.thy ===== *)
theory Disabled
  imports Cli Rest_Api
begin

text \<open>
  The stubs that take the place of a driver when it is left out of the build
  (\<^verbatim>\<open>*_disabled.go\<close>): every operation returns the same error, naming the build tag. Only the
  constructor of vpnkit has no error to return, so that its absence shows when the network
  is configured.
\<close>

section \<open>Network drivers\<close>

definition disabled_by :: "string \<Rightarrow> string \<Rightarrow> err" where
  "disabled_by what tag = New (what @ '' driver disabled by build tag '' @ tag)"

record disabled_network =
  dn_NewParentDriver :: "unit res"
  dn_Info :: "NetworkDriverInfo res"
  dn_MTU :: int
  dn_ConfigureNetwork :: net_driver
  dn_child :: child_net_driver

text \<open>The cleanup of a stub does nothing.\<close>

definition disabled_ConfigureNetwork :: "err \<Rightarrow> net_driver" where
  "disabled_ConfigureNetwork e childPID stateDir detachedNetNSPath = Ret (None, Some (Ret ()), Some e)"

definition disabled_child :: "err \<Rightarrow> child_net_driver" where
  "disabled_child e = \<lparr>cn_ConfigureNetworkChild = (\<lambda>netmsg detachedNetNSPath. Ret (Inl e)), cn_ConfiguresInterface = False\<rparr>"

definition slirp4netns_disabled :: disabled_network where
  "slirp4netns_disabled =
     (let e = disabled_by ''slirp4netns network'' ''no_slirp4netns'' in
      \<lparr>dn_NewParentDriver = Inl e, dn_Info = Inl e, dn_MTU = 0, dn_ConfigureNetwork = disabled_ConfigureNetwork e,
       dn_child = disabled_child e\<rparr>)"

definition slirp4netns_disabled_DetectFeatures :: "string \<Rightarrow> unit res" where
  "slirp4netns_disabled_DetectFeatures binary = Inl (disabled_by ''slirp4netns network'' ''no_slirp4netns'')"

definition vpnkit_disabled :: disabled_network where
  "vpnkit_disabled =
     (let e = disabled_by ''vpnkit network'' ''no_vpnkit'' in
      \<lparr>dn_NewParentDriver = Inr (), dn_Info = Inl e, dn_MTU = 0, dn_ConfigureNetwork = disabled_ConfigureNetwork e,
       dn_child = disabled_child e\<rparr>)"

definition lxcusernic_disabled :: disabled_network where
  "lxcusernic_disabled =
     (let e = disabled_by ''lxc-user-nic network'' ''no_lxcusernic'' in
      \<lparr>dn_NewParentDriver = Inl e, dn_Info = Inl e, dn_MTU = 0, dn_ConfigureNetwork = disabled_ConfigureNetwork e,
       dn_child = disabled_child e\<rparr>)"

definition gvisortapvsock_disabled :: disabled_network where
  "gvisortapvsock_disabled =
     (let e = disabled_by ''gvisor-tap-vsock network'' ''no_gvisortapvsock'' in
      \<lparr>dn_NewParentDriver = Inl e, dn_Info = Inl e, dn_MTU = 0, dn_ConfigureNetwork = disabled_ConfigureNetwork e,
       dn_child = disabled_child e\<rparr>)"

section \<open>Port drivers\<close>

record disabled_port =
  dq_NewParentDriver :: "unit res"
  dq_driver :: "unit PortDriver"
  dq_OpaqueForChild :: "(string \<times> string) list"
  dq_RunParentDriver :: "unit res"
  dq_RunChildDriver :: "unit res"

definition disabled_PortDriver :: "err \<Rightarrow> unit PortDriver" where
  "disabled_PortDriver e =
     \<lparr>pd_Info = (\<lambda>_. Inl e), pd_AddPort = (\<lambda>s _. (Inl e, s)), pd_ListPorts = (\<lambda>_. Inl e), pd_RemovePort = (\<lambda>s _. (Inl e, s))\<rparr>"

definition slirp4netns_port_disabled :: disabled_port where
  "slirp4netns_port_disabled =
     (let e = disabled_by ''slirp4netns port'' ''no_slirp4netns'' in
      \<lparr>dq_NewParentDriver = Inl e, dq_driver = disabled_PortDriver e, dq_OpaqueForChild = [], dq_RunParentDriver = Inl e,
       dq_RunChildDriver = Inl e\<rparr>)"

definition gvisortapvsock_port_disabled :: disabled_port where
  "gvisortapvsock_port_disabled =
     (let e = disabled_by ''gvisor-tap-vsock port'' ''no_gvisortapvsock'' in
      \<lparr>dq_NewParentDriver = Inl e, dq_driver = disabled_PortDriver e, dq_OpaqueForChild = [], dq_RunParentDriver = Inl e,
       dq_RunChildDriver = Inl e\<rparr>)"

section \<open>A driver that is left out is refused\<close>

text \<open>However the drivers are reached, the network is never configured: the constructor fails, or
  the parent gets the error from \<open>ConfigureNetwork\<close> with a cleanup that does nothing, without
  a single call to the system.\<close>

lemma disabled_network_refused:
  assumes "dn \<in> {slirp4netns_disabled, vpnkit_disabled, lxcusernic_disabled, gvisortapvsock_disabled}"
  shows "\<exists>e. run (dn_ConfigureNetwork dn pid sd ns) os h = ((None, Some (Ret ()), Some e), h) \<and>
    run (cn_ConfigureNetworkChild (dn_child dn) m ns) os h = (Inl e, h) \<and> dn_Info dn = Inl e \<and>
    (dn = vpnkit_disabled \<or> dn_NewParentDriver dn = Inl e)"
  using assms
  by (auto simp: slirp4netns_disabled_def vpnkit_disabled_def lxcusernic_disabled_def gvisortapvsock_disabled_def Let_def
      disabled_ConfigureNetwork_def disabled_child_def)

text \<open>A client of the API that adds a port gets the error of the stub.\<close>

lemma disabled_port_refused:
  assumes "mux_documented match" and "be_PortDriver b = Some (disabled_PortDriver e)" and "wf_Spec sp" and "short_err e"
  shows "client_AddPort (serve match b) s sp = (Inl (Sys (err_text e)), s)"
  using Successful_WriteError [OF assms(4), of 400]
  by (simp add: client_AddPort_def serve_post [OF assms(1-3)] disabled_PortDriver_def)

end
