(* ===== verification/Go_Net6.thy ===== *)
theory Go_Net6
  imports Go_Net
begin

text \<open>
  The text of an IPv6 address parses back to the address: the printer of \<^verbatim>\<open>netip.Addr\<close>
  (longest run of zero groups replaced by an ellipsis) against its parser. With the result
  for IPv4, every address that can be marshalled survives the trip through its text.
\<close>

section \<open>Groups of 16 bits\<close>

lemma hex_of_nonempty: "hex_of n \<noteq> []"
  by (simp add: hex_of.simps [of n])

lemma is_hex_hex_char: "0 \<le> d \<Longrightarrow> d < 16 \<Longrightarrow> is_hex (hex_char d)"
  by (auto simp: is_hex_def hex_val_def hex_char_def of_char_of Let_def)

lemma hex_of_hex: "0 \<le> n \<Longrightarrow> list_all is_hex (hex_of n)"
proof (induction n rule: hex_of.induct)
  case (1 n)
  then show ?case by (auto simp: hex_of.simps [of n] is_hex_hex_char)
qed

lemma hex_int_append: "hex_int acc (xs @ ys) = hex_int (hex_int acc xs) ys"
  by (induction xs arbitrary: acc) auto

lemma hex_val_char: "0 \<le> d \<Longrightarrow> d < 16 \<Longrightarrow> hex_val (hex_char d) = Some d"
  by (auto simp: hex_val_def hex_char_def of_char_of Let_def)

lemma hex_int_hex_of: "0 \<le> n \<Longrightarrow> hex_int 0 (hex_of n) = n"
proof (induction n rule: hex_of.induct)
  case (1 n)
  then show ?case
    by (cases "n < 16") (simp_all add: hex_of.simps [of n] hex_int_append hex_val_char)
qed

lemma length_hex_of: "n < 16 ^ Suc k \<Longrightarrow> length (hex_of n) \<le> Suc k"
proof (induction k arbitrary: n)
  case 0
  then show ?case by (simp add: hex_of.simps [of n])
next
  case (Suc k)
  show ?case
  proof (cases "n < 16")
    case False
    have "n div 16 < 16 ^ Suc k" using Suc.prems by (simp add: div_less_iff_less_mult)
    with Suc.IH [of "n div 16"] False show ?thesis by (simp add: hex_of.simps [of n])
  qed (simp add: hex_of.simps [of n])
qed

definition group_bytes :: "int \<Rightarrow> IP" where
  "group_bytes g = [word_of_int (g div 256), word_of_int g]"

definition group_ok :: "int \<Rightarrow> bool" where
  "group_ok g \<longleftrightarrow> 0 \<le> g \<and> g < 65536"

lemma groups16_ok: "g \<in> set (groups16 ip) \<Longrightarrow> group_ok g"
proof (induction ip rule: groups16.induct)
  case (1 a b r)
  then show ?case using uint_octet [of a] uint_octet [of b] by (auto simp: group_ok_def)
qed auto

lemma bytes_groups16: "even (length ip) \<Longrightarrow> concat (map group_bytes (groups16 ip)) = ip"
proof (induction ip rule: groups16.induct)
  case (1 a b r)
  have "(uint a * 256 + uint b) div 256 = uint a" using uint_octet [of b] by simp
  moreover have "word_of_int (uint a * 256 + uint b) = b"
  proof -
    have "uint (word_of_int (uint a * 256 + uint b) :: 8 word) = (uint a * 256 + uint b) mod 256"
      by (simp only: uint_word_of_int) simp
    also have "\<dots> = uint b" using uint_octet [of b] by simp
    finally show ?thesis by (simp only: word_uint_eq_iff)
  qed
  ultimately show ?case using 1 by (simp add: group_bytes_def)
qed (auto simp: group_bytes_def)

lemma length_groups16: "length (groups16 ip) = length ip div 2"
  by (induction ip rule: groups16.induct) auto

section \<open>The parser on printed groups\<close>

lemma hex_group:
  assumes "group_ok g" and "r = [] \<or> \<not> is_hex (hd r)"
  shows "takeWhile is_hex (hex_of g @ r) = hex_of g" "length (hex_of g) \<le> 4" "hex_of g \<noteq> []" "hex_int 0 (hex_of g) = g"
proof -
  have "list_all is_hex (hex_of g)" using assms(1) by (simp add: group_ok_def hex_of_hex)
  then show "takeWhile is_hex (hex_of g @ r) = hex_of g"
    using assms(2) by (cases r) (auto simp: list_all_iff takeWhile_append2)
  show "length (hex_of g) \<le> 4" using length_hex_of [of g 3] assms(1) by (simp add: group_ok_def)
qed (use assms(1) in \<open>simp_all add: hex_of_nonempty hex_int_hex_of group_ok_def\<close>)

lemma colon_not_hex [simp]: "\<not> is_hex CHR '':''"
  by (simp add: is_hex_def hex_val_def)

lemma loop_last:
  assumes "group_ok g"
  shows "ipv6_loop (Suc k) ip ell (hex_of g) = Some (ip @ group_bytes g, ell, [])"
proof -
  note h = hex_group [OF assms, of "[]", unfolded append_Nil2]
  show ?thesis using h(2-4) by (simp add: h(1) Let_def group_bytes_def)
qed

lemma hd_hex_of: "0 \<le> g \<Longrightarrow> hd (hex_of g @ r) \<noteq> CHR '':''"
  using hex_of_hex [of g] hex_of_nonempty [of g] by (cases "hex_of g") auto

lemma loop_more:
  assumes "group_ok g" and "s \<noteq> []" and "hd s \<noteq> CHR '':''"
  shows "ipv6_loop (Suc k) ip ell (hex_of g @ CHR '':'' # s) = ipv6_loop k (ip @ group_bytes g) ell s"
  using hex_group [OF assms(1), of "CHR '':'' # s"] assms(2,3) by (simp add: Let_def group_bytes_def)

lemma loop_ellipsis:
  assumes "group_ok g"
  shows "ipv6_loop (Suc k) ip None (hex_of g @ CHR '':'' # CHR '':'' # s) =
    (if s = [] then Some (ip @ group_bytes g, Some (length ip + 2), [])
     else ipv6_loop k (ip @ group_bytes g) (Some (length ip + 2)) s)"
  using hex_group [OF assms, of "CHR '':'' # CHR '':'' # s"] by (simp add: Let_def group_bytes_def)

definition groups_text :: "int list \<Rightarrow> string" where
  "groups_text gs = Join (map hex_of gs) '':''"

lemma groups_text_simps [simp]:
  "groups_text [] = []" "groups_text [g] = hex_of g"
  "groups_text (g # h # gs) = hex_of g @ CHR '':'' # groups_text (h # gs)"
  by (simp_all add: groups_text_def)

lemma groups_text_first: "list_all group_ok (g # gs) \<Longrightarrow> groups_text (g # gs) @ s \<noteq> [] \<and> hd (groups_text (g # gs) @ s) \<noteq> CHR '':''"
  using hd_hex_of [of g] by (cases gs) (auto simp: hex_of_nonempty group_ok_def)

lemma loop_groups:
  assumes "gs \<noteq> []" and "list_all group_ok gs" and "length gs \<le> k"
  shows "ipv6_loop k ip ell (groups_text gs) = Some (ip @ concat (map group_bytes gs), ell, [])"
  using assms
proof (induction gs arbitrary: k ip rule: induct_list012)
  case (2 g)
  then show ?case by (cases k) (auto simp: loop_last simp del: ipv6_loop.simps)
next
  case (3 g h gs)
  then obtain k' where "k = Suc k'" by (cases k) auto
  with 3 groups_text_first [of h gs "[]"] show ?case by (simp add: loop_more del: ipv6_loop.simps)
qed simp

lemma loop_groups_ellipsis:
  assumes "gs \<noteq> []" and "list_all group_ok (gs @ hs)" and "length (gs @ hs) \<le> k"
  shows "ipv6_loop k ip None (groups_text gs @ ''::'' @ groups_text hs) =
    Some (ip @ concat (map group_bytes (gs @ hs)), Some (length ip + 2 * length gs), [])"
  using assms
proof (induction gs arbitrary: k ip rule: induct_list012)
  case (2 g)
  then obtain k' where k: "k = Suc k'" by (cases k) auto
  show ?case
  proof (cases hs)
    case Nil
    with 2 k show ?thesis by (simp add: loop_ellipsis del: ipv6_loop.simps)
  next
    case (Cons h hs')
    with 2 groups_text_first [of h hs' "[]"] have "groups_text hs \<noteq> []" by simp
    with 2 k Cons loop_groups [of hs k'] show ?thesis by (simp add: loop_ellipsis del: ipv6_loop.simps)
  qed
next
  case (3 g h gs)
  then obtain k' where k: "k = Suc k'" by (cases k) auto
  have "ipv6_loop k ip None (groups_text (g # h # gs) @ ''::'' @ groups_text hs) =
    ipv6_loop k' (ip @ group_bytes g) None (groups_text (h # gs) @ ''::'' @ groups_text hs)"
    using 3 k groups_text_first [of h gs "''::'' @ groups_text hs"] by (simp add: loop_more del: ipv6_loop.simps)
  with 3 k show ?case by (simp add: group_bytes_def del: ipv6_loop.simps groups_text_simps)
qed simp

section \<open>The ellipsis\<close>

lemma zero_run_bound: "i \<le> length gs \<Longrightarrow> i + zero_run gs i \<le> length gs"
  unfolding zero_run_def using length_takeWhile_le [of "\<lambda>g. g = 0" "drop i gs"] by simp

lemma zero_run_zeros: "take (zero_run gs i) (drop i gs) = replicate (zero_run gs i) 0"
  unfolding zero_run_def takeWhile_eq_take [symmetric]
  by (metis (mono_tags, lifting) replicate_eqI set_takeWhileD)

definition run_ok :: "int list \<Rightarrow> (nat \<times> nat) option \<Rightarrow> bool" where
  "run_ok gs r \<longleftrightarrow>
     (case r of None \<Rightarrow> True
      | Some (a, b) \<Rightarrow> a + 2 \<le> b \<and> b \<le> length gs \<and> gs = take a gs @ replicate (b - a) 0 @ drop b gs)"

lemma run_ok_zero_run:
  assumes "i < length gs" and "2 \<le> zero_run gs i"
  shows "run_ok gs (Some (i, i + zero_run gs i))"
proof -
  have "gs = take i gs @ take (zero_run gs i) (drop i gs) @ drop (zero_run gs i) (drop i gs)"
    unfolding append_take_drop_id by simp
  then have "gs = take i gs @ replicate (zero_run gs i) 0 @ drop (i + zero_run gs i) gs"
    unfolding zero_run_zeros by (simp add: add.commute)
  then show ?thesis using assms zero_run_bound [of i gs] by (simp add: run_ok_def)
qed

lemma best_run_ok:
  assumes "length gs = 8"
  shows "run_ok gs (best_run gs)"
proof -
  have "run_ok gs (fold (\<lambda>i best. let l = zero_run gs i in
             if 2 \<le> l \<and> (case best of None \<Rightarrow> True | Some (a, b) \<Rightarrow> b - a < l)
             then Some (i, i + l) else best) is r)"
    if "run_ok gs r" "\<forall>i\<in>set is. i < length gs" for "is" r
    using that
  proof (induction "is" arbitrary: r)
    case (Cons i "is")
    then show ?case using run_ok_zero_run [of i gs] by (simp add: Let_def)
  qed simp
  from this [of None "[0..<8]"] assms show ?thesis by (simp add: best_run_def run_ok_def)
qed

section \<open>Round trip\<close>

lemma length_concat_bytes [simp]: "length (concat (map group_bytes gs)) = 2 * length gs"
  by (induction gs) (auto simp: group_bytes_def)

lemma concat_zero_groups: "concat (replicate n (group_bytes 0)) = replicate (2 * n) 0"
  by (induction n) (auto simp: group_bytes_def)

lemma no_lead: "list_all group_ok (g # gs) \<Longrightarrow> \<not> HasPrefix (groups_text (g # gs) @ s) ''::''"
  using groups_text_first [of g gs s] by (cases "groups_text (g # gs) @ s") (auto simp: HasPrefix_def)

lemma parse_ipv6_groups:
  assumes "length gs = 8" and "list_all group_ok gs"
  shows "parse_ipv6 (groups_text gs) = Some (concat (map group_bytes gs))"
proof -
  obtain g gs' where gs: "gs = g # gs'" using assms(1) by (cases gs) auto
  have "\<not> HasPrefix (groups_text gs) ''::''" using no_lead [of g gs' "[]"] assms(2) gs by simp
  moreover have "ipv6_loop 8 [] None (groups_text gs) = Some (concat (map group_bytes gs), None, [])"
    using loop_groups [of gs 8 "[]" None] assms gs by simp
  ultimately show ?thesis using assms(1) by (simp add: parse_ipv6_def Let_def)
qed

lemma parse_ipv6_ellipsis:
  assumes "length gs + 2 + length hs \<le> 8" and "list_all group_ok (gs @ hs)"
  shows "parse_ipv6 (groups_text gs @ ''::'' @ groups_text hs) =
    Some (concat (map group_bytes (gs @ replicate (8 - length gs - length hs) 0 @ hs)))"
proof (cases gs)
  case Nil
  show ?thesis
  proof (cases hs)
    case Nil
    with \<open>gs = []\<close> show ?thesis by (simp add: parse_ipv6_def HasPrefix_def concat_zero_groups)
  next
    case (Cons h hs')
    have "groups_text hs \<noteq> []" using groups_text_first [of h hs' "[]"] assms(2) Cons by simp
    moreover have "ipv6_loop 8 [] (Some 0) (groups_text hs) = Some (concat (map group_bytes hs), Some 0, [])"
      using loop_groups [of hs 8 "[]" "Some 0"] assms Cons by simp
    ultimately show ?thesis using assms \<open>gs = []\<close>
      by (simp add: parse_ipv6_def HasPrefix_def concat_zero_groups del: ipv6_loop.simps)
  qed
next
  case (Cons g gs')
  have "\<not> HasPrefix (groups_text gs @ ''::'' @ groups_text hs) ''::''" using no_lead [of g gs'] assms(2) Cons by simp
  moreover have "ipv6_loop 8 [] None (groups_text gs @ ''::'' @ groups_text hs) =
      Some (concat (map group_bytes (gs @ hs)), Some (2 * length gs), [])"
    using loop_groups_ellipsis [of gs hs 8 "[]"] assms Cons by simp
  ultimately show ?thesis using assms
    by (simp add: parse_ipv6_def concat_zero_groups right_diff_distrib' del: ipv6_loop.simps)
qed

lemma parse_ipv6_text:
  assumes "length ip = 16"
  shows "parse_ipv6 (ipv6_text ip) = Some ip"
proof -
  let ?gs = "groups16 ip"
  have len: "length ?gs = 8" using assms by (simp add: length_groups16)
  have ok: "list_all group_ok ?gs" by (simp add: list_all_iff groups16_ok)
  have bytes: "concat (map group_bytes ?gs) = ip" using assms by (simp add: bytes_groups16)
  show ?thesis
  proof (cases "best_run ?gs")
    case None
    with parse_ipv6_groups [OF len ok] bytes show ?thesis by (simp add: ipv6_text_def groups_text_def)
  next
    case (Some r)
    obtain a b where r: "r = (a, b)" by fastforce
    have run: "a + 2 \<le> b" "b \<le> 8" "?gs = take a ?gs @ replicate (b - a) 0 @ drop b ?gs"
      using best_run_ok [OF len] Some r len by (auto simp: run_ok_def)
    have "list_all group_ok (take a ?gs @ drop b ?gs)" using ok by (auto simp: list_all_iff dest: in_set_takeD in_set_dropD)
    with parse_ipv6_ellipsis [of "take a ?gs" "drop b ?gs"] run(1,2) len
    have "parse_ipv6 (groups_text (take a ?gs) @ ''::'' @ groups_text (drop b ?gs)) =
        Some (concat (map group_bytes (take a ?gs @ replicate (b - a) 0 @ drop b ?gs)))" by simp
    with run(3) bytes show ?thesis by (simp add: ipv6_text_def groups_text_def Some r Let_def)
  qed
qed

lemma groups_text_chars: "list_all group_ok gs \<Longrightarrow> c \<in> set (groups_text gs) \<Longrightarrow> is_hex c \<or> c = CHR '':''"
  using hex_of_hex by (induction gs rule: induct_list012) (auto simp: group_ok_def list_all_iff)

lemma ipv6_text_chars:
  assumes "length ip = 16"
  shows "\<forall>c\<in>set (ipv6_text ip). is_hex c \<or> c = CHR '':''" and "CHR '':'' \<in> set (ipv6_text ip)"
proof -
  let ?gs = "groups16 ip"
  have ok: "list_all group_ok ?gs" "list_all group_ok (take a ?gs)" "list_all group_ok (drop b ?gs)" for a b
    by (auto simp: list_all_iff groups16_ok dest: in_set_takeD in_set_dropD)
  note chars = groups_text_chars [OF ok(1)] groups_text_chars [OF ok(2)] groups_text_chars [OF ok(3)]
  show "\<forall>c\<in>set (ipv6_text ip). is_hex c \<or> c = CHR '':''"
    using chars by (auto simp: ipv6_text_def Let_def groups_text_def [symmetric] split: option.splits prod.splits)
  have "length ?gs = 8" using assms by (simp add: length_groups16)
  then obtain g h gs where "?gs = g # h # gs" by (cases ?gs; cases "tl ?gs") auto
  then show "CHR '':'' \<in> set (ipv6_text ip)"
    by (auto simp: ipv6_text_def Let_def split: option.splits prod.splits)
qed

lemma find_first:
  assumes "x \<in> set s" and "P x" and "\<And>c. c \<in> set s \<Longrightarrow> P c \<Longrightarrow> c = x"
  shows "find P s = Some x"
proof -
  have "find P s \<noteq> None" using assms(1,2) by (auto simp: find_None_iff)
  then obtain c where c: "find P s = Some c" by blast
  then have "c \<in> set s" "P c" by (auto simp: find_Some_iff)
  with assms(3) c show ?thesis by blast
qed

text \<open>Every address of 4 or 16 bytes survives the trip through its text, in its 16-byte form.\<close>

theorem ParseIP_String:
  assumes "length ip = 4 \<or> length ip = 16"
  shows "ParseIP (IP_String ip) = To16 ip"
proof (cases "To4 ip = []")
  case False
  then have "To16 (To4 ip) = To16 ip"
    using assms by (auto simp: To4_def To16_def split: if_splits) (metis append_take_drop_id)
  with False length_To4 [of ip] ParseIP_String_v4 [of ip] show ?thesis by simp
next
  case True
  then have len: "length ip = 16" using assms by (auto simp: To4_def)
  then have printed: "IP_String ip = ipv6_text ip" using True by (auto simp: IP_String_def)
  have no: "\<not> is_hex CHR ''.''" "\<not> is_hex CHR ''%''" by (simp_all add: is_hex_def hex_val_def)
  have "find (\<lambda>c. c = CHR ''.'' \<or> c = CHR '':'') (ipv6_text ip) = Some CHR '':''"
    using ipv6_text_chars [OF len] no by (intro find_first) auto
  moreover have "CHR ''%'' \<notin> set (ipv6_text ip)" using ipv6_text_chars(1) [OF len] no by fastforce
  ultimately show ?thesis using parse_ipv6_text [OF len] len unfolding printed by (simp add: ParseIP_def To16_def)
qed

end
