(* ===== verification/Builtin_Path.thy ===== *)
theory Builtin_Path
  imports Builtin_Child Go_Net6
begin

text \<open>
  The way of one connection through the builtin port driver, from the parent half over the UNIX
  socket to the child half: the parent of the port (\<^verbatim>\<open>parent/tcp\<close> or \<^verbatim>\<open>parent/udp\<close>) writes the request
  with \<open>ConnectToChild\<close>, the child reads the same bytes, dials inside the network namespace
  and sends the descriptor back. The option \<^verbatim>\<open>source-ip-transparent\<close> reaches the child through
  the opaque map of the parent driver.
\<close>

text \<open>
  The address of the client that the parent passes on: \<^verbatim>\<open>c.RemoteAddr()\<close> of an accepted TCP
  connection, nothing for UDP.
\<close>

definition source_of :: "string \<Rightarrow> IP \<Rightarrow> int \<Rightarrow> source_addr" where
  "source_of proto ip p = (if HasPrefix proto ''tcp'' then TCPAddr ip p else NilAddr)"

text \<open>What the child does with the bytes that the parent has written.\<close>

definition served_for :: "cenv \<Rightarrow> childDriver \<Rightarrow> net_addr list res \<Rightarrow> UnixConn \<Rightarrow> Spec \<Rightarrow> source_addr \<Rightarrow> served" where
  "served_for env cd addrs c spec src =
     fst (serve_conn env cd [] (NewReader (fst (ConnectToChild (\<lambda>oob. Inr [oob]) (\<lambda>_. Inr [0]) 24 addrs c spec src))) Buffer_Write [])"

lemma serve_connect:
  assumes "fst (snd (UnmarshalFromReader dec_Request r)) = Inr req" and "rq_Type req = RequestTypeConnect"
  shows "fst (serve_conn env cd [] r wr w) = handleConnectRequest env cd req"
  using assms by (simp add: serve_conn_def routine_def RequestTypeConnect_def RequestTypeInit_def split: option.splits sum.splits)

lemma connect_request_fields [simp]:
  "rq_Type (connect_request addrs spec src) = RequestTypeConnect" "rq_Proto (connect_request addrs spec src) = Proto spec"
  "rq_IP (connect_request addrs spec src) = ChildIP spec" "rq_Port (connect_request addrs spec src) = ChildPort spec"
  "rq_ParentIP (connect_request addrs spec src) = ParentIP spec"
  "rq_HostGatewayIP (connect_request addrs spec src) = hostGatewayIP addrs"
  by (simp_all add: connect_request_def Let_def split: source_addr.splits)

lemma connect_request_source [simp]:
  "rq_SourceIP (connect_request addrs spec (TCPAddr ip p)) = IP_String ip" "rq_SourcePort (connect_request addrs spec (TCPAddr ip p)) = p"
  "rq_SourceIP (connect_request addrs spec NilAddr) = []"
  by (simp_all add: connect_request_def Let_def zero_Request_def)

lemma served_for_handled:
  assumes "\<And>bs. uc_Write c bs = Inr (length bs)" and "exposed_ok spec" and "\<And>ip p. src = TCPAddr ip p \<Longrightarrow> int64_ok p"
    and "length (print_json (enc_Request (connect_request addrs spec src))) \<le> maxLength"
  shows "served_for env cd addrs c spec src = handleConnectRequest env cd (connect_request addrs spec src)"
proof -
  have "int64_ok (ChildPort spec)" using assms(2) by (auto simp: exposed_ok_def valid_port_def int64_ok_def)
  note decoded = ConnectToChild_request [OF assms(1) this assms(3,4)]
  show ?thesis unfolding served_for_def by (rule serve_connect [OF decoded connect_request_fields(1)])
qed

lemma exposed_dial:
  assumes "exposed_ok spec"
  shows "handleConnectRequest env cd (connect_request addrs spec src) =
    dial_target env cd (connect_request addrs spec src) (dial_proto (Proto spec)) (dialled_at (connect_request addrs spec src))"
proof -
  have "\<exists>ip. target_ip (connect_request addrs spec src) = Inr ip"
    using assms by (auto simp: exposed_ok_def valid_ip_text_def target_ip_def)
  with handle_dial_target [of "connect_request addrs spec src"] assms show ?thesis by (auto simp: exposed_ok_def)
qed

section \<open>The option for transparent sources\<close>

lemma child_flag:
  assumes "RunChildDriver sys NewDriver (OpaqueForChild pd) = (calls, Inr cd)"
  shows "cd = NewDriver\<lparr>cd_sourceIPTransparent := sourceIPTransparent pd\<rparr>"
proof -
  have "cd = NewDriver\<lparr>cd_sourceIPTransparent := (map_of (OpaqueForChild pd) ''builtin.source-ip-transparent'' = Some ''true'')\<rparr>"
    using assms by (auto simp: RunChildDriver_def Let_def split: if_splits sum.splits option.splits)
  then show ?thesis by (cases "sourceIPTransparent pd") (simp_all add: OpaqueForChild_def Let_def)
qed

text \<open>An environment in which transparent dials work: iptables and its mangle table are there.\<close>

definition routing_works :: "cenv \<Rightarrow> bool" where
  "routing_works env \<longleftrightarrow> \<not> isl (ce_LookPath env ''iptables'') \<and> \<not> isl (ce_Command env [''iptables'', ''-t'', ''mangle'', ''-L'', ''-n''])"

text \<open>
  The state of a child driver that has served requests: the option is the one it was started with, and
  once the routing is set up it is usable.
\<close>

definition routing_inv :: "bool \<Rightarrow> childDriver \<Rightarrow> bool" where
  "routing_inv tr d \<longleftrightarrow> cd_sourceIPTransparent d = tr \<and> (routingSetup d \<longrightarrow> routingReady d)"

lemma routing_once_inv:
  "routing_works env \<Longrightarrow> routing_inv tr d \<Longrightarrow> routing_inv tr (fst (routing_once env d)) \<and> routingReady (fst (routing_once env d))"
  by (auto simp: routing_inv_def routing_works_def routing_once_def setupTransparentRouting_def Let_def isl_def split: sum.splits prod.splits)

lemma handle_inv:
  assumes "routing_works env" and "routing_inv tr d"
  shows "routing_inv tr (sv_driver (handleConnectRequest env d req))"
proof -
  have "routing_inv tr (sv_driver (dial_target env d req pr t))" for pr t
    using routing_once_inv [OF assms] assms(2) by (cases "routing_once env d") (auto simp: dial_target_def Let_def)
  then show ?thesis using assms(2) by (auto simp: handleConnectRequest_def split: sum.splits)
qed

lemma serve_requests_inv:
  "list_all (\<lambda>r. routing_works (fst r)) rs \<Longrightarrow> routing_inv tr d \<Longrightarrow> routing_inv tr (snd (serve_requests d rs))"
proof (induction d rs rule: serve_requests.induct)
  case (2 d env req rs)
  then show ?case using handle_inv [of env tr d req] by (auto simp: Let_def split: prod.splits)
qed simp

lemma transparent_dials:
  assumes "wants_transparent d req" and "routingReady (fst (routing_once env d))"
    and "\<not> isl (transparentDial env pr t (rq_SourceIP req) (rq_SourcePort req))"
  shows "sv_dials (dial_target env d req pr t) = [Transparent (ParseIP (rq_SourceIP req)) (rq_SourcePort req) pr t]"
  using assms by (cases "routing_once env d") (simp add: dial_target_def Let_def)

lemma plain_dials: "\<not> wants_transparent d req \<Longrightarrow> sv_dials (dial_target env d req pr t) = [Plain pr t]"
  by (simp add: dial_target_def Let_def)

lemma HasPrefix_tcp: "p \<in> supported \<Longrightarrow> HasPrefix p ''tcp'' \<longleftrightarrow> dial_proto p = ''tcp''"
  by (auto simp: supported_def dial_proto_cases)

lemma IsLoopback_To16: "length ip = 4 \<or> length ip = 16 \<Longrightarrow> IsLoopback (To16 ip) = IsLoopback ip"
  by (auto simp: IsLoopback_def To16_def To4_def v4InV6Prefix_def)

lemma IP_String_not_Nil: "length ip = 4 \<or> length ip = 16 \<Longrightarrow> IP_String ip \<noteq> []"
  using ParseIP_String [of ip] by (auto simp: To16_def)

section \<open>The address that the server sees\<close>

lemma wants_transparent_source:
  assumes "Proto spec \<in> supported" and "length ip = 4 \<or> length ip = 16" and "p \<noteq> 0" and "\<not> IsLoopback ip"
  shows "wants_transparent d (connect_request addrs spec (source_of (Proto spec) ip p)) \<longleftrightarrow>
    cd_sourceIPTransparent d \<and> HasPrefix (Proto spec) ''tcp''"
proof (cases "HasPrefix (Proto spec) ''tcp''")
  case True
  then show ?thesis
    using assms HasPrefix_tcp [OF assms(1)] IP_String_not_Nil [OF assms(2)] IsLoopback_To16 [OF assms(2)] ParseIP_String [OF assms(2)]
    by (simp add: wants_transparent_def source_of_def)
next
  case False
  then show ?thesis by (simp add: wants_transparent_def source_of_def)
qed

lemma transparent_source_dials:
  assumes "RunChildDriver sys NewDriver (OpaqueForChild pd) = (calls, Inr cd)"
    and "exposed_ok spec" and "length ip = 4 \<or> length ip = 16" and "\<not> IsLoopback ip" and "valid_port p"
    and "\<And>bs. uc_Write c bs = Inr (length bs)"
    and "length (print_json (enc_Request (connect_request addrs spec (source_of (Proto spec) ip p)))) \<le> maxLength"
    and "list_all (\<lambda>r. routing_works (fst r)) rs" and "routing_works env" and "\<And>dl pr t. ce_TransparentDial env dl pr t = Inr ()"
  shows "sv_dials (served_for env (snd (serve_requests cd rs)) addrs c spec (source_of (Proto spec) ip p)) =
    (let t = dialled_at (connect_request addrs spec (source_of (Proto spec) ip p)) in
     if sourceIPTransparent pd \<and> HasPrefix (Proto spec) ''tcp'' then [Transparent (To16 ip) p ''tcp'' t] else [Plain (dial_proto (Proto spec)) t])"
proof -
  let ?req = "connect_request addrs spec (source_of (Proto spec) ip p)"
  let ?cd = "snd (serve_requests cd rs)"
  have "routing_inv (sourceIPTransparent pd) cd" unfolding child_flag [OF assms(1)] by (simp add: routing_inv_def NewDriver_def)
  with assms(8) have inv: "routing_inv (sourceIPTransparent pd) ?cd" by (rule serve_requests_inv)
  have sup: "Proto spec \<in> supported" and p: "p \<noteq> 0" "int64_ok p"
    using assms(2,5) by (auto simp: exposed_ok_def valid_port_def int64_ok_def)
  have "served_for env (snd (serve_requests cd rs)) addrs c spec (source_of (Proto spec) ip p) = handleConnectRequest env ?cd ?req"
    using assms(2,6,7) p(2) by (intro served_for_handled) (auto simp: source_of_def split: if_splits)
  then have sv: "served_for env (snd (serve_requests cd rs)) addrs c spec (source_of (Proto spec) ip p) = dial_target env ?cd ?req (dial_proto (Proto spec)) (dialled_at ?req)"
    by (simp only: exposed_dial [OF assms(2)])
  have wants: "wants_transparent ?cd ?req \<longleftrightarrow> sourceIPTransparent pd \<and> HasPrefix (Proto spec) ''tcp''"
    using wants_transparent_source [OF sup assms(3) p(1) assms(4)] inv by (simp add: routing_inv_def)
  have ready: "routingReady (fst (routing_once env ?cd))" using routing_once_inv [OF assms(9) inv] by blast
  show ?thesis
  proof (cases "sourceIPTransparent pd \<and> HasPrefix (Proto spec) ''tcp''")
    case True
    have "sv_dials (served_for env (snd (serve_requests cd rs)) addrs c spec (source_of (Proto spec) ip p)) =
        [Transparent (ParseIP (rq_SourceIP ?req)) (rq_SourcePort ?req) (dial_proto (Proto spec)) (dialled_at ?req)]"
      unfolding sv by (rule transparent_dials [OF _ ready]) (use wants True assms(10) in \<open>simp_all add: transparentDial_def\<close>)
    then show ?thesis
      using True HasPrefix_tcp [OF sup] ParseIP_String [OF assms(3)] by (simp add: source_of_def Let_def)
  next
    case False
    then show ?thesis unfolding sv using wants by (simp add: plain_dials Let_def)
  qed
qed


definition cenv1 :: cenv where
  "cenv1 = cenv0\<lparr>ce_TransparentDial := (\<lambda>_ _ _. Inr ())\<rparr>"

definition spec1 :: Spec where
  "spec1 = \<lparr>Proto = ''tcp4'', ParentIP = ''192.0.2.1'', ParentPort = 8080, ChildPort = 80, ChildIP = []\<rparr>"


end
