(* ===== verification/Testsuite.thy ===== *)
theory Testsuite
  imports Builtin_Path
begin

text \<open>
  \<^verbatim>\<open>pkg/port/testsuite\<close>: the conformance suite that the port drivers run. A test starts itself again
  as the child half of the driver in new user and network namespaces, starts the parent half,
  exposes ports and checks that data sent to the parent port comes out at a server inside the
  namespace. The results of system calls, of external programs and of the driver under test are
  arguments; what \<^verbatim>\<open>testing\<close> does with a failure is a value of type \<open>stop\<close>.
\<close>

datatype stop = Fatal string | Skip string | Panic string

type_synonym 'a test = "stop + 'a"

definition reexecKeyMode :: string where "reexecKeyMode = ''rootlesskit-port-testsuite.mode''"
definition reexecKeyOpaque :: string where "reexecKeyOpaque = ''rootlesskit-port-testsuite.opaque''"
definition reexecKeyQuitFD :: string where "reexecKeyQuitFD = ''rootlesskit-port-testsuite.quitfd''"
definition reexecKeyEchoPort :: string where "reexecKeyEchoPort = ''rootlesskit-port-testsuite.echoport''"

section \<open>Helpers\<close>

definition ensureDeps :: "(string \<Rightarrow> unit res) \<Rightarrow> string list \<Rightarrow> unit test" where
  "ensureDeps lookPath deps =
     (case filter (\<lambda>d. isl (lookPath d)) deps of
        [] \<Rightarrow> Inr ()
      | d # _ \<Rightarrow> Inl (Skip (quote d @ '' not found: '' @ (case lookPath d of Inl e \<Rightarrow> err_text e | Inr _ \<Rightarrow> []))))"

definition tLogWriter_Write :: "string \<Rightarrow> string \<Rightarrow> string \<times> nat" where
  "tLogWriter_Write s p = (s @ '': '' @ TrimSuffix p [CHR 0x0A], length p)"

definition nsenterExec :: "int \<Rightarrow> string list \<Rightarrow> string list" where
  "nsenterExec pid cmdss = [''nsenter'', ''-U'', ''--preserve-credential'', ''-n'', ''-t'', strconv_Itoa pid] @ cmdss"

text \<open>An interface: whether it is a loopback, whether it is up, the result of \<^verbatim>\<open>iface.Addrs\<close>.\<close>

record iface =
  if_loopback :: bool
  if_up :: bool
  if_Addrs :: "net_addr list res"

fun first_ip4 :: "net_addr list \<Rightarrow> string option" where
  "first_ip4 [] = None"
| "first_ip4 (a # as) =
     (case a of
        IPNet ip \<Rightarrow> if To4 ip \<noteq> [] then Some (IP_String (To4 ip)) else first_ip4 as
      | OtherNetAddr \<Rightarrow> first_ip4 as)"

fun scan_ifaces :: "iface list \<Rightarrow> string res" where
  "scan_ifaces [] = Inl (New ''no non-loopback IPv4 address found'')"
| "scan_ifaces (i # is) =
     (if if_loopback i \<or> \<not> if_up i then scan_ifaces is
      else (case if_Addrs i of
              Inl e \<Rightarrow> scan_ifaces is
            | Inr as \<Rightarrow> (case first_ip4 as of Some s \<Rightarrow> Inr s | None \<Rightarrow> scan_ifaces is)))"

definition nonLoopbackIPv4 :: "iface list res \<Rightarrow> string res" where
  "nonLoopbackIPv4 ifaces = (case ifaces of Inl e \<Rightarrow> Inl e | Inr is \<Rightarrow> scan_ifaces is)"

text \<open>
  \<open>listen\<close> opens and closes a TCP listener on the address and gives the port of the kernel;
  \<open>resolve\<close> and \<open>listenUDP\<close> are the two calls for UDP.
\<close>

definition allocateAvailablePort ::
  "(string \<Rightarrow> string \<Rightarrow> int res) \<Rightarrow> (string \<Rightarrow> string \<Rightarrow> string res) \<Rightarrow> (string \<Rightarrow> string \<Rightarrow> int res) \<Rightarrow> string \<Rightarrow> int res" where
  "allocateAvailablePort listen resolve listenUDP proto =
     (if proto = ''tcp'' \<or> proto = ''tcp4'' then listen proto ''127.0.0.1:0''
      else if proto = ''udp'' \<or> proto = ''udp4'' then
        (case resolve proto ''127.0.0.1:0'' of Inl e \<Rightarrow> Inl e | Inr addr \<Rightarrow> listenUDP proto addr)
      else Inl (Errorf ''unsupported proto %q'' [proto]))"

definition EADDRINUSE :: err where
  "EADDRINUSE = Sys ''address already in use''"

definition isAddrInUse :: "err \<Rightarrow> bool" where
  "isAddrInUse e \<longleftrightarrow> errors_Is e EADDRINUSE \<or> Contains (err_text e) ''address already in use'' \<or> Contains (err_text e) ''port is busy''"

text \<open>\<^verbatim>\<open>net.SplitHostPort\<close>.\<close>

fun IndexByte :: "string \<Rightarrow> char \<Rightarrow> nat option" where
  "IndexByte [] c = None"
| "IndexByte (d # s) c = (if d = c then Some 0 else map_option Suc (IndexByte s c))"

definition addr_err :: "string \<Rightarrow> string \<Rightarrow> err" where
  "addr_err addr why = Sys (''address '' @ addr @ '': '' @ why)"

definition check_brackets :: "string \<Rightarrow> nat \<Rightarrow> nat \<Rightarrow> string \<times> string \<Rightarrow> (string \<times> string) res" where
  "check_brackets s j k hp =
     (if CHR ''['' \<in> set (drop j s) then Inl (addr_err s ''unexpected '[' in address'')
      else if CHR '']'' \<in> set (drop k s) then Inl (addr_err s ''unexpected ']' in address'')
      else Inr hp)"

definition SplitHostPort :: "string \<Rightarrow> (string \<times> string) res" where
  "SplitHostPort s =
     (case LastIndex s CHR '':'' of
        None \<Rightarrow> Inl (addr_err s ''missing port in address'')
      | Some i \<Rightarrow>
          if HasPrefix s ''['' then
            (case IndexByte s CHR '']'' of
               None \<Rightarrow> Inl (addr_err s ''missing ']' in address'')
             | Some e \<Rightarrow>
                 if e + 1 = length s then Inl (addr_err s ''missing port in address'')
                 else if e + 1 = i then check_brackets s 1 (e + 1) (take (e - 1) (drop 1 s), drop (i + 1) s)
                 else if s ! (e + 1) = CHR '':'' then Inl (addr_err s ''too many colons in address'')
                 else Inl (addr_err s ''missing port in address''))
          else if CHR '':'' \<in> set (take i s) then Inl (addr_err s ''too many colons in address'')
          else check_brackets s 0 0 (take i s, drop (i + 1) s))"

section \<open>The child process of a test\<close>

record child_cmd =
  cc_Path :: string
  cc_Env :: "string list"
  cc_Cloneflags :: nat
  cc_UidMappings :: "(int \<times> int \<times> int) list"
  cc_GidMappings :: "(int \<times> int \<times> int) list"
  cc_ExtraFiles :: "string list"

definition child_command :: "(string \<times> string) list \<Rightarrow> int \<Rightarrow> int \<Rightarrow> string list \<Rightarrow> child_cmd" where
  "child_command opaque euid egid environ =
     \<lparr>cc_Path = ''/proc/self/exe'',
      cc_Env = [reexecKeyMode @ ''=child'', reexecKeyOpaque @ ''='' @ print_json (enc_map opaque), reexecKeyQuitFD @ ''=3''] @ environ,
      cc_Cloneflags = 0x10000000 + 0x40000000,
      cc_UidMappings = [(0, euid, 1)], cc_GidMappings = [(0, egid, 1)], cc_ExtraFiles = [''pr'']\<rparr>"

datatype act = Started child_cmd | Ran "string list" | Closed_pw | Waited

text \<open>
  What a test needs from the system before its body runs. The deferred close of the pipe and wait for
  the child run after the body, unless the body never returns or a goroutine of it panics,
  which ends the process. \<^const>\<open>None\<close>: the body blocks.
\<close>

record suite_sys =
  su_LookPath :: "string \<Rightarrow> unit res"
  su_Pipe :: "unit res"
  su_Start :: "child_cmd \<Rightarrow> int res"
  su_Combined :: "string list \<Rightarrow> (err \<times> string) option"
  su_euid :: int
  su_egid :: int
  su_Environ :: "string list"

definition deferred :: "'a test option \<Rightarrow> act list" where
  "deferred r = (case r of None \<Rightarrow> [] | Some (Inl (Panic _)) \<Rightarrow> [] | _ \<Rightarrow> [Closed_pw, Waited])"

definition in_namespace ::
  "suite_sys \<Rightarrow> (string \<times> string) list \<Rightarrow> (int \<Rightarrow> 's \<Rightarrow> 'a test option \<times> 's) \<Rightarrow> 's \<Rightarrow> act list \<times> 'a test option \<times> 's" where
  "in_namespace sys opaque body s =
     (case ensureDeps (su_LookPath sys) [''nsenter''] of
        Inl st \<Rightarrow> ([], Some (Inl st), s)
      | Inr _ \<Rightarrow>
          (case su_Pipe sys of
             Inl e \<Rightarrow> ([], Some (Inl (Fatal (err_text e))), s)
           | Inr _ \<Rightarrow>
               (let cmd = child_command opaque (su_euid sys) (su_egid sys) (su_Environ sys) in
                case su_Start sys cmd of
                  Inl e \<Rightarrow> ([], Some (Inl (Fatal (err_text e))), s)
                | Inr childPID \<Rightarrow>
                    (let up = nsenterExec childPID [''ip'', ''link'', ''set'', ''lo'', ''up''];
                         (r, s') = (case su_Combined sys up of
                                      Some (e, out) \<Rightarrow> (Some (Inl (Fatal (err_text e @ '', out='' @ out))), s)
                                    | None \<Rightarrow> body childPID s)
                     in ([Started cmd, Ran up] @ deferred r, r, s')))))"

text \<open>
  \<^verbatim>\<open>Main\<close> of the test binary, chosen by the environment. A driver either waits for a value on
  \<^verbatim>\<open>quit\<close> and then returns, or returns before without receiving; \<^verbatim>\<open>quit\<close> is unbuffered.
\<close>

datatype driver_run = Until_quit "unit res" | Before_quit "unit res"

datatype main_end = Exits int | Panics err | Blocks | Returns

definition unmarshal_opaque :: "string \<Rightarrow> (string \<times> string) list res" where
  "unmarshal_opaque s =
     (case json_parse s of
        Inl e \<Rightarrow> Inl e
      | Inr JNull \<Rightarrow> Inr []
      | Inr (JObj ms) \<Rightarrow> dec_map ms
      | Inr _ \<Rightarrow> Inl type_error)"

definition Main :: "(string \<Rightarrow> string) \<Rightarrow> int \<Rightarrow> unit res \<Rightarrow> unit res \<Rightarrow> ((string \<times> string) list \<Rightarrow> driver_run) \<Rightarrow> (int \<Rightarrow> unit res) \<Rightarrow> main_end" where
  "Main getenv m_Run echo udpecho runChild read_quit =
     (let mode = getenv reexecKeyMode in
      if mode = [] then Exits m_Run
      else if mode = ''echoserver'' then (case echo of Inl e \<Rightarrow> Panics e | Inr _ \<Rightarrow> Exits 0)
      else if mode = ''udpechoserver'' then (case udpecho of Inl e \<Rightarrow> Panics e | Inr _ \<Rightarrow> Exits 0)
      else if mode \<noteq> ''child'' then Panics (Errorf ''unknown mode: %q'' [mode])
      else
        (case unmarshal_opaque (getenv reexecKeyOpaque) of
           Inl e \<Rightarrow> Panics e
         | Inr opaque \<Rightarrow>
             (case strconv_Atoi (getenv reexecKeyQuitFD) of
                Inl e \<Rightarrow> Panics e
              | Inr quitFD \<Rightarrow>
                  (case read_quit quitFD of
                     Inl e \<Rightarrow> Panics e
                   | Inr _ \<Rightarrow>
                       (case runChild opaque of
                          Before_quit _ \<Rightarrow> Blocks
                        | Until_quit (Inl e) \<Rightarrow> Panics e
                        | Until_quit (Inr _) \<Rightarrow> Returns)))))"

text \<open>The child halves of the slirp4netns and the gvisor-tap-vsock port driver only wait for \<^verbatim>\<open>quit\<close>.\<close>

definition slirp4netns_RunChildDriver :: "(string \<times> string) list \<Rightarrow> string \<Rightarrow> driver_run" where
  "slirp4netns_RunChildDriver opaque detachedNetNSPath = Until_quit (Inr ())"

definition gvisortapvsock_RunChildDriver :: "(string \<times> string) list \<Rightarrow> string \<Rightarrow> driver_run" where
  "gvisortapvsock_RunChildDriver opaque detachedNetNSPath = Until_quit (Inr ())"

text \<open>
  The environment of a process: \<^verbatim>\<open>os/exec\<close> keeps the last of several entries for one key.
\<close>

definition env_value :: "string list \<Rightarrow> string \<Rightarrow> string" where
  "env_value env k =
     (case filter (\<lambda>e. HasPrefix e (k @ ''='')) env of [] \<Rightarrow> [] | es \<Rightarrow> TrimPrefix (last es) (k @ ''=''))"

section \<open>Exposing a port with retries\<close>

text \<open>
  The loop around \<^verbatim>\<open>AddPort\<close> of both kinds of test: \<open>k\<close> attempts are left, \<open>n\<close> were made; \<open>add n\<close> and
  \<open>alloc n\<close> are the two calls of attempt \<open>n\<close>, \<open>spec\<close> the specification for a parent port and
  \<open>stop\<close> what the caller does with an error (panic or \<^verbatim>\<open>t.Fatal\<close>).
\<close>

definition maxAttempts :: nat where
  "maxAttempts = 10"

fun add_retry ::
  "(nat \<Rightarrow> 's \<Rightarrow> Spec \<Rightarrow> Status res \<times> 's) \<Rightarrow> (nat \<Rightarrow> int res) \<Rightarrow> (int \<Rightarrow> Spec) \<Rightarrow> (string \<Rightarrow> stop) \<Rightarrow>
   nat \<Rightarrow> nat \<Rightarrow> int \<Rightarrow> 's \<Rightarrow> (Status \<times> int) test \<times> 's" where
  "add_retry add alloc spec stop 0 n cur s = (Inl (stop ''AddPort never succeeded''), s)"
| "add_retry add alloc spec stop (Suc k) n cur s =
     (case add n s (spec cur) of
        (Inr st, s') \<Rightarrow> (Inr (st, cur), s')
      | (Inl e, s') \<Rightarrow>
          if k = 0 \<or> \<not> isAddrInUse e then (Inl (stop (err_text e)), s')
          else (case alloc n of
                  Inl e' \<Rightarrow> (Inl (stop (err_text e')), s')
                | Inr p \<Rightarrow> add_retry add alloc spec stop k (n + 1) p s'))"

text \<open>The dial loop: five attempts; the connection of the first that succeeds, or the last error.\<close>

fun dial_loop :: "(nat \<Rightarrow> unit res) \<Rightarrow> nat \<Rightarrow> nat \<Rightarrow> unit res" where
  "dial_loop dial 0 i = Inl (New ''no attempt'')"
| "dial_loop dial (Suc k) i =
     (case dial i of Inr _ \<Rightarrow> Inr () | Inl e \<Rightarrow> if k = 0 then Inl e else dial_loop dial k (i + 1))"

section \<open>Data through an exposed port\<close>

definition nc_command :: "string \<Rightarrow> int \<Rightarrow> int \<Rightarrow> string list" where
  "nc_command proto childPID childP =
     nsenterExec childPID (''nc'' # (if proto \<in> {''udp'', ''udp4''} then [''-u''] else []) @ [''-l'', strconv_Itoa childP])"

definition test_bytes :: "string \<Rightarrow> int \<Rightarrow> int \<Rightarrow> int \<Rightarrow> string" where
  "test_bytes proto childPID childP parentP =
     ''test-'' @ proto @ ''-'' @ strconv_Itoa childPID @ ''-'' @ strconv_Itoa childP @ ''-'' @ strconv_Itoa parentP"

text \<open>
  The results of the calls of one routine. \<open>ro_Stdout\<close> is what one \<^verbatim>\<open>Read\<close> of the output of
  \<^verbatim>\<open>nc\<close> gives, at most the length of the buffer; \<open>ro_Close\<close> is the result of \<^verbatim>\<open>CloseWrite\<close> or of the
  close of the UDP socket, \<open>ro_Close2\<close> the final close of the TCP connection.
\<close>

record 'e routine_env =
  ro_Start :: "string list \<Rightarrow> unit res"
  ro_Add :: "nat \<Rightarrow> 'e"
  ro_Alloc :: "nat \<Rightarrow> int res"
  ro_Dial :: "string \<Rightarrow> string \<Rightarrow> nat \<Rightarrow> unit res"
  ro_Write :: "string \<Rightarrow> unit res"
  ro_Close :: "unit res"
  ro_Stdout :: "string \<Rightarrow> string res"
  ro_Close2 :: "unit res"
  ro_Wait :: "unit res"
  ro_Remove :: 'e

text \<open>The buffer is as long as what was written; bytes that \<^verbatim>\<open>Read\<close> did not fill stay zero.\<close>

definition fill_buffer :: "nat \<Rightarrow> string \<Rightarrow> string" where
  "fill_buffer n s = take n s @ replicate (n - length s) (CHR 0x00)"

definition panic_on :: "unit res \<Rightarrow> unit test \<Rightarrow> unit test" where
  "panic_on r k = (case r of Inl e \<Rightarrow> Inl (Panic (err_text e)) | Inr _ \<Rightarrow> k)"

definition exchange :: "'e routine_env \<Rightarrow> string \<Rightarrow> int \<Rightarrow> int \<Rightarrow> int \<Rightarrow> unit test" where
  "exchange env proto childPID childP parentP =
     panic_on (dial_loop (ro_Dial env proto (''127.0.0.1:'' @ strconv_Itoa parentP)) 5 0)
       (let wBytes = test_bytes proto childPID childP parentP in
        panic_on (ro_Write env wBytes)
          (panic_on (ro_Close env)
             (case ro_Stdout env wBytes of
                Inl e \<Rightarrow> Inl (Panic (err_text e))
              | Inr got \<Rightarrow>
                  if wBytes \<noteq> fill_buffer (length wBytes) got
                  then Inl (Panic (''expected '' @ quote wBytes @ '', got '' @ quote (fill_buffer (length wBytes) got)))
                  else if proto = ''tcp'' \<or> proto = ''tcp4'' then panic_on (ro_Close2 env) (panic_on (ro_Wait env) (Inr ()))
                  else Inr ())))"

definition suite_spec :: "string \<Rightarrow> string \<Rightarrow> int \<Rightarrow> int \<Rightarrow> Spec" where
  "suite_spec proto parentIP childP parentP =
     \<lparr>Proto = proto, ParentIP = parentIP, ParentPort = parentP, ChildPort = childP, ChildIP = []\<rparr>"

text \<open>
  The routine for one port; a panic still runs the deferred removal of the port, and a failure of the
  removal is a panic of its own.
\<close>

definition testProtoRoutine ::
  "('e \<Rightarrow> 's \<Rightarrow> Spec \<Rightarrow> Status res \<times> 's) \<Rightarrow> ('e \<Rightarrow> 's \<Rightarrow> int \<Rightarrow> unit res \<times> 's) \<Rightarrow> 'e routine_env \<Rightarrow>
   string \<Rightarrow> int \<Rightarrow> int \<Rightarrow> int \<Rightarrow> 's \<Rightarrow> unit test \<times> 's" where
  "testProtoRoutine add rem env proto childPID childP parentP s =
     (if proto \<notin> {''tcp'', ''tcp4'', ''udp'', ''udp4''} then (Inl (Panic ''invalid proto''), s)
      else
        (case ro_Start env (nc_command proto childPID childP) of
           Inl e \<Rightarrow> (Inl (Panic (err_text e)), s)
         | Inr _ \<Rightarrow>
             (case add_retry (\<lambda>n. add (ro_Add env n)) (ro_Alloc env) (suite_spec proto ''127.0.0.1'' childP) Panic maxAttempts 0 parentP s of
                (Inl st, s1) \<Rightarrow> (Inl st, s1)
              | (Inr (portStatus, pp), s1) \<Rightarrow>
                  (let r = exchange env proto childPID childP pp in
                   case rem (ro_Remove env) s1 (ID portStatus) of
                     (Inl e, s2) \<Rightarrow> (Inl (Panic (err_text e)), s2)
                   | (Inr _, s2) \<Rightarrow> (r, s2)))))"

text \<open>
  \<^verbatim>\<open>testProtoWithPID\<close>: the parent ports for the child ports 80 and 8080, the parent driver, then the
  routines. They run concurrently; \<open>routines\<close> is their joint outcome on the driver.
  \<^verbatim>\<open>quit\<close> is unbuffered here too, so a driver that has ended early blocks the test.
\<close>

datatype parent_run = Init_complete driver_run | Failed_init err

fun allocate_pairs :: "(nat \<Rightarrow> int res) \<Rightarrow> nat \<Rightarrow> int list \<Rightarrow> (int \<times> int) list res" where
  "allocate_pairs alloc n [] = Inr []"
| "allocate_pairs alloc n (c # cs) =
     (case alloc n of
        Inl e \<Rightarrow> Inl e
      | Inr p \<Rightarrow> (case allocate_pairs alloc (n + 1) cs of Inl e \<Rightarrow> Inl e | Inr ps \<Rightarrow> Inr ((c, p) # ps)))"

definition end_driver :: "driver_run \<Rightarrow> 'a test \<Rightarrow> 'a test option" where
  "end_driver run r =
     (case run of
        Before_quit _ \<Rightarrow> None
      | Until_quit (Inl e) \<Rightarrow> Some (Inl (Fatal (err_text e)))
      | Until_quit (Inr _) \<Rightarrow> Some r)"

definition testProtoWithPID ::
  "(string \<Rightarrow> unit res) \<Rightarrow> (nat \<Rightarrow> int res) \<Rightarrow> parent_run \<Rightarrow> ((int \<times> int) list \<Rightarrow> 's \<Rightarrow> unit test \<times> 's) \<Rightarrow>
   string \<Rightarrow> 's \<Rightarrow> unit test option \<times> 's" where
  "testProtoWithPID lookPath alloc run routines proto s =
     (case ensureDeps lookPath [''nsenter'', ''ip'', ''nc''] of
        Inl st \<Rightarrow> (Some (Inl st), s)
      | Inr _ \<Rightarrow>
          (case allocate_pairs alloc 0 [80, 8080] of
             Inl e \<Rightarrow> (Some (Inl (Fatal (''failed to allocate parent port for '' @ proto @ '': '' @ err_text e))), s)
           | Inr pairs \<Rightarrow>
               (case run of
                  Failed_init e \<Rightarrow> (Some (Inl (Fatal (err_text e))), s)
                | Init_complete drun \<Rightarrow>
                    (case routines pairs s of
                       (Inl st, s') \<Rightarrow> (Some (Inl st), s')
                     | (Inr _, s') \<Rightarrow> (end_driver drun (Inr ()), s')))))"

definition TestProto ::
  "suite_sys \<Rightarrow> (string \<times> string) list \<Rightarrow> (nat \<Rightarrow> int res) \<Rightarrow> parent_run \<Rightarrow> (int \<Rightarrow> (int \<times> int) list \<Rightarrow> 's \<Rightarrow> unit test \<times> 's) \<Rightarrow>
   string \<Rightarrow> 's \<Rightarrow> act list \<times> unit test option \<times> 's" where
  "TestProto sys opaque alloc run routines proto =
     in_namespace sys opaque (\<lambda>childPID. testProtoWithPID (su_LookPath sys) alloc run (routines childPID) proto)"

text \<open>\<^verbatim>\<open>Run\<close>: the four tests in order, each on the driver that the caller makes for it.\<close>

definition Run :: "(string \<Rightarrow> 'r) \<Rightarrow> (string \<times> 'r) list" where
  "Run test = [(''TestTCP'', test ''tcp''), (''TestTCP4'', test ''tcp4''), (''TestUDP'', test ''udp''), (''TestUDP4'', test ''udp4'')]"

section \<open>Sources of transparent connections\<close>

text \<open>
  The two echo servers that run inside the namespace: the lines they print, the data they send back,
  and whether they panic.
\<close>

record echo_env =
  ee_Listen :: "string \<Rightarrow> unit res"
  ee_Accept :: "string res"
  ee_Resolve :: "string \<Rightarrow> string res"
  ee_ListenUDP :: "string \<Rightarrow> unit res"
  ee_ReadFrom :: "(string \<times> string) res"

definition runEchoServer :: "(string \<Rightarrow> string) \<Rightarrow> echo_env \<Rightarrow> string list \<times> unit res" where
  "runEchoServer getenv env =
     (let portStr = getenv reexecKeyEchoPort in
      if portStr = [] then ([], Inl (New (''echoserver: missing '' @ reexecKeyEchoPort)))
      else (case ee_Listen env (''127.0.0.1:'' @ portStr) of
              Inl e \<Rightarrow> ([], Inl (Wrapf ''echoserver: listen: %w'' [] e))
            | Inr _ \<Rightarrow>
                (case ee_Accept env of
                   Inl e \<Rightarrow> ([], Inl (Wrapf ''echoserver: accept: %w'' [] e))
                 | Inr remote \<Rightarrow> ([remote], Inr ()))))"

definition runUDPEchoServer :: "(string \<Rightarrow> string) \<Rightarrow> echo_env \<Rightarrow> string list \<times> (string \<times> string) list \<times> unit res" where
  "runUDPEchoServer getenv env =
     (let portStr = getenv reexecKeyEchoPort in
      if portStr = [] then ([], [], Inl (New (''udpechoserver: missing '' @ reexecKeyEchoPort)))
      else (case ee_Resolve env (''127.0.0.1:'' @ portStr) of
              Inl e \<Rightarrow> ([], [], Inl (Wrapf ''udpechoserver: resolve: %w'' [] e))
            | Inr addr \<Rightarrow>
                (case ee_ListenUDP env addr of
                   Inl e \<Rightarrow> ([], [], Inl (Wrapf ''udpechoserver: listen: %w'' [] e))
                 | Inr _ \<Rightarrow>
                     (case ee_ReadFrom env of
                        Inl e \<Rightarrow> ([], [], Inl (Wrapf ''udpechoserver: read: %w'' [] e))
                      | Inr (buf, from) \<Rightarrow> ([from], [(buf, from)], Inr ())))))"

text \<open>The client of a test. \<open>cl_Local\<close> is the local address of its connection.\<close>

record client_env =
  cl_Dial :: "string \<Rightarrow> string \<Rightarrow> nat \<Rightarrow> unit res"
  cl_Local :: string
  cl_Write :: "string \<Rightarrow> unit res"
  cl_CloseWrite :: "unit res"
  cl_SetReadDeadline :: "unit res"
  cl_Read :: "string res"

definition transparentTCPDialAndSend :: "client_env \<Rightarrow> string \<Rightarrow> string test" where
  "transparentTCPDialAndSend env parentAddr =
     (case dial_loop (cl_Dial env ''tcp'' parentAddr) 5 0 of
        Inl e \<Rightarrow> Inl (Fatal (err_text e))
      | Inr _ \<Rightarrow>
          (case cl_Write env ''hello'' of
             Inl e \<Rightarrow> Inl (Fatal (err_text e))
           | Inr _ \<Rightarrow>
               (case cl_CloseWrite env of Inl e \<Rightarrow> Inl (Fatal (err_text e)) | Inr _ \<Rightarrow> Inr (cl_Local env))))"

definition transparentUDPDialAndSend :: "client_env \<Rightarrow> string \<Rightarrow> string test" where
  "transparentUDPDialAndSend env parentAddr =
     (case cl_Dial env ''udp'' parentAddr 0 of
        Inl e \<Rightarrow> Inl (Fatal (err_text e))
      | Inr _ \<Rightarrow>
          (case cl_Write env ''hello'' of
             Inl e \<Rightarrow> Inl (Fatal (err_text e))
           | Inr _ \<Rightarrow>
               (case cl_SetReadDeadline env of
                  Inl e \<Rightarrow> Inl (Fatal (err_text e))
                | Inr _ \<Rightarrow>
                    (case cl_Read env of
                       Inl e \<Rightarrow> Inl (Fatal (''did not receive UDP echo reply (issue #592 return-path regression): '' @ err_text e))
                     | Inr got \<Rightarrow>
                         if take 64 got \<noteq> ''hello'' then Inl (Fatal (''unexpected UDP echo reply: '' @ quote (take 64 got)))
                         else Inr (cl_Local env)))))"

text \<open>The last check, on the two hosts: the messages of \<^verbatim>\<open>t.Errorf\<close>.\<close>

definition source_verdict :: "string \<Rightarrow> string \<Rightarrow> string \<Rightarrow> string list" where
  "source_verdict proto clientHost serverHost =
     (if proto = ''tcp'' then
        (if clientHost \<noteq> serverHost then [''IP mismatch: client='' @ clientHost @ '', server saw='' @ serverHost] else [])
      else if proto = ''udp'' then
        (if clientHost = serverHost then [''expected UDP source IP not to be preserved, but server saw client IP '' @ serverHost] else [])
      else [])"

definition judge_hosts :: "string \<Rightarrow> string \<Rightarrow> string \<Rightarrow> string list test" where
  "judge_hosts proto clientAddr serverSawAddr =
     (case SplitHostPort clientAddr of
        Inl e \<Rightarrow> Inl (Fatal (''failed to parse client address '' @ quote clientAddr @ '': '' @ err_text e))
      | Inr (clientHost, _) \<Rightarrow>
          (case SplitHostPort serverSawAddr of
             Inl e \<Rightarrow> Inl (Fatal (''failed to parse server-seen address '' @ quote serverSawAddr @ '': '' @ err_text e))
           | Inr (serverHost, _) \<Rightarrow> Inr (source_verdict proto clientHost serverHost)))"

text \<open>
  The results of the remaining calls. \<open>tp_StartEcho\<close> starts the echo server with its command line and
  environment; \<open>tp_FirstLine\<close> is the first line it printed when the scanner finds one.
\<close>

record 'e transparent_env =
  tp_LookPath :: "string \<Rightarrow> unit res"
  tp_Interfaces :: "iface list res"
  tp_Run :: parent_run
  tp_Executable :: "string res"
  tp_Pipe1 :: "unit res"
  tp_Pipe2 :: "unit res"
  tp_Environ :: "string list"
  tp_StartEcho :: "string list \<Rightarrow> string list \<Rightarrow> unit res"
  tp_Alloc0 :: "int res"
  tp_Add :: "nat \<Rightarrow> 'e"
  tp_Alloc :: "nat \<Rightarrow> int res"
  tp_Client :: client_env
  tp_FirstLine :: "string option"
  tp_Remove :: 'e

definition childPort80 :: int where
  "childPort80 = 80"

definition echo_command :: "'e transparent_env \<Rightarrow> string \<Rightarrow> int \<Rightarrow> string \<Rightarrow> string list \<times> string list" where
  "echo_command env proto childPID exe =
     (nsenterExec childPID [exe],
      [reexecKeyMode @ ''='' @ (if proto = ''tcp'' then ''echoserver'' else ''udpechoserver''),
       reexecKeyEchoPort @ ''='' @ strconv_Itoa childPort80] @ tp_Environ env)"

text \<open>The end of the test: the client, the line of the server, the hosts, the removal and the driver.\<close>

definition transparent_finish ::
  "('e \<Rightarrow> 's \<Rightarrow> int \<Rightarrow> unit res \<times> 's) \<Rightarrow> 'e transparent_env \<Rightarrow> driver_run \<Rightarrow> string \<Rightarrow> string \<Rightarrow> int \<Rightarrow> Status \<Rightarrow> 's \<Rightarrow>
   string list test option \<times> 's" where
  "transparent_finish rem env drun proto parentIP parentPort portStatus s =
     (let parentAddr = JoinHostPort parentIP (strconv_Itoa parentPort);
          sent = (if proto = ''tcp'' then transparentTCPDialAndSend (tp_Client env) parentAddr
                  else transparentUDPDialAndSend (tp_Client env) parentAddr)
      in case sent of
           Inl st \<Rightarrow> (Some (Inl st), s)
         | Inr clientAddr \<Rightarrow>
             (case tp_FirstLine env of
                None \<Rightarrow> (Some (Inl (Fatal ''failed to read remote address from echo server'')), s)
              | Some serverSawAddr \<Rightarrow>
                  (case judge_hosts proto clientAddr serverSawAddr of
                     Inl st \<Rightarrow> (Some (Inl st), s)
                   | Inr msgs \<Rightarrow>
                       (case rem (tp_Remove env) s (ID portStatus) of
                          (Inl e, s') \<Rightarrow> (Some (Inl (Fatal (err_text e))), s')
                        | (Inr _, s') \<Rightarrow> (end_driver drun (Inr msgs), s')))))"

text \<open>The part between the start of the driver and the first packet.\<close>

definition transparent_expose ::
  "('e \<Rightarrow> 's \<Rightarrow> Spec \<Rightarrow> Status res \<times> 's) \<Rightarrow> 'e transparent_env \<Rightarrow> string \<Rightarrow> int \<Rightarrow> string \<Rightarrow> 's \<Rightarrow> (Status \<times> int) test \<times> 's" where
  "transparent_expose add env proto childPID parentIP s =
     (case tp_Executable env of
        Inl e \<Rightarrow> (Inl (Fatal (err_text e)), s)
      | Inr exe \<Rightarrow>
          (case tp_Pipe1 env of
             Inl e \<Rightarrow> (Inl (Fatal (err_text e)), s)
           | Inr _ \<Rightarrow>
               (case tp_Pipe2 env of
                  Inl e \<Rightarrow> (Inl (Fatal (err_text e)), s)
                | Inr _ \<Rightarrow>
                    (case tp_StartEcho env (fst (echo_command env proto childPID exe)) (snd (echo_command env proto childPID exe)) of
                       Inl e \<Rightarrow> (Inl (Fatal (err_text e)), s)
                     | Inr _ \<Rightarrow>
                         (case tp_Alloc0 env of
                            Inl e \<Rightarrow> (Inl (Fatal (err_text e)), s)
                          | Inr parentPort \<Rightarrow>
                              add_retry (\<lambda>n. add (tp_Add env n)) (tp_Alloc env) (suite_spec proto parentIP childPort80) Fatal maxAttempts 0
                                parentPort s)))))"

definition testTransparentWithPID ::
  "('e \<Rightarrow> 's \<Rightarrow> Spec \<Rightarrow> Status res \<times> 's) \<Rightarrow> ('e \<Rightarrow> 's \<Rightarrow> int \<Rightarrow> unit res \<times> 's) \<Rightarrow> 'e transparent_env \<Rightarrow>
   string \<Rightarrow> int \<Rightarrow> 's \<Rightarrow> string list test option \<times> 's" where
  "testTransparentWithPID add rem env proto childPID s =
     (case ensureDeps (tp_LookPath env) [''nsenter''] of
        Inl st \<Rightarrow> (Some (Inl st), s)
      | Inr _ \<Rightarrow>
          if proto \<noteq> ''tcp'' \<and> proto \<noteq> ''udp'' then (Some (Inl (Fatal (''unsupported proto for transparent test: '' @ proto))), s)
          else
            (case nonLoopbackIPv4 (tp_Interfaces env) of
               Inl e \<Rightarrow> (Some (Inl (Skip (''no non-loopback IPv4 address available: '' @ err_text e))), s)
             | Inr parentIP \<Rightarrow>
                 (case tp_Run env of
                    Failed_init e \<Rightarrow> (Some (Inl (Fatal (err_text e))), s)
                  | Init_complete drun \<Rightarrow>
                      (case transparent_expose add env proto childPID parentIP s of
                         (Inl st, s1) \<Rightarrow> (Some (Inl st), s1)
                       | (Inr (portStatus, parentPort), s1) \<Rightarrow>
                           transparent_finish rem env drun proto parentIP parentPort portStatus s1))))"

definition TestTCPTransparent ::
  "('e \<Rightarrow> 's \<Rightarrow> Spec \<Rightarrow> Status res \<times> 's) \<Rightarrow> ('e \<Rightarrow> 's \<Rightarrow> int \<Rightarrow> unit res \<times> 's) \<Rightarrow> 'e transparent_env \<Rightarrow>
   suite_sys \<Rightarrow> (string \<times> string) list \<Rightarrow> 's \<Rightarrow> act list \<times> string list test option \<times> 's" where
  "TestTCPTransparent add rem env sys opaque = in_namespace sys opaque (testTransparentWithPID add rem env ''tcp'')"

definition TestUDPTransparent ::
  "('e \<Rightarrow> 's \<Rightarrow> Spec \<Rightarrow> Status res \<times> 's) \<Rightarrow> ('e \<Rightarrow> 's \<Rightarrow> int \<Rightarrow> unit res \<times> 's) \<Rightarrow> 'e transparent_env \<Rightarrow>
   suite_sys \<Rightarrow> (string \<times> string) list \<Rightarrow> 's \<Rightarrow> act list \<times> string list test option \<times> 's" where
  "TestUDPTransparent add rem env sys opaque = in_namespace sys opaque (testTransparentWithPID add rem env ''udp'')"

section \<open>What a passing routine shows of a driver\<close>

lemma fill_buffer_full:
  assumes "w = fill_buffer (length w) got" and "CHR 0x00 \<notin> set w"
  shows "w = take (length w) got"
proof (cases "length w \<le> length got")
  case True
  then show ?thesis using assms(1) by (simp add: fill_buffer_def)
next
  case False
  then have "CHR 0x00 \<in> set (fill_buffer (length w) got)" by (simp add: fill_buffer_def)
  with assms show ?thesis by metis
qed

lemma Itoa_no_nul: "CHR 0x00 \<notin> set (strconv_Itoa i)"
  by (auto simp: is_digit_def dest: Itoa_chars)

lemma test_bytes_no_nul: "proto \<in> {''tcp'', ''tcp4'', ''udp'', ''udp4''} \<Longrightarrow> CHR 0x00 \<notin> set (test_bytes proto a b c)"
  by (auto simp: test_bytes_def Itoa_no_nul)

lemma exchange_pass:
  assumes "exchange env proto pid c p = Inr ()" and "proto \<in> {''tcp'', ''tcp4'', ''udp'', ''udp4''}"
  shows "\<exists>got. ro_Stdout env (test_bytes proto pid c p) = Inr got \<and>
    test_bytes proto pid c p = take (length (test_bytes proto pid c p)) got"
proof -
  let ?w = "test_bytes proto pid c p"
  obtain got where got: "ro_Stdout env ?w = Inr got" "?w = fill_buffer (length ?w) got"
    using assms(1) by (auto simp: exchange_def panic_on_def Let_def split: sum.splits if_splits)
  then show ?thesis using fill_buffer_full [OF got(2) test_bytes_no_nul [OF assms(2)]] by blast
qed

context port_manager
begin

lemma add_retry_manager:
  assumes "\<And>n s. env_ok (envs n) s" and "invar s"
    and "add_retry (\<lambda>n. add_port (envs n)) alloc spec stop k n cur s = (r, s')"
  shows "invar s' \<and> (case r of Inr (st, p) \<Rightarrow> list_ports s' = list_ports s @ [st] | Inl _ \<Rightarrow> list_ports s' = list_ports s)"
  using assms(2,3)
proof (induction "\<lambda>n. add_port (envs n)" alloc spec stop k n cur s rule: add_retry.induct)
  case (1 alloc spec stop n cur s)
  then show ?case by auto
next
  case (2 alloc spec stop k n cur s)
  obtain a s1 where a: "add_port (envs n) s (spec cur) = (a, s1)" by fastforce
  show ?case
  proof (cases a)
    case (Inr st)
    with 2(2,3) a show ?thesis using add_ok [of s "envs n"] list_after_add [of s "envs n"] assms(1) by fastforce
  next
    case (Inl e)
    have inv: "invar s1" and same: "list_ports s1 = list_ports s"
      using 2(2) a Inl assms(1) add_err [of s "envs n"] list_after_failed_add [of s "envs n"] by blast+
    show ?thesis
    proof (cases "k = 0 \<or> \<not> isAddrInUse e \<or> (\<exists>e'. alloc n = Inl e')")
      case True
      then show ?thesis using 2(3) a Inl inv same by (auto split: if_splits sum.splits)
    next
      case False
      then obtain p where "alloc n = Inr p" by (cases "alloc n") auto
      then show ?thesis using 2(1) [of a s1 e p] 2(3) a Inl False inv same by (simp split: sum.splits prod.splits)
    qed
  qed
qed

lemma removed_last:
  assumes "invar s1" and "list_ports s1 = ps @ [st]" and "remove_port e s1 (ID st) = (Inr u, s2)"
  shows "list_ports s2 = ps"
proof -
  have "list_ports s2 = filter (\<lambda>x. ID x \<noteq> ID st) (ps @ [st])" using list_after_remove [OF assms(1,3)] assms(2) by simp
  moreover have "distinct (map ID (ps @ [st]))" using list_ids_distinct [OF assms(1)] assms(2) by simp
  then have "filter (\<lambda>x. ID x \<noteq> ID st) ps = ps" by (intro filter_True) (simp, metis imageI)
  ultimately show ?thesis by simp
qed

lemma routine_pass:
  assumes "\<And>n s. env_ok (ro_Add env n) s" and "invar s"
    and "testProtoRoutine add_port remove_port env proto pid c p s = (Inr (), s')"
  shows "\<exists>st pp s1 got. invar s1 \<and> list_ports s1 = list_ports s @ [st] \<and>
    ro_Stdout env (test_bytes proto pid c pp) = Inr got \<and>
    test_bytes proto pid c pp = take (length (test_bytes proto pid c pp)) got \<and>
    remove_port (ro_Remove env) s1 (ID st) = (Inr (), s') \<and> invar s' \<and> list_ports s' = list_ports s"
proof -
  obtain ar s1 where ar: "add_retry (\<lambda>n. add_port (ro_Add env n)) (ro_Alloc env) (suite_spec proto ''127.0.0.1'' c) Panic
      maxAttempts 0 p s = (ar, s1)" by fastforce
  have proto: "proto \<in> {''tcp'', ''tcp4'', ''udp'', ''udp4''}"
    using assms(3) by (auto simp: testProtoRoutine_def split: if_splits)
  obtain st pp where st: "ar = Inr (st, pp)" and rem: "remove_port (ro_Remove env) s1 (ID st) = (Inr (), s')"
    and ex: "exchange env proto pid c pp = Inr ()"
    using assms(3) ar by (auto simp: testProtoRoutine_def Let_def split: if_splits sum.splits prod.splits)
  have m: "invar s1" "list_ports s1 = list_ports s @ [st]"
    using add_retry_manager [OF assms(1,2) ar] st by simp_all
  have "list_ports s' = list_ports s" using m rem by (rule removed_last)
  with m st rem exchange_pass [OF ex proto] remove_ok [OF m(1) rem] show ?thesis by blast
qed

end

section \<open>Hosts\<close>

definition plain_text :: "string \<Rightarrow> bool" where
  "plain_text h \<longleftrightarrow> CHR ''['' \<notin> set h \<and> CHR '']'' \<notin> set h"

lemma IndexByte_append: "c \<notin> set s \<Longrightarrow> IndexByte (s @ c # t) c = Some (length s)"
  by (induction s) auto

lemma SplitHostPort_Join:
  assumes "plain_text h" and "plain_text p" and "CHR '':'' \<notin> set p"
  shows "SplitHostPort (JoinHostPort h p) = Inr (h, p)"
proof (cases "CHR '':'' \<in> set h")
  case False
  have "\<not> HasPrefix (h @ '':'' @ p) ''[''" using assms(1) by (cases h) (auto simp: plain_text_def)
  then show ?thesis
    using False assms LastIndex_append [of "CHR '':''" p h]
    by (simp add: SplitHostPort_def JoinHostPort_def check_brackets_def plain_text_def)
next
  case True
  have "LastIndex ((CHR ''['' # h @ '']'') @ CHR '':'' # p) CHR '':'' = Some (length (CHR ''['' # h @ '']''))"
    using assms(3) by (rule LastIndex_append)
  moreover have "IndexByte ((CHR ''['' # h) @ CHR '']'' # CHR '':'' # p) CHR '']'' = Some (length (CHR ''['' # h))"
    using assms(1) by (intro IndexByte_append) (auto simp: plain_text_def)
  ultimately show ?thesis
    using True assms by (simp add: SplitHostPort_def JoinHostPort_def check_brackets_def plain_text_def)
qed

lemma octet_no_bracket [simp]: "CHR ''['' \<notin> set (octet_text w)" "CHR '']'' \<notin> set (octet_text w)"
  by (auto simp: octet_text_def is_digit_def dest: digits_of_digits [rotated])

lemma plain_ipv4: "length ip = 4 \<Longrightarrow> plain_text (ipv4_text ip) \<and> CHR '':'' \<notin> set (ipv4_text ip)"
  by (auto simp: ipv4_text_def plain_text_def dest!: length4_cases)

lemma plain_Itoa: "plain_text (strconv_Itoa i)" "CHR '':'' \<notin> set (strconv_Itoa i)"
  by (auto simp: plain_text_def is_digit_def dest: Itoa_chars)

lemma IP_String_v4: "To4 ip \<noteq> [] \<Longrightarrow> IP_String ip = ipv4_text (To4 ip)"
  by (auto simp: IP_String_def To4_def)

lemma IP_String_To4: "To4 ip \<noteq> [] \<Longrightarrow> IP_String (To4 ip) = IP_String ip"
  using length_To4 [of ip] by (cases "ip = []") (auto simp: IP_String_def To4_def)

text \<open>The interfaces of an ordinary host: all up, and the loopback addresses on the loopback interface only.\<close>

definition iface_ok :: "iface \<Rightarrow> bool" where
  "iface_ok i \<longleftrightarrow>
     (case if_Addrs i of
        Inl _ \<Rightarrow> False
      | Inr as \<Rightarrow> (if if_loopback i then \<forall>ip. IPNet ip \<in> set as \<longrightarrow> IsLoopback ip
                  else if_up i \<and> (\<forall>ip. IPNet ip \<in> set as \<longrightarrow> \<not> IsLoopback ip)))"

text \<open>\<^verbatim>\<open>net.InterfaceAddrs\<close>: the addresses of all interfaces.\<close>

definition InterfaceAddrs :: "iface list \<Rightarrow> net_addr list" where
  "InterfaceAddrs is = concat (map (\<lambda>i. case if_Addrs i of Inl _ \<Rightarrow> [] | Inr as \<Rightarrow> as) is)"

lemma first_gateway_loopback:
  "\<forall>ip. IPNet ip \<in> set as \<longrightarrow> IsLoopback ip \<Longrightarrow> first_gateway (as @ bs) = first_gateway bs"
  by (induction as) (auto split: net_addr.splits)

lemma first_gateway_others:
  "\<forall>ip. IPNet ip \<in> set as \<longrightarrow> \<not> IsLoopback ip \<Longrightarrow>
   first_gateway (as @ bs) = (case first_ip4 as of Some s \<Rightarrow> s | None \<Rightarrow> first_gateway bs)"
  by (induction as) (auto simp: IP_String_To4 split: net_addr.splits)

lemma scan_ifaces_gateway:
  "list_all iface_ok is \<Longrightarrow> first_gateway (InterfaceAddrs is) = (case scan_ifaces is of Inr s \<Rightarrow> s | Inl _ \<Rightarrow> [])"
proof (induction "is")
  case (Cons i "is")
  obtain as where as: "if_Addrs i = Inr as" using Cons.prems by (auto simp: iface_ok_def split: sum.splits)
  show ?case
  proof (cases "if_loopback i")
    case True
    then have "first_gateway (as @ InterfaceAddrs is) = first_gateway (InterfaceAddrs is)"
      using Cons.prems as by (intro first_gateway_loopback) (simp add: iface_ok_def)
    with True as Cons show ?thesis by (simp add: InterfaceAddrs_def)
  next
    case False
    then have "first_gateway (as @ InterfaceAddrs is) = (case first_ip4 as of Some s \<Rightarrow> s | None \<Rightarrow> first_gateway (InterfaceAddrs is))"
      using Cons.prems as by (intro first_gateway_others) (simp add: iface_ok_def)
    moreover have "if_up i" using Cons.prems as False by (simp add: iface_ok_def)
    ultimately show ?thesis using False as Cons by (simp add: InterfaceAddrs_def split: option.splits)
  qed
qed (simp add: InterfaceAddrs_def)


lemma scan_ifaces_valid: "scan_ifaces is = Inr s \<Longrightarrow> \<exists>ip. length ip = 4 \<and> s = ipv4_text ip"
proof (induction "is")
  case (Cons i "is")
  have "first_ip4 as = Some t \<Longrightarrow> \<exists>ip. length ip = 4 \<and> t = ipv4_text ip" for as t
    by (induction as) (use length_To4 in \<open>force split: net_addr.splits if_splits simp: IP_String_v4\<close>)+
  with Cons show ?case by (fastforce split: if_splits sum.splits option.splits)
qed simp

lemma suite_spec_target:
  assumes "list_all iface_ok is" and "nonLoopbackIPv4 (Inr is) = Inr parentIP"
  shows "dialled_at (connect_request (Inr (InterfaceAddrs is)) (suite_spec proto parentIP childPort80 p) src) = ''127.0.0.1:80''"
proof -
  have "hostGatewayIP (Inr (InterfaceAddrs is)) = parentIP"
    using scan_ifaces_gateway [OF assms(1)] assms(2) by (simp add: hostGatewayIP_def nonLoopbackIPv4_def)
  moreover have "JoinHostPort ''127.0.0.1'' (strconv_Itoa 80) = ''127.0.0.1:80''" by code_simp
  ultimately show ?thesis by (simp add: dialled_at_def suite_spec_def childPort80_def)
qed

end
