(* ===== verification/Suite_Builtin.thy ===== *)
theory Suite_Builtin
  imports Testsuite "HOL-Library.Sublist"
begin

text \<open>
  The conformance suite run on the builtin port driver, as \<^verbatim>\<open>pkg/port/builtin/builtin_test.go\<close> does: the two
  transparent tests composed with the parent half, the child half and the echo server, the
  routine for one port, the retries, and the start of the child process.
\<close>

section \<open>The transparent tests on the builtin driver\<close>

text \<open>
  The line that the echo server prints: it accepts the connection that the child has made, if the
  child dialled the address where the server listens. The peer of a transparent connection
  is its local address; \<open>plain\<close> is the local address that the kernel chooses for an ordinary one.
\<close>

definition server_line :: "dial list \<Rightarrow> string \<Rightarrow> string \<Rightarrow> string option" where
  "server_line dials listens plain =
     (if dials = [] then None
      else (case last dials of
              Transparent ip p _ t \<Rightarrow> if t = listens then Some (JoinHostPort (IP_String ip) (strconv_Itoa p)) else None
            | Plain _ t \<Rightarrow> if t = listens then Some plain else None))"

text \<open>A system on which no call of the test fails.\<close>

definition client_healthy :: "client_env \<Rightarrow> bool" where
  "client_healthy c \<longleftrightarrow> (\<forall>pr a. cl_Dial c pr a 0 = Inr ()) \<and> (\<forall>bs. cl_Write c bs = Inr ()) \<and> cl_CloseWrite c = Inr () \<and>
     cl_SetReadDeadline c = Inr () \<and> cl_Read c = Inr ''hello''"

definition suite_healthy :: "'e transparent_env \<Rightarrow> bool" where
  "suite_healthy env \<longleftrightarrow> tp_LookPath env ''nsenter'' = Inr () \<and> tp_Run env = Init_complete (Until_quit (Inr ())) \<and>
     (\<exists>exe. tp_Executable env = Inr exe) \<and> tp_Pipe1 env = Inr () \<and> tp_Pipe2 env = Inr () \<and>
     (\<forall>a e. tp_StartEcho env a e = Inr ()) \<and> client_healthy (tp_Client env) \<and>
     (\<forall>e\<in>set (tp_Environ env). \<not> HasPrefix e (reexecKeyEchoPort @ ''=''))"

text \<open>The address at which the echo server of a test listens, as it finds it in its environment.\<close>

definition echo_listens :: "'e transparent_env \<Rightarrow> string \<Rightarrow> int \<Rightarrow> string \<Rightarrow> string" where
  "echo_listens env proto childPID exe = ''127.0.0.1:'' @ env_value (snd (echo_command env proto childPID exe)) reexecKeyEchoPort"

lemma echo_listens_80: "suite_healthy env \<Longrightarrow> echo_listens env proto pid exe = ''127.0.0.1:80''"
proof -
  assume h: "suite_healthy env"
  then have none: "filter (\<lambda>e. HasPrefix e (reexecKeyEchoPort @ ''='')) (tp_Environ env) = []"
    by (auto simp: suite_healthy_def filter_empty_conv)
  have mode: "\<not> HasPrefix (reexecKeyMode @ ''='' @ x) (reexecKeyEchoPort @ ''='')" for x
    by (simp add: reexecKeyMode_def reexecKeyEchoPort_def)
  have it: "strconv_Itoa 80 = ''80''" by code_simp
  have port: "HasPrefix (reexecKeyEchoPort @ ''='' @ ''80'') (reexecKeyEchoPort @ ''='')"
    using HasPrefix_append [of "reexecKeyEchoPort @ ''=''" "''80''"] by simp
  have "TrimPrefix (reexecKeyEchoPort @ ''='' @ ''80'') (reexecKeyEchoPort @ ''='') = ''80''"
    using TrimPrefix_append [of "reexecKeyEchoPort @ ''=''" "''80''"] by simp
  then show ?thesis
    using none mode port by (simp add: echo_listens_def echo_command_def env_value_def it childPort80_def)
qed

lemma client_sends:
  assumes "client_healthy c"
  shows "transparentTCPDialAndSend c a = Inr (cl_Local c)" "transparentUDPDialAndSend c a = Inr (cl_Local c)"
  using assms by (simp_all add: client_healthy_def transparentTCPDialAndSend_def transparentUDPDialAndSend_def eval_nat_numeral)

lemma transparent_run:
  assumes "suite_healthy env" and "proto \<in> {''tcp'', ''udp''}" and "nonLoopbackIPv4 (tp_Interfaces env) = Inr parentIP"
    and "tp_Alloc0 env = Inr pp" and "add (tp_Add env 0) s (suite_spec proto parentIP childPort80 pp) = (Inr st, s1)"
    and "tp_FirstLine env = Some saw" and "judge_hosts proto (cl_Local (tp_Client env)) saw = Inr msgs"
    and "rem (tp_Remove env) s1 (ID st) = (Inr (), s2)"
  shows "testTransparentWithPID add rem env proto pid s = (Some (Inr msgs), s2)"
proof -
  have "transparent_expose add env proto pid parentIP s = (Inr (st, pp), s1)"
    using assms(1,4,5) by (auto simp: transparent_expose_def suite_healthy_def maxAttempts_def eval_nat_numeral)
  moreover have "transparent_finish rem env (Until_quit (Inr ())) proto parentIP pp st s1 = (Some (Inr msgs), s2)"
    using assms client_sends [of "tp_Client env"]
    by (cases "proto = ''tcp''") (simp_all add: transparent_finish_def suite_healthy_def end_driver_def Let_def)
  ultimately show ?thesis
    using assms(1-3) by (auto simp: testTransparentWithPID_def suite_healthy_def ensureDeps_def)
qed

lemma judge_split:
  assumes "plain_text h" and "plain_text h'"
  shows "judge_hosts proto (JoinHostPort h (strconv_Itoa p)) (JoinHostPort h' (strconv_Itoa q)) = Inr (source_verdict proto h h')"
  using assms plain_Itoa by (simp add: judge_hosts_def SplitHostPort_Join)

lemma IP_String_To16: "length ip = 4 \<Longrightarrow> IP_String (To16 ip) = ipv4_text ip"
  using IP_String_v4 [of "To16 ip"] by (cases ip) auto

lemma ipv4_text_loopback: "length ip = 4 \<Longrightarrow> ipv4_text ip = ''127.0.0.1'' \<Longrightarrow> IsLoopback ip"
proof -
  assume ip: "length ip = 4" "ipv4_text ip = ''127.0.0.1''"
  have "ParseIP ''127.0.0.1'' = To16 [127, 0, 0, 1]" by code_simp
  with ip ParseIP_ipv4_text [of ip] have "To16 ip = To16 [127, 0, 0, 1]" by simp
  then have "To4 (To16 ip) = To4 (To16 [127, 0, 0, 1])" by simp
  with ip(1) have "ip = [127, 0, 0, 1]" by simp
  then show ?thesis by (simp add: IsLoopback_def)
qed


lemma suite_source:
  assumes "proto \<in> {''tcp'', ''udp''}" and "length ip = 4" and "\<not> IsLoopback ip"
  shows "judge_hosts proto (JoinHostPort (IP_String ip) (strconv_Itoa p))
    (if proto = ''tcp'' then JoinHostPort (IP_String (To16 ip)) (strconv_Itoa p) else JoinHostPort ''127.0.0.1'' (strconv_Itoa q)) = Inr []"
proof -
  have str: "IP_String ip = ipv4_text ip" using assms(2) IP_String_v4 [of ip] by (cases ip) auto
  have plain: "plain_text (ipv4_text ip)" "plain_text ''127.0.0.1''" using plain_ipv4 [OF assms(2)] by (simp_all add: plain_text_def)
  have "ipv4_text ip \<noteq> ''127.0.0.1''" using ipv4_text_loopback [OF assms(2)] assms(3) by blast
  with assms(1) show ?thesis
    by (auto simp: str IP_String_To16 [OF assms(2)] judge_split plain source_verdict_def)
qed


definition ifaces0 :: "iface list" where
  "ifaces0 = [\<lparr>if_loopback = True, if_up = True, if_Addrs = Inr [IPNet [127, 0, 0, 1]]\<rparr>,
              \<lparr>if_loopback = False, if_up = True, if_Addrs = Inr [IPNet [192, 0, 2, 1]]\<rparr>]"

definition unix0 :: UnixConn where
  "unix0 = \<lparr>uc_Write = (\<lambda>bs. Inr (length bs)), uc_CloseWrite = Inr (), uc_Read = [], uc_ReadMsg = [], uc_CloseRead = Inr ()\<rparr>"

definition tdriver0 :: driver where
  "tdriver0 = driver0\<lparr>sourceIPTransparent := True\<rparr>"

definition tenv0 :: "env transparent_env" where
  "tenv0 = \<lparr>tp_LookPath = (\<lambda>_. Inr ()), tp_Interfaces = Inr ifaces0, tp_Run = Init_complete (Until_quit (Inr ())), tp_Executable = Inr ''/t'',
     tp_Pipe1 = Inr (), tp_Pipe2 = Inr (), tp_Environ = [], tp_StartEcho = (\<lambda>_ _. Inr ()), tp_Alloc0 = Inr 8080, tp_Add = (\<lambda>_. env0),
     tp_Alloc = (\<lambda>_. Inr 8081),
     tp_Client = \<lparr>cl_Dial = (\<lambda>_ _ _. Inr ()), cl_Local = JoinHostPort (IP_String [192, 0, 2, 1]) (strconv_Itoa 40000), cl_Write = (\<lambda>_. Inr ()),
       cl_CloseWrite = Inr (), cl_SetReadDeadline = Inr (), cl_Read = Inr ''hello''\<rparr>,
     tp_FirstLine = server_line (sv_dials (served_for cenv1 (NewDriver\<lparr>cd_sourceIPTransparent := True\<rparr>) (Inr (InterfaceAddrs ifaces0)) unix0
         (suite_spec ''tcp'' ''192.0.2.1'' childPort80 8080) (source_of ''tcp'' [192, 0, 2, 1] 40000))) ''127.0.0.1:80'' (JoinHostPort ''127.0.0.1'' (strconv_Itoa 5)),
     tp_Remove = env0\<rparr>"


section \<open>The routine on the builtin driver\<close>


definition renv0 :: "env routine_env" where
  "renv0 = \<lparr>ro_Start = (\<lambda>_. Inr ()), ro_Add = (\<lambda>_. env0), ro_Alloc = (\<lambda>_. Inr 8081), ro_Dial = (\<lambda>_ _ _. Inr ()), ro_Write = (\<lambda>_. Inr ()),
     ro_Close = Inr (), ro_Stdout = (\<lambda>w. Inr w), ro_Close2 = Inr (), ro_Wait = Inr (), ro_Remove = env0\<rparr>"

lemma renv0_passes:
  "testProtoRoutine Builtin_Parent.AddPort Builtin_Parent.RemovePort renv0 ''tcp'' 7 80 8080 driver0 = (Inr (), driver0\<lparr>nextID := 2\<rparr>)"
proof -
  let ?sp = "suite_spec ''tcp'' ''127.0.0.1'' 80 8080"
  have "ParseIP ''127.0.0.1'' \<noteq> []" by code_simp
  then have "Builtin_Parent.AddPort env0 driver0 ?sp = (Inr \<lparr>ID = 1, St_Spec = ?sp\<rparr>, snd (add_commit driver0 ?sp))"
    by (simp add: Builtin_Parent.AddPort_def ValidatePortSpec_def validateProto_def env0_def driver0_def suite_spec_def
        add_listen_def tcp_Run_def add_commit_def Let_def)
  moreover have "Builtin_Parent.RemovePort env0 (snd (add_commit driver0 ?sp)) 1 = (Inr (), driver0\<lparr>nextID := 2\<rparr>)"
    by (simp add: Builtin_Parent.RemovePort_def add_commit_def driver0_def env0_def routineStop_def map_del_def Let_def)
  moreover have "exchange renv0 ''tcp'' 7 80 8080 = Inr ()"
    by (simp add: exchange_def panic_on_def renv0_def fill_buffer_def Let_def eval_nat_numeral)
  ultimately show ?thesis
    by (simp add: testProtoRoutine_def renv0_def maxAttempts_def eval_nat_numeral)
qed


section \<open>The retries\<close>

lemma HasPrefix_set: "HasPrefix s t \<Longrightarrow> set t \<subseteq> set s"
  by (drule HasPrefixE) auto

lemma Contains_set: "Contains s t \<Longrightarrow> set t \<subseteq> set s"
proof (induction s)
  case (Cons a s)
  then show ?case using HasPrefix_set [of "a # s" t] by auto
qed simp

lemma conflict_not_in_use: "\<not> isAddrInUse (Errorf ''conflict with ID %d'' [strconv_Itoa i])"
proof -
  have t: "err_text (Errorf ''conflict with ID %d'' [strconv_Itoa i]) = ''conflict with ID '' @ strconv_Itoa i" by simp
  have "CHR ''a'' \<notin> set (strconv_Itoa i)" "CHR ''b'' \<notin> set (strconv_Itoa i)" by (auto simp: is_digit_def dest: Itoa_chars)
  then have "\<not> Contains (''conflict with ID '' @ strconv_Itoa i) ''address already in use''"
    "\<not> Contains (''conflict with ID '' @ strconv_Itoa i) ''port is busy''"
    by (auto dest: Contains_set)
  then show ?thesis unfolding isAddrInUse_def t by (simp add: EADDRINUSE_def)
qed

lemma find_conflict_Inl: "\<exists>p\<in>set m. conflicts (St_Spec (snd p)) spec \<Longrightarrow> \<exists>i. find_conflict spec m = Inl (Errorf ''conflict with ID %d'' [strconv_Itoa i])"
  by (induction spec m rule: find_conflict.induct) auto

text \<open>
  The suite tells a port that is taken from other errors by the text of the error. The parent port for the
  second routine may be the one of the first, since \<open>allocateAvailablePort\<close> has closed its socket
  when it returns; the driver then reports a conflict, which the suite does not count as an
  address in use, so the routine panics at the first attempt.
\<close>

theorem same_parent_port_panics:
  assumes "driver_inv d" and "proto \<in> {''tcp'', ''tcp4'', ''udp'', ''udp4''}" and "ro_Start env (nc_command proto pid 8080) = Inr ()"
    and "AddPort e d (suite_spec proto ''127.0.0.1'' 80 p) = (Inr st, d1)"
  shows "\<exists>i. testProtoRoutine AddPort RemovePort env proto pid 8080 p d1 = (Inl (Panic (''conflict with ID '' @ strconv_Itoa i)), d1)"
proof -
  let ?a = "suite_spec proto ''127.0.0.1'' 80 p" and ?b = "suite_spec proto ''127.0.0.1'' 8080 p"
  have "St_Spec st = ?a" using assms(4) by (auto simp: AddPort_def add_commit_def Let_def split: sum.splits)
  moreover have "ports d1 = ports d @ [(ID st, st)]"
    using AddPort_ok [OF assms(1,4)] by (simp add: map_put_fresh)
  ultimately have "\<exists>q\<in>set (ports d1). conflicts (St_Spec (snd q)) ?b" by (simp add: conflicts_def suite_spec_def)
  then obtain i where i: "find_conflict ?b (ports d1) = Inl (Errorf ''conflict with ID %d'' [strconv_Itoa i])"
    using find_conflict_Inl by blast
  obtain u where "ValidatePortSpec ?a (ports d) = Inr u" using assms(4) by (auto simp: AddPort_def split: sum.splits)
  then have "ValidatePortSpec ?b (ports d1) = Inl (Errorf ''conflict with ID %d'' [strconv_Itoa i])"
    using i by (auto simp: ValidatePortSpec_def suite_spec_def split: if_splits sum.splits)
  then have "AddPort (ro_Add env 0) d1 ?b = (Inl (Errorf ''conflict with ID %d'' [strconv_Itoa i]), d1)" by (simp add: AddPort_def)
  then show ?thesis
    using assms(2,3) conflict_not_in_use [of i] by (auto simp: testProtoRoutine_def maxAttempts_def eval_nat_numeral)
qed

theorem same_parent_port_panics_witness:
  "\<exists>i d1. testProtoRoutine AddPort RemovePort renv0 ''tcp'' 7 8080 8080 d1 = (Inl (Panic (''conflict with ID '' @ strconv_Itoa i)), d1)"
proof -
  let ?sp = "suite_spec ''tcp'' ''127.0.0.1'' 80 8080"
  have "ParseIP ''127.0.0.1'' \<noteq> []" by code_simp
  then have "AddPort env0 driver0 ?sp = (Inr \<lparr>ID = 1, St_Spec = ?sp\<rparr>, snd (add_commit driver0 ?sp))"
    by (simp add: AddPort_def ValidatePortSpec_def validateProto_def env0_def driver0_def suite_spec_def
        add_listen_def tcp_Run_def add_commit_def Let_def)
  from same_parent_port_panics [OF driver0_inv _ _ this, of renv0 7] show ?thesis by (auto simp: renv0_def)
qed

section \<open>The opaque map of the driver reaches the child\<close>

lemma env_value_entry:
  assumes "env = es @ (k @ ''='' @ v) # fs" and "\<forall>e\<in>set fs. \<not> HasPrefix e (k @ ''='')"
  shows "env_value env k = v"
proof -
  have "filter (\<lambda>e. HasPrefix e (k @ ''='')) fs = []" using assms(2) by (simp add: filter_empty_conv)
  moreover have "HasPrefix (k @ ''='' @ v) (k @ ''='')" using HasPrefix_append [of "k @ ''=''" v] by simp
  ultimately have "filter (\<lambda>e. HasPrefix e (k @ ''='')) env = filter (\<lambda>e. HasPrefix e (k @ ''='')) es @ [k @ ''='' @ v]"
    by (simp add: assms(1))
  moreover have "TrimPrefix (k @ ''='' @ v) (k @ ''='') = v" using TrimPrefix_append [of "k @ ''=''" v] by simp
  moreover have "(case es @ [e] of [] \<Rightarrow> [] | fs \<Rightarrow> TrimPrefix (last fs) p) = TrimPrefix e p" for es :: "string list" and e p
    by (cases es) auto
  ultimately show ?thesis by (simp only: env_value_def)
qed

lemma unmarshal_opaque_print: "wf_map m \<Longrightarrow> unmarshal_opaque (print_json (enc_map m)) = Inr (sort_key fst m)"
  using dec_map_enc [of m] json_parse_print [OF wf_enc_map, of m]
  by (cases "m = []") (simp_all only: unmarshal_opaque_def sum.case, simp_all add: enc_map_def)

definition suite_keys :: "string list" where
  "suite_keys = [reexecKeyMode, reexecKeyOpaque, reexecKeyQuitFD]"

lemma suite_keys_apart:
  "\<not> HasPrefix (reexecKeyOpaque @ ''='' @ x) (reexecKeyMode @ ''='')" "\<not> HasPrefix (reexecKeyQuitFD @ ''='' @ x) (reexecKeyMode @ ''='')"
  "\<not> HasPrefix (reexecKeyQuitFD @ ''='' @ x) (reexecKeyOpaque @ ''='')"
  by (simp_all add: reexecKeyMode_def reexecKeyOpaque_def reexecKeyQuitFD_def)

lemma suite_child_env:
  assumes "\<forall>k\<in>set suite_keys. \<forall>e\<in>set environ. \<not> HasPrefix e (k @ ''='')"
    and "env = cc_Env (child_command opaque u g environ)"
  shows "env_value env reexecKeyMode = ''child''" "env_value env reexecKeyOpaque = print_json (enc_map opaque)"
    "env_value env reexecKeyQuitFD = ''3''"
proof -
  let ?o = "reexecKeyOpaque @ ''='' @ print_json (enc_map opaque)" and ?m = "reexecKeyMode @ ''='' @ ''child''" and ?q = "reexecKeyQuitFD @ ''='' @ ''3''"
  have env: "env = ?m # ?o # ?q # environ" by (simp add: assms(2) child_command_def)
  have other: "\<forall>e\<in>set environ. \<not> HasPrefix e (k @ ''='')" if "k \<in> set suite_keys" for k using assms(1) that by blast
  show "env_value env reexecKeyMode = ''child''"
    by (rule env_value_entry [of _ "[]" _ _ "?o # ?q # environ"])
      (use other [of reexecKeyMode] suite_keys_apart env in \<open>auto simp: suite_keys_def\<close>)
  show "env_value env reexecKeyOpaque = print_json (enc_map opaque)"
    by (rule env_value_entry [of _ "[?m]" _ _ "?q # environ"])
      (use other [of reexecKeyOpaque] suite_keys_apart env in \<open>auto simp: suite_keys_def\<close>)
  show "env_value env reexecKeyQuitFD = ''3''"
    by (rule env_value_entry [of _ "[?m, ?o]" _ _ "environ"])
      (use other [of reexecKeyQuitFD] env in \<open>auto simp: suite_keys_def\<close>)
qed

text \<open>C30: the process that a test starts is the child half of the driver: started with the command of the suite in an
  environment that does not have the variables of the suite, the test binary runs the child driver with the opaque
  map of the parent driver (its entries in the order of their keys) and waits on the pipe at
  descriptor 3 before it tells the driver to quit. A driver that has returned before blocks it for ever.\<close>

theorem suite_child_runs_driver:
  assumes "\<forall>k\<in>set suite_keys. \<forall>e\<in>set environ. \<not> HasPrefix e (k @ ''='')" and "wf_map opaque"
  shows "Main (env_value (cc_Env (child_command opaque u g environ))) m_Run echo udpecho runChild read_quit =
    (case read_quit 3 of
       Inl e \<Rightarrow> Panics e
     | Inr _ \<Rightarrow> (case runChild (sort_key fst opaque) of
                  Before_quit _ \<Rightarrow> Blocks | Until_quit (Inl e) \<Rightarrow> Panics e | Until_quit (Inr _) \<Rightarrow> Returns))"
proof -
  have "strconv_Atoi ''3'' = Inr 3" by code_simp
  with suite_child_env [OF assms(1) refl, of opaque u g] unmarshal_opaque_print [OF assms(2)] show ?thesis
    by (simp add: Main_def)
qed

theorem suite_child_runs_driver_witness:
  "Main (env_value (cc_Env (child_command (OpaqueForChild tdriver0) 1000 1000 [''HOME=/'']))) 0 (Inr ()) (Inr ())
     (\<lambda>m. Until_quit (if map_of m ''builtin.source-ip-transparent'' = Some ''true'' then Inr () else Inl EPERM)) (\<lambda>_. Inr ()) = Returns"
proof -
  have keys: "\<forall>k\<in>set suite_keys. \<forall>e\<in>set [''HOME=/'']. \<not> HasPrefix e (k @ ''='')"
    by (simp add: suite_keys_def reexecKeyMode_def reexecKeyOpaque_def reexecKeyQuitFD_def)
  have wf: "wf_map (OpaqueForChild tdriver0)" by (simp add: OpaqueForChild_def tdriver0_def driver0_def wf_map_def keys_def)
  have "map_of (OpaqueForChild tdriver0) ''builtin.source-ip-transparent'' = Some ''true''"
    by (simp add: OpaqueForChild_def tdriver0_def driver0_def)
  then show ?thesis unfolding suite_child_runs_driver [OF keys wf] by (simp add: map_of_sort_key [OF wf])
qed

end
