(* ===== verification/Api_Client.thy ===== *)
theory Api_Client
  imports Rest_Api Go_Net6
begin

text \<open>
  The rest of \<^verbatim>\<open>pkg/api/client\<close>: making a client for a socket and \<^verbatim>\<open>Info\<close>, with the decoding of
  the information structures of \<^verbatim>\<open>pkg/api\<close>. What the server encodes the client decodes:
  every field arrives, and every address in its 16-byte form.
\<close>

section \<open>Decoding the information\<close>

text \<open>\<^verbatim>\<open>IP.UnmarshalText\<close>: the empty text is nil, a text that is no address an error.\<close>

definition dec_IP :: "json \<Rightarrow> IP res" where
  "dec_IP j =
     (case j of
        JNull \<Rightarrow> Inr nil_IP
      | JStr s \<Rightarrow>
          if s = [] then Inr nil_IP
          else if ParseIP s = nil_IP then Inl (Sys (''invalid IP address: '' @ s))
          else Inr (ParseIP s)
      | _ \<Rightarrow> Inl type_error)"

definition get_IP :: "string \<Rightarrow> (string \<times> json) list \<Rightarrow> IP res" where
  "get_IP f ms = (case last_member f ms of None \<Rightarrow> Inr nil_IP | Some v \<Rightarrow> dec_IP v)"

definition dec_NetworkDriverInfo :: "json \<Rightarrow> NetworkDriverInfo res" where
  "dec_NetworkDriverInfo j =
     (case j of
        JObj ms \<Rightarrow>
          (case (get_str ''driver'' ms, get_list dec_IP ''dns'' ms, get_IP ''childIP'' ms, get_bool ''dynamicChildIP'' ms) of
             (Inr d, Inr dns, Inr ip, Inr dyn) \<Rightarrow>
               Inr \<lparr>ndi_Driver = d, ndi_DNS = dns, ndi_ChildIP = ip, ndi_DynamicChildIP = dyn\<rparr>
           | _ \<Rightarrow> Inl type_error)
      | _ \<Rightarrow> Inl type_error)"

definition dec_PortDriverInfo :: "json \<Rightarrow> PortDriverInfo res" where
  "dec_PortDriverInfo j =
     (case j of
        JObj ms \<Rightarrow>
          (case (get_str ''driver'' ms, get_list dec_str ''protos'' ms, get_bool ''disallowLoopbackChildIP'' ms) of
             (Inr d, Inr ps, Inr b) \<Rightarrow> Inr \<lparr>pdi_Driver = d, pdi_Protos = ps, pdi_DisallowLoopbackChildIP = b\<rparr>
           | _ \<Rightarrow> Inl type_error)
      | _ \<Rightarrow> Inl type_error)"

definition zero_Info :: Info where
  "zero_Info = \<lparr>inf_APIVersion = [], inf_Version = [], inf_StateDir = [], inf_ChildPID = 0,
     inf_NetworkDriver = None, inf_PortDriver = None\<rparr>"

definition dec_Info :: "json \<Rightarrow> Info res" where
  "dec_Info j =
     (case j of
        JNull \<Rightarrow> Inr zero_Info
      | JObj ms \<Rightarrow>
          (case (get_str ''apiVersion'' ms, get_str ''version'' ms, get_str ''stateDir'' ms, get_int ''childPID'' ms,
                 get_ptr dec_NetworkDriverInfo ''networkDriver'' ms, get_ptr dec_PortDriverInfo ''portDriver'' ms) of
             (Inr a, Inr v, Inr sd, Inr p, Inr nd, Inr pd) \<Rightarrow>
               Inr \<lparr>inf_APIVersion = a, inf_Version = v, inf_StateDir = sd, inf_ChildPID = p,
                    inf_NetworkDriver = nd, inf_PortDriver = pd\<rparr>
           | _ \<Rightarrow> Inl type_error)
      | _ \<Rightarrow> Inl type_error)"

section \<open>The client\<close>

text \<open>
  \<open>stat\<close> is the outcome of \<^verbatim>\<open>os.Stat\<close> on the socket path, \<open>dial\<close> the transport through the socket.
\<close>

definition NewHTTPClient :: "(string \<Rightarrow> unit res) \<Rightarrow> (string \<Rightarrow> 's http_do) \<Rightarrow> string \<Rightarrow> 's http_do res" where
  "NewHTTPClient stat dial socket =
     (case stat socket of Inl e \<Rightarrow> Inl e | Inr _ \<Rightarrow> Inr (dial socket))"

definition client_New :: "(string \<Rightarrow> unit res) \<Rightarrow> (string \<Rightarrow> 's http_do) \<Rightarrow> string \<Rightarrow> 's http_do res" where
  "client_New stat dial socket =
     (case NewHTTPClient stat dial socket of Inl e \<Rightarrow> Inl e | Inr hc \<Rightarrow> Inr hc)"

definition client_Info :: "'s http_do \<Rightarrow> 's \<Rightarrow> Info res \<times> 's" where
  "client_Info do s =
     (case do \<lparr>hr_Method = ''GET'', hr_Path = ''/v1/info'', hr_Body = []\<rparr> s of
        (Inl e, s') \<Rightarrow> (Inl e, s')
      | (Inr resp, s') \<Rightarrow>
          (case Successful resp of
             Inl e \<Rightarrow> (Inl e, s')
           | Inr _ \<Rightarrow>
               (case json_decode (hp_Body resp) of
                  Inl e \<Rightarrow> (Inl e, s')
                | Inr j \<Rightarrow> (dec_Info j, s'))))"

section \<open>What the server encodes, the client decodes\<close>

definition net16 :: "NetworkDriverInfo \<Rightarrow> NetworkDriverInfo" where
  "net16 n = n\<lparr>ndi_DNS := map To16 (ndi_DNS n), ndi_ChildIP := To16 (ndi_ChildIP n)\<rparr>"

definition info16 :: "Info \<Rightarrow> Info" where
  "info16 i = i\<lparr>inf_NetworkDriver := map_option net16 (inf_NetworkDriver i)\<rparr>"

definition net_marshals :: "NetworkDriverInfo \<Rightarrow> bool" where
  "net_marshals n \<longleftrightarrow> list_all IP_marshals (ndi_DNS n) \<and> IP_marshals (ndi_ChildIP n)"

lemma lower_info_names:
  "map ToLower [''driver'', ''dns'', ''childIP'', ''dynamicChildIP'', ''protos'', ''disallowLoopbackChildIP'',
      ''apiVersion'', ''version'', ''stateDir'', ''childPID'', ''networkDriver'', ''portDriver'']
     = [''driver'', ''dns'', ''childip'', ''dynamicchildip'', ''protos'', ''disallowloopbackchildip'',
      ''apiversion'', ''version'', ''statedir'', ''childpid'', ''networkdriver'', ''portdriver'']"
  by code_simp

lemmas lower_info_name = lower_info_names [simplified list.map list.inject]

lemma To16_nonempty: "length ip = 4 \<or> length ip = 16 \<Longrightarrow> To16 ip \<noteq> []"
  by (auto simp: To16_def v4InV6Prefix_def)

lemma dec_enc_IP: "IP_marshals ip \<Longrightarrow> dec_IP (enc_IP ip) = Inr (To16 ip)"
proof (cases "ip = []")
  case True
  then show ?thesis by (simp add: dec_IP_def enc_IP_def To16_def)
next
  case False
  assume "IP_marshals ip"
  with False have l: "length ip = 4 \<or> length ip = 16" by (auto simp: IP_marshals_def)
  have "IP_String ip \<noteq> []" using ParseIP_String [OF l] To16_nonempty [OF l] by auto
  with False ParseIP_String [OF l] To16_nonempty [OF l] show ?thesis by (simp add: dec_IP_def enc_IP_def)
qed

lemma map_res_IPs: "list_all IP_marshals ips \<Longrightarrow> map_res dec_IP (map enc_IP ips) = Inr (map To16 ips)"
  by (induction ips) (auto simp: dec_enc_IP)

lemma dec_enc_NetworkDriverInfo:
  assumes "net_marshals n"
  shows "dec_NetworkDriverInfo (enc_NetworkDriverInfo n) = Inr (net16 n)"
proof -
  obtain ms where ms: "enc_NetworkDriverInfo n = JObj ms" by (simp add: enc_NetworkDriverInfo_def)
  note d = enc_NetworkDriverInfo_def lower_info_name last_member_append
  have "get_str ''driver'' ms = Inr (ndi_Driver n)" "get_bool ''dynamicChildIP'' ms = Inr (ndi_DynamicChildIP n)"
    using ms by (auto simp: d get_str_def get_bool_def)
  moreover have "get_list dec_IP ''dns'' ms = Inr (map To16 (ndi_DNS n))"
    using ms assms map_res_IPs [of "ndi_DNS n"] by (auto simp: d get_list_def net_marshals_def)
  moreover have "get_IP ''childIP'' ms = Inr (To16 (ndi_ChildIP n))"
    using ms assms dec_enc_IP [of "ndi_ChildIP n"] by (auto simp: d get_IP_def net_marshals_def To16_def)
  ultimately show ?thesis unfolding ms dec_NetworkDriverInfo_def net16_def by simp
qed

lemma dec_enc_PortDriverInfo: "dec_PortDriverInfo (enc_PortDriverInfo p) = Inr p"
proof -
  obtain ms where ms: "enc_PortDriverInfo p = JObj ms" by (simp add: enc_PortDriverInfo_def)
  note d = enc_PortDriverInfo_def lower_info_name last_member_append
  have "get_str ''driver'' ms = Inr (pdi_Driver p)"
    "get_bool ''disallowLoopbackChildIP'' ms = Inr (pdi_DisallowLoopbackChildIP p)"
    using ms by (auto simp: d get_str_def get_bool_def)
  moreover have "get_list dec_str ''protos'' ms = Inr (pdi_Protos p)"
    by (rule get_list_enc) (use ms in \<open>auto simp: d\<close>)
  ultimately show ?thesis unfolding ms dec_PortDriverInfo_def by simp
qed

lemma get_ptr_enc: "last_member f ms = map_option enc x \<Longrightarrow> (\<And>y. enc y \<noteq> JNull) \<Longrightarrow>
  (\<And>y. x = Some y \<Longrightarrow> dec (enc y) = Inr (norm y)) \<Longrightarrow> get_ptr dec f ms = Inr (map_option norm x)"
  by (cases x) (auto simp: get_ptr_def split: json.splits)

lemma dec_enc_Info:
  assumes "int64_ok (inf_ChildPID i)" and "\<And>n. inf_NetworkDriver i = Some n \<Longrightarrow> net_marshals n"
  shows "dec_Info (enc_Info i) = Inr (info16 i)"
proof -
  obtain ms where ms: "enc_Info i = JObj ms" by (simp add: enc_Info_def)
  note d = enc_Info_def lower_info_name last_member_append
  have strs: "get_str ''apiVersion'' ms = Inr (inf_APIVersion i)" "get_str ''version'' ms = Inr (inf_Version i)"
    "get_str ''stateDir'' ms = Inr (inf_StateDir i)"
    using ms by (auto simp: d get_str_def split: option.splits)
  have "last_member ''childPID'' ms = Some (enc_int (inf_ChildPID i))" using ms by (auto simp: d split: option.splits)
  then have pid: "get_int ''childPID'' ms = Inr (inf_ChildPID i)" using assms(1) by (rule get_int_enc)
  have "last_member ''networkDriver'' ms = map_option enc_NetworkDriverInfo (inf_NetworkDriver i)"
    using ms by (auto simp: d split: option.splits)
  then have nd: "get_ptr dec_NetworkDriverInfo ''networkDriver'' ms = Inr (map_option net16 (inf_NetworkDriver i))"
    by (rule get_ptr_enc) (simp add: enc_NetworkDriverInfo_def, simp add: assms(2) dec_enc_NetworkDriverInfo)
  have "last_member ''portDriver'' ms = map_option enc_PortDriverInfo (inf_PortDriver i)"
    using ms by (auto simp: d split: option.splits)
  then have "get_ptr dec_PortDriverInfo ''portDriver'' ms = Inr (map_option id (inf_PortDriver i))"
    by (rule get_ptr_enc) (simp add: enc_PortDriverInfo_def, simp add: dec_enc_PortDriverInfo)
  with strs pid nd show ?thesis unfolding ms dec_Info_def info16_def by (simp add: option.map_id)
qed

lemma wf_enc_Info [simp]: "wf_json (enc_Info i)"
  by (auto simp: enc_Info_def enc_NetworkDriverInfo_def enc_PortDriverInfo_def enc_IP_def split: option.splits)

lemma marshal_Info_ok:
  "(\<And>n. inf_NetworkDriver i = Some n \<Longrightarrow> net_marshals n) \<Longrightarrow> marshal_Info i = Inr (print_json (enc_Info i))"
  by (auto simp: marshal_Info_def net_marshals_def list_all_iff find_Some_iff nth_append split: option.splits)

definition server_Info :: "'s Backend \<Rightarrow> NetworkDriverInfo option \<Rightarrow> PortDriverInfo option \<Rightarrow> Info" where
  "server_Info b nd pd = \<lparr>inf_APIVersion = ''1.1.1'', inf_Version = ''3.0.1+dev'', inf_StateDir = be_StateDir b,
     inf_ChildPID = be_ChildPID b, inf_NetworkDriver = nd, inf_PortDriver = pd\<rparr>"

lemma serve_info:
  assumes "mux_documented match" and "be_NetworkDriver b = map_option Inr nd"
    and "\<And>n. nd = Some n \<Longrightarrow> net_marshals n"
    and "(case be_PortDriver b of None \<Rightarrow> pd = None | Some d \<Rightarrow> \<exists>p. pd = Some p \<and> pd_Info d s = Inr p)"
  shows "serve match b \<lparr>hr_Method = ''GET'', hr_Path = ''/v1/info'', hr_Body = []\<rparr> s =
    (Inr \<lparr>hp_Code = 200, hp_Body = print_json (enc_Info (server_Info b nd pd))\<rparr>, s)"
proof -
  have m: "match ''/v1/ports'' ''/v1/info'' = None" "match ''/v1/info'' ''/v1/info'' = Some []"
    using assms(1) unfolding mux_documented_def by simp_all
  have "marshal_Info (server_Info b nd pd) = Inr (print_json (enc_Info (server_Info b nd pd)))"
    by (rule marshal_Info_ok) (simp add: server_Info_def assms(3))
  moreover have "GetInfo b r s =
    (case marshal_Info (server_Info b nd pd) of Inl e \<Rightarrow> WriteError e 500 | Inr m \<Rightarrow> \<lparr>hp_Code = 200, hp_Body = m\<rparr>, s)" for r
    using assms(2,4) by (cases nd; cases "be_PortDriver b"; cases pd) (auto simp: GetInfo_def server_Info_def)
  ultimately show ?thesis by (simp add: serve_def AddRoutes_def m)
qed

lemma client_Info_eq:
  assumes "mux_documented match" and "be_NetworkDriver b = map_option Inr nd"
    and "\<And>n. nd = Some n \<Longrightarrow> net_marshals n"
    and "(case be_PortDriver b of None \<Rightarrow> pd = None | Some d \<Rightarrow> \<exists>p. pd = Some p \<and> pd_Info d s = Inr p)"
    and "int64_ok (be_ChildPID b)"
  shows "client_Info (serve match b) s = (Inr (info16 (server_Info b nd pd)), s)"
proof -
  have "dec_Info (enc_Info (server_Info b nd pd)) = Inr (info16 (server_Info b nd pd))"
    using assms(3,5) by (intro dec_enc_Info) (auto simp: server_Info_def)
  then show ?thesis using serve_info [OF assms(1-4)] by (simp add: client_Info_def json_decode_print)
qed

text \<open>C16: the REST API is transparent for \<open>Info\<close>. A client learns the state directory, the pid of
  the child, and what the network driver and the port driver report, each nil exactly when
  the server has none; every address arrives in its 16-byte form, IPv6 addresses too, and
  nothing changes on the server.\<close>

theorem rest_Info:
  assumes "mux_documented match" and "be_NetworkDriver b = map_option Inr nd"
    and "\<And>n. nd = Some n \<Longrightarrow> net_marshals n"
    and "(case be_PortDriver b of None \<Rightarrow> pd = None | Some d \<Rightarrow> \<exists>p. pd = Some p \<and> pd_Info d s = Inr p)"
    and "int64_ok (be_ChildPID b)"
  shows "client_Info (serve match b) s =
    (Inr \<lparr>inf_APIVersion = ''1.1.1'', inf_Version = ''3.0.1+dev'', inf_StateDir = be_StateDir b,
          inf_ChildPID = be_ChildPID b, inf_NetworkDriver = map_option net16 nd, inf_PortDriver = pd\<rparr>, s)"
  using client_Info_eq [OF assms] by (simp add: info16_def server_Info_def)

definition net0 :: NetworkDriverInfo where
  "net0 = \<lparr>ndi_Driver = ''slirp4netns'', ndi_DNS = [[10, 0, 2, 3]], ndi_ChildIP = [10, 0, 2, 100], ndi_DynamicChildIP = False\<rparr>"

theorem rest_Info_witness:
  "fst (client_Info (serve path_match (backend0\<lparr>be_NetworkDriver := Some (Inr net0)\<rparr>)) driver0) =
     Inr \<lparr>inf_APIVersion = ''1.1.1'', inf_Version = ''3.0.1+dev'', inf_StateDir = ''/s'', inf_ChildPID = 42,
          inf_NetworkDriver = Some \<lparr>ndi_Driver = ''slirp4netns'', ndi_DNS = [To16 [10, 0, 2, 3]],
            ndi_ChildIP = To16 [10, 0, 2, 100], ndi_DynamicChildIP = False\<rparr>,
          inf_PortDriver = Some (Builtin_Parent.Info driver0)\<rparr>"
proof -
  have "client_Info (serve path_match (backend0\<lparr>be_NetworkDriver := Some (Inr net0)\<rparr>)) driver0 =
    (Inr \<lparr>inf_APIVersion = ''1.1.1'', inf_Version = ''3.0.1+dev'',
       inf_StateDir = be_StateDir (backend0\<lparr>be_NetworkDriver := Some (Inr net0)\<rparr>),
       inf_ChildPID = be_ChildPID (backend0\<lparr>be_NetworkDriver := Some (Inr net0)\<rparr>),
       inf_NetworkDriver = map_option net16 (Some net0), inf_PortDriver = Some (Builtin_Parent.Info driver0)\<rparr>, driver0)"
    by (rule rest_Info [OF path_match_documented])
      (auto simp: backend0_def builtin_driver_def net0_def net_marshals_def IP_marshals_def int64_ok_def)
  then show ?thesis by (simp add: backend0_def net16_def net0_def)
qed

section \<open>A port manager behind the API\<close>

text \<open>
  What a client of the API relies on, beyond the contract of a port manager: \<open>room e n s\<close> says that
  \<open>n\<close> more ports can be added with ids that fit into a machine integer.
\<close>

locale api_manager = port_manager add_port remove_port list_ports table invar env_ok
  for add_port :: "'e \<Rightarrow> 's \<Rightarrow> Spec \<Rightarrow> Status res \<times> 's"
    and remove_port :: "'e \<Rightarrow> 's \<Rightarrow> int \<Rightarrow> unit res \<times> 's"
    and list_ports :: "'s \<Rightarrow> Status list"
    and table :: "'s \<Rightarrow> port_table"
    and invar :: "'s \<Rightarrow> bool"
    and env_ok :: "'e \<Rightarrow> 's \<Rightarrow> bool" +
  fixes room :: "'e \<Rightarrow> nat \<Rightarrow> 's \<Rightarrow> bool"
  assumes room_env: "room e (Suc n) s \<Longrightarrow> env_ok e s"
    and room_add: "invar s \<Longrightarrow> room e (Suc n) s \<Longrightarrow> wf_Spec sp \<Longrightarrow> add_port e s sp = (Inr st, s') \<Longrightarrow>
      wf_Status st \<and> St_Spec st = sp \<and> room e n s'"
begin

lemma api_add_ok:
  assumes "mux_documented match" and "drives e b" and "invar s" and "room e (Suc n) s" and "wf_Spec sp"
    and "client_AddPort (serve match b) s sp = (Inr st, s')"
  shows "add_port e s sp = (Inr st, s') \<and> list_ports s' = list_ports s @ [st] \<and> St_Spec st = sp \<and> wf_Status st \<and>
    invar s' \<and> room e n s' \<and> ID st \<notin> ID ` set (list_ports s)"
proof -
  have a: "add_port e s sp = (Inr st, s')"
    by (rule rest_client_add [OF assms(1,2,5) _ assms(6)]) (use room_add [OF assms(3-5)] in blast)
  have "ID ` set (list_ports s) = set (keys (table s))"
    using wf_table_ids [OF invar_wf [OF assms(3)]] list_table [OF assms(3)]
    by (metis image_comp list.set_map map_map)
  with add_ok [OF assms(3) room_env [OF assms(4)] a] show ?thesis
    using a list_after_add [OF assms(3) room_env [OF assms(4)] a] room_add [OF assms(3-5) a] by simp
qed

lemma api_add_err:
  assumes "mux_documented match" and "drives e b" and "invar s" and "room e (Suc n) s" and "wf_Spec sp"
    and "client_AddPort (serve match b) s sp = (Inl er, s')"
  shows "list_ports s' = list_ports s \<and> invar s'"
proof -
  obtain d where d: "be_PortDriver b = Some d" "pd_AddPort d = add_port e" using assms(2) by (auto simp: drives_def)
  obtain r t where p: "add_port e s sp = (r, t)" by fastforce
  show ?thesis
  proof (cases r)
    case (Inl er')
    obtain e' where "Successful (WriteError er' 400) = Inl e'" using WriteError_fails by fastforce
    with assms(6) have "t = s'" by (auto simp: client_AddPort_def serve_post [OF assms(1) d(1) assms(5)] d(2) p Inl)
    with p Inl add_err [OF assms(3) room_env [OF assms(4)]] show ?thesis
      using list_after_failed_add [OF assms(3) room_env [OF assms(4)]] by blast
  next
    case (Inr st)
    then have "wf_Status st" using room_add [OF assms(3-5)] p by blast
    with assms(6) show ?thesis
      by (simp add: client_AddPort_def serve_post [OF assms(1) d(1) assms(5)] d(2) p Inr json_decode_print dec_enc_Status)
  qed
qed

lemma api_remove:
  assumes "mux_documented match" and "drives e b" and "int64_ok i"
    and "client_RemovePort (serve match b) s i = (r, s')"
  shows "\<exists>r'. remove_port e s i = (r', s') \<and> (r = Inr () \<longleftrightarrow> r' = Inr ())"
proof -
  obtain d where d: "be_PortDriver b = Some d" "pd_RemovePort d = remove_port e" using assms(2) by (auto simp: drives_def)
  obtain r' t where p: "remove_port e s i = (r', t)" by fastforce
  note c = assms(4) [unfolded client_RemovePort_def serve_delete [OF assms(1) d(1) assms(3)] d(2) p]
  show ?thesis
  proof (cases r')
    case (Inl er)
    obtain e' where "Successful (WriteError er 400) = Inl e'" using WriteError_fails by fastforce
    with c p Inl show ?thesis by auto
  next
    case (Inr u)
    with c p show ?thesis by auto
  qed
qed

end

definition id_room :: "env \<Rightarrow> nat \<Rightarrow> driver \<Rightarrow> bool" where
  "id_room env n d \<longleftrightarrow> 0 \<le> nextID d \<and> nextID d + int n < 2 ^ 63"

interpretation builtin_api: api_manager Builtin_Parent.AddPort Builtin_Parent.RemovePort Builtin_Parent.ListPorts ports
  driver_inv "\<lambda>_ _. True" id_room
proof
  fix env d n sp st d'
  assume "driver_inv d" and r: "id_room env (Suc n) d" and w: "wf_Spec sp" and a: "Builtin_Parent.AddPort env d sp = (Inr st, d')"
  have "ID st = nextID d" "St_Spec st = sp" "nextID d' = nextID d + 1"
    using a by (auto simp: Builtin_Parent.AddPort_def add_commit_def Let_def split: sum.splits)
  with r w show "wf_Status st \<and> St_Spec st = sp \<and> id_room env n d'"
    by (auto simp: id_room_def wf_Status_def int64_ok_def)
qed simp

end
