(* ===== verification/Rootlessctl.thy ===== *)
theory Rootlessctl
  imports Api_Client
begin

text \<open>
  \<^verbatim>\<open>cmd/rootlessctl\<close>: the commands of the API client, each a function from the state behind the
  API to what it prints on standard output, its error and the new state. The command line is
  parsed by urfave/cli: a command is given with its flags and arguments. The world is what
  \<^verbatim>\<open>os.Getenv\<close> and \<^verbatim>\<open>os.Stat\<close> answer and the transport of each socket.
\<close>

record 's ctl_world =
  cw_Getenv :: "string \<Rightarrow> string"
  cw_Stat :: "string \<Rightarrow> unit res"
  cw_Dial :: "string \<Rightarrow> 's http_do"

type_synonym 's ctl_result = "string \<times> unit res \<times> 's"

definition newline :: string where
  "newline = [CHR 0x0A]"

definition newClient :: "'s ctl_world \<Rightarrow> string \<Rightarrow> 's http_do res" where
  "newClient w socket =
     (if socket = [] then
        (let stateDir = cw_Getenv w ''ROOTLESSKIT_STATE_DIR'' in
         if stateDir = [] then Inl (New ''please specify --socket or set $ROOTLESSKIT_STATE_DIR'')
         else client_New (cw_Stat w) (cw_Dial w) (filepath_Join [stateDir, ''api.sock'']))
      else client_New (cw_Stat w) (cw_Dial w) socket)"

section \<open>Printing\<close>

text \<open>
  \<^verbatim>\<open>text/tabwriter\<close> with minimal width 4, padding 4 and blanks, on lines whose cells all end in a
  tab and hold neither tabs nor line ends: a column is as wide as its widest cell and the
  padding. The width of a cell is its number of runes.
\<close>

definition rune_count :: "string \<Rightarrow> nat" where
  "rune_count s = length (filter (\<lambda>c. \<not> (128 \<le> (of_char c :: int) \<and> (of_char c :: int) < 192)) s)"

definition col_width :: "string list list \<Rightarrow> nat \<Rightarrow> nat" where
  "col_width rows j = foldr (\<lambda>r. max (rune_count (r ! j) + 4)) rows 4"

definition pad_cell :: "nat \<Rightarrow> string \<Rightarrow> string" where
  "pad_cell wd s = s @ replicate (wd - rune_count s) CHR '' ''"

definition tabwriter :: "string list list \<Rightarrow> string" where
  "tabwriter rows =
     concat (map (\<lambda>r. concat (map (\<lambda>j. pad_cell (col_width rows j) (r ! j)) [0 ..< length r]) @ newline) rows)"

definition ports_header :: "string list" where
  "ports_header = [''ID'', ''PROTO'', ''PARENTIP'', ''PARENTPORT'', ''CHILDIP'', ''CHILDPORT'']"

definition port_row :: "Status \<Rightarrow> string list" where
  "port_row p = [strconv_Itoa (ID p), Proto (St_Spec p), ParentIP (St_Spec p), strconv_Itoa (ParentPort (St_Spec p)),
     ChildIP (St_Spec p), strconv_Itoa (ChildPort (St_Spec p))]"

text \<open>\<^verbatim>\<open>json.Indent\<close> with the indentation of four blanks, on a value.\<close>

definition indent_nl :: "nat \<Rightarrow> string" where
  "indent_nl d = newline @ replicate (4 * d) CHR '' ''"

fun print_indent :: "nat \<Rightarrow> json \<Rightarrow> string" where
  "print_indent d (JArr []) = ''[]''"
| "print_indent d (JArr (x # xs)) =
     ''['' @ indent_nl (Suc d) @ Join (map (print_indent (Suc d)) (x # xs)) ('','' @ indent_nl (Suc d)) @ indent_nl d @ '']''"
| "print_indent d (JObj []) = ''{}''"
| "print_indent d (JObj (m # ms)) =
     ''{'' @ indent_nl (Suc d) @
     Join (map (\<lambda>(k, v). print_str k @ '': '' @ print_indent (Suc d) v) (m # ms)) ('','' @ indent_nl (Suc d)) @
     indent_nl d @ ''}''"
| "print_indent d v = print_json v"

text \<open>A slice under \<^verbatim>\<open>%v\<close>.\<close>

definition show_slice :: "string list \<Rightarrow> string" where
  "show_slice xs = ''['' @ Join xs '' '' @ '']''"

section \<open>Commands\<close>

text \<open>The subcommands as they are declared.\<close>

record ctl_decl =
  cd_Name :: string
  cd_Usage :: string
  cd_ArgsUsage :: string
  cd_Description :: string
  cd_Flags :: "(string \<times> string) list"

definition listPortsCommand :: ctl_decl where
  "listPortsCommand = \<lparr>cd_Name = ''list-ports'', cd_Usage = ''List ports'', cd_ArgsUsage = ''[flags]'', cd_Description = [],
     cd_Flags = [(''json'', ''Prints as JSON'')]\<rparr>"

definition addPortsCommand :: ctl_decl where
  "addPortsCommand = \<lparr>cd_Name = ''add-ports'', cd_Usage = ''Add ports'',
     cd_ArgsUsage = ''[flags] PARENTIP:PARENTPORT:CHILDPORT/PROTO [PARENTIP:PARENTPORT:CHILDPORT/PROTO...]'',
     cd_Description = ''Add exposed ports. The port spec is similar to `docker run -p`. e.g. '' @ quote ''127.0.0.1:8080:80/tcp'' @ ''.'',
     cd_Flags = [(''json'', ''Prints as JSON'')]\<rparr>"

definition removePortsCommand :: ctl_decl where
  "removePortsCommand = \<lparr>cd_Name = ''remove-ports'', cd_Usage = ''Remove ports'', cd_ArgsUsage = ''[flags] ID [ID...]'',
     cd_Description = [], cd_Flags = []\<rparr>"

definition infoCommand :: ctl_decl where
  "infoCommand = \<lparr>cd_Name = ''info'', cd_Usage = ''Show info'', cd_ArgsUsage = ''[flags]'', cd_Description = [],
     cd_Flags = [(''json'', ''Prints as JSON'')]\<rparr>"

definition listPortsAction :: "'s ctl_world \<Rightarrow> string \<Rightarrow> bool \<Rightarrow> 's \<Rightarrow> 's ctl_result" where
  "listPortsAction w socket js s =
     (case newClient w socket of
        Inl e \<Rightarrow> ([], Inl e, s)
      | Inr c \<Rightarrow>
          (case client_ListPorts c s of
             (Inl e, s') \<Rightarrow> ([], Inl e, s')
           | (Inr portStatuses, s') \<Rightarrow>
               (if js then (concat (map (\<lambda>p. print_json (enc_Status p) @ newline) portStatuses), Inr (), s')
                else (tabwriter (ports_header # map port_row portStatuses), Inr (), s'))))"

definition status_line :: "bool \<Rightarrow> Status \<Rightarrow> string" where
  "status_line js st = (if js then print_json (enc_Status st) else strconv_Itoa (ID st)) @ newline"

fun add_ports :: "bool \<Rightarrow> 's http_do \<Rightarrow> Spec list \<Rightarrow> 's \<Rightarrow> 's ctl_result" where
  "add_ports js c [] s = ([], Inr (), s)"
| "add_ports js c (sp # sps) s =
     (case client_AddPort c s sp of
        (Inl e, s') \<Rightarrow> ([], Inl e, s')
      | (Inr st, s') \<Rightarrow> (case add_ports js c sps s' of (out, r) \<Rightarrow> (status_line js st @ out, r)))"

definition addPortsAction :: "'s ctl_world \<Rightarrow> string \<Rightarrow> bool \<Rightarrow> string list \<Rightarrow> 's \<Rightarrow> 's ctl_result" where
  "addPortsAction w socket js args s =
     (if length args < 1 then ([], Inl (New ''no port specified''), s)
      else (case map_res ParsePortSpec args of
              Inl e \<Rightarrow> ([], Inl e, s)
            | Inr portSpecs \<Rightarrow>
                (case newClient w socket of
                   Inl e \<Rightarrow> ([], Inl e, s)
                 | Inr c \<Rightarrow> add_ports js c portSpecs s)))"

fun remove_ports :: "'s http_do \<Rightarrow> int list \<Rightarrow> 's \<Rightarrow> 's ctl_result" where
  "remove_ports c [] s = ([], Inr (), s)"
| "remove_ports c (i # ids) s =
     (case client_RemovePort c s i of
        (Inl e, s') \<Rightarrow> ([], Inl e, s')
      | (Inr _, s') \<Rightarrow> (case remove_ports c ids s' of (out, r) \<Rightarrow> (strconv_Itoa i @ newline @ out, r)))"

definition removePortsAction :: "'s ctl_world \<Rightarrow> string \<Rightarrow> string list \<Rightarrow> 's \<Rightarrow> 's ctl_result" where
  "removePortsAction w socket args s =
     (if length args < 1 then ([], Inl (New ''no ID specified''), s)
      else (case map_res strconv_Atoi args of
              Inl e \<Rightarrow> ([], Inl e, s)
            | Inr ids \<Rightarrow>
                (case newClient w socket of
                   Inl e \<Rightarrow> ([], Inl e, s)
                 | Inr c \<Rightarrow> remove_ports c ids s)))"

definition infoAction :: "'s ctl_world \<Rightarrow> string \<Rightarrow> bool \<Rightarrow> 's \<Rightarrow> 's ctl_result" where
  "infoAction w socket js s =
     (case newClient w socket of
        Inl e \<Rightarrow> ([], Inl e, s)
      | Inr c \<Rightarrow>
          (case client_Info c s of
             (Inl e, s') \<Rightarrow> ([], Inl e, s')
           | (Inr info, s') \<Rightarrow>
               (if js then
                  (case marshal_Info info of
                     Inl e \<Rightarrow> ([], Inl e, s')
                   | Inr _ \<Rightarrow> (print_indent 0 (enc_Info info) @ newline, Inr (), s'))
                else
                  (''- REST API version: '' @ inf_APIVersion info @ newline @
                   ''- Implementation version: '' @ inf_Version info @ newline @
                   ''- State Directory: '' @ inf_StateDir info @ newline @
                   ''- Child PID: '' @ strconv_Itoa (inf_ChildPID info) @ newline @
                   (case inf_NetworkDriver info of
                      None \<Rightarrow> []
                    | Some n \<Rightarrow>
                        ''- Network Driver: '' @ ndi_Driver n @ newline @
                        ''  - DNS: '' @ show_slice (map IP_String (ndi_DNS n)) @ newline @
                        (if ndi_ChildIP n = nil_IP then [] else ''  - IP: '' @ IP_String (ndi_ChildIP n) @ newline)) @
                   (case inf_PortDriver info of
                      None \<Rightarrow> []
                    | Some p \<Rightarrow>
                        ''- Port Driver: '' @ pdi_Driver p @ newline @
                        ''  - Supported protocols: '' @ show_slice (pdi_Protos p) @ newline),
                   Inr (), s'))))"

text \<open>The command line as urfave/cli parses it by the declarations above.\<close>

datatype ctl_command =
    List_ports bool
  | Add_ports bool "string list"
  | Remove_ports "string list"
  | Show_info bool

definition ctl_action :: "'s ctl_world \<Rightarrow> string \<Rightarrow> ctl_command \<Rightarrow> 's \<Rightarrow> 's ctl_result" where
  "ctl_action w socket cmd s =
     (case cmd of
        List_ports js \<Rightarrow> listPortsAction w socket js s
      | Add_ports js args \<Rightarrow> addPortsAction w socket js args s
      | Remove_ports args \<Rightarrow> removePortsAction w socket args s
      | Show_info js \<Rightarrow> infoAction w socket js s)"

text \<open>\<^verbatim>\<open>main\<close>: standard output, standard error, the exit status and the state.\<close>

definition ctl_main :: "'s ctl_world \<Rightarrow> string \<Rightarrow> ctl_command \<Rightarrow> 's \<Rightarrow> string \<times> string \<times> int \<times> 's" where
  "ctl_main w socket cmd s =
     (case ctl_action w socket cmd s of
        (out, Inl e, s') \<Rightarrow> (out, ''error: '' @ err_text e @ newline, 1, s')
      | (out, Inr _, s') \<Rightarrow> (out, [], 0, s'))"

section \<open>Adding and removing ports from the command line\<close>

context api_manager
begin

lemma add_ports_run:
  assumes "mux_documented match" and "drives e b"
  shows "invar s \<Longrightarrow> room e (length sps) s \<Longrightarrow> list_all wf_Spec sps \<Longrightarrow> add_ports js (serve match b) sps s = (out, r, s') \<Longrightarrow>
    \<exists>sts. list_ports s' = list_ports s @ sts \<and> out = concat (map (status_line js) sts) \<and>
      map St_Spec sts = take (length sts) sps \<and> (r = Inr () \<longleftrightarrow> length sts = length sps) \<and> invar s' \<and> list_all wf_Status sts"
proof (induction sps arbitrary: s out r s')
  case Nil
  then show ?case by auto
next
  case (Cons sp sps)
  obtain r1 s1 where a: "client_AddPort (serve match b) s sp = (r1, s1)" by fastforce
  show ?case
  proof (cases r1)
    case (Inl er)
    with a api_add_err [OF assms Cons.prems(1), of "length sps" sp er s1] Cons.prems have "list_ports s' = list_ports s \<and> invar s'"
      by simp
    with Cons.prems(4) a Inl show ?thesis by (intro exI [of _ "[]"]) auto
  next
    case (Inr st)
    obtain out' where l: "add_ports js (serve match b) sps s1 = (out', r, s')" and o: "out = status_line js st @ out'"
      using Cons.prems(4) a Inr by (auto split: prod.splits)
    have ok: "list_ports s1 = list_ports s @ [st]" "St_Spec st = sp" "wf_Status st" "invar s1" "room e (length sps) s1"
      using api_add_ok [OF assms Cons.prems(1), of "length sps" sp st s1] Cons.prems a Inr by auto
    obtain sts where "list_ports s' = list_ports s1 @ sts" "out' = concat (map (status_line js) sts)"
      "map St_Spec sts = take (length sts) sps" "r = Inr () \<longleftrightarrow> length sts = length sps" "invar s'" "list_all wf_Status sts"
      using Cons.IH [OF ok(4,5) _ l] Cons.prems(3) by auto
    with ok o show ?thesis by (intro exI [of _ "st # sts"]) auto
  qed
qed

lemma remove_ports_run:
  assumes "mux_documented match" and "drives e b"
  shows "invar s \<Longrightarrow> list_all int64_ok ids \<Longrightarrow> remove_ports (serve match b) ids s = (out, Inr (), s') \<Longrightarrow>
    list_ports s' = filter (\<lambda>st. ID st \<notin> set ids) (list_ports s) \<and> out = concat (map (\<lambda>i. strconv_Itoa i @ newline) ids) \<and> invar s'"
proof (induction ids arbitrary: s out)
  case (Cons i ids)
  obtain r1 s1 where a: "client_RemovePort (serve match b) s i = (r1, s1)" by fastforce
  then obtain u where r: "r1 = Inr u" using Cons.prems(3) by (cases r1) auto
  then obtain out' where l: "remove_ports (serve match b) ids s1 = (out', Inr (), s')" and o: "out = strconv_Itoa i @ newline @ out'"
    using Cons.prems(3) a by (auto split: prod.splits)
  have "remove_port e s i = (Inr (), s1)" using api_remove [OF assms _ a] Cons.prems(2) r by auto
  with Cons.IH [OF _ _ l] Cons.prems(1,2) o show ?case
    using remove_ok [OF Cons.prems(1)] list_after_remove [OF Cons.prems(1)] by (auto simp: conj_commute)
qed simp

end

lemma map_res_length: "map_res f xs = Inr ys \<Longrightarrow> length ys = length xs"
  by (induction xs arbitrary: ys) (auto split: sum.splits)

lemma map_res_all: "map_res f xs = Inr ys \<Longrightarrow> (\<And>x y. f x = Inr y \<Longrightarrow> P y) \<Longrightarrow> list_all P ys"
  by (induction xs arbitrary: ys) (auto split: sum.splits)

lemma ParsePortSpec_wf: "map_res ParsePortSpec args = Inr sps \<Longrightarrow> list_all wf_Spec sps"
  by (rule map_res_all) (auto simp: wf_Spec_def dest: ParsePortSpec_typed)

text \<open>C28: \<^verbatim>\<open>rootlessctl add-ports\<close> against the builtin driver. When an argument is not a port
  specification nothing is exposed at all. Otherwise the ports are exposed in the order of
  the arguments up to the first failure; what is printed is one line for each port that was
  exposed and for no other, also when a later one fails, so that the user can remove them.\<close>

theorem ctl_add_ports:
  assumes "mux_documented match" and "be_PortDriver b = Some (builtin_driver env)" and "newClient w socket = Inr (serve match b)"
    and "driver_inv d" and "nextID d + int (length args) < 2 ^ 63" and "args \<noteq> []"
    and "addPortsAction w socket js args d = (out, r, d')"
  shows "(case map_res ParsePortSpec args of
            Inl e \<Rightarrow> out = [] \<and> r = Inl e \<and> d' = d
          | Inr sps \<Rightarrow> \<exists>sts. Builtin_Parent.ListPorts d' = Builtin_Parent.ListPorts d @ sts \<and> out = concat (map (status_line js) sts) \<and>
              map St_Spec sts = take (length sts) sps \<and> (r = Inr () \<longleftrightarrow> length sts = length sps) \<and> driver_inv d')"
proof (cases "map_res ParsePortSpec args")
  case (Inl e)
  with assms(6,7) show ?thesis by (auto simp: addPortsAction_def)
next
  case (Inr sps)
  have dr: "builtin.drives env b" using assms(2) by (simp add: builtin.drives_def builtin_driver_def)
  have "id_room env (length sps) d"
    using assms(4,5) map_res_length [OF Inr] by (simp add: id_room_def driver_inv_def)
  moreover have "add_ports js (serve match b) sps d = (out, r, d')"
    using assms(3,6,7) Inr by (cases args) (auto simp: addPortsAction_def)
  ultimately obtain sts where "Builtin_Parent.ListPorts d' = Builtin_Parent.ListPorts d @ sts \<and>
      out = concat (map (status_line js) sts) \<and> map St_Spec sts = take (length sts) sps \<and>
      (r = Inr () \<longleftrightarrow> length sts = length sps) \<and> driver_inv d'"
    using builtin_api.add_ports_run [OF assms(1) dr assms(4) _ ParsePortSpec_wf [OF Inr]] by blast
  then show ?thesis using Inr by auto
qed

lemma newline_not_in_Itoa: "CHR 0x0A \<notin> set (strconv_Itoa i)"
  using num_chars_Itoa [of i] by (auto simp: list_all_iff num_char_def is_digit_def)

lemma Split_lines: "Split (concat (map (\<lambda>i. strconv_Itoa i @ newline) ids)) CHR 0x0A = map strconv_Itoa ids @ [[]]"
  by (induction ids) (auto simp: newline_def Split_append newline_not_in_Itoa)

lemma map_res_Atoi: "list_all int64_ok ids \<Longrightarrow> map_res strconv_Atoi (map strconv_Itoa ids) = Inr ids"
  by (rule map_res_map) (auto simp: list_all_iff Atoi_Itoa)

definition world0 :: "driver ctl_world" where
  "world0 = \<lparr>cw_Getenv = (\<lambda>_. ''/s''), cw_Stat = (\<lambda>_. Inr ()), cw_Dial = (\<lambda>_. serve path_match backend0)\<rparr>"

lemma newClient0: "newClient world0 [] = Inr (serve path_match backend0)" "be_PortDriver backend0 = Some (builtin_driver env0)"
  by (simp_all add: newClient_def client_New_def NewHTTPClient_def world0_def backend0_def)

definition spec1 :: Spec where
  "spec1 = \<lparr>Proto = ''tcp'', ParentIP = ''127.0.0.1'', ParentPort = 8080, ChildPort = 80, ChildIP = []\<rparr>"

lemma spec1_facts:
  "map_res ParsePortSpec [''127.0.0.1:8080:80/tcp''] = Inr [spec1]" "strconv_Itoa 1 = ''1''"
  "Builtin_Parent.AddPort env0 driver0 spec1 = (Inr \<lparr>ID = 1, St_Spec = spec1\<rparr>, snd (add_commit driver0 spec1))"
  by code_simp+

lemma add_ports1: "addPortsAction world0 [] False [''127.0.0.1:8080:80/tcp''] driver0 =
  (''1'' @ newline, Inr (), snd (add_commit driver0 spec1))"
proof -
  have w: "wf_Spec spec1" "wf_Status \<lparr>ID = 1, St_Spec = spec1\<rparr>"
    by (simp_all add: spec1_def wf_Spec_def wf_Status_def int64_ok_def)
  have "client_AddPort (serve path_match backend0) driver0 spec1 =
      (Inr \<lparr>ID = 1, St_Spec = spec1\<rparr>, snd (add_commit driver0 spec1))"
    by (simp add: client_AddPort_def serve_post [OF path_match_documented newClient0(2) w(1)] builtin_driver_def
        spec1_facts json_decode_print dec_enc_Status w)
  then show ?thesis by (simp add: addPortsAction_def spec1_facts newClient0 status_line_def del: map_res.simps)
qed

theorem ctl_add_ports_witness:
  "\<exists>sts. Builtin_Parent.ListPorts (snd (add_commit driver0 spec1)) = sts \<and> map St_Spec sts = [spec1]"
  using ctl_add_ports [OF path_match_documented newClient0(2,1) driver0_inv _ _ add_ports1] spec1_facts(1)
  by (auto simp: driver0_def Builtin_Parent.ListPorts_def)



end
