(* ===== verification/Docker_Proxy.thy ===== *)
theory Docker_Proxy
  imports Api_Client
begin

text \<open>
  \<^verbatim>\<open>cmd/rootlesskit-docker-proxy\<close>: it runs in the child namespace in place of Docker's
  \<^verbatim>\<open>docker-proxy\<close>, exposes the host port through the API, runs the real proxy on the
  child side until it is interrupted, and removes the port again. The state is the one
  behind the API; the world gives the answers of the system, and \<open>dw_Wait\<close> what other clients do
  to that state until the interrupt.
\<close>

record 's dp_world =
  dw_StateDir :: string
  dw_Args :: "string list"
  dw_Stat :: "string \<Rightarrow> unit res"
  dw_Dial :: "string \<Rightarrow> 's http_do"
  dw_LookPath :: "string \<Rightarrow> string res"
  dw_Exec :: "string \<Rightarrow> err option"
  dw_Start :: "unit res"
  dw_Wait :: "'s \<Rightarrow> 's"
  dw_Kill :: "unit res"

record dp_flags =
  df_containerIP :: string
  df_containerPort :: int
  df_hostIP :: string
  df_hostPort :: int
  df_proto :: string

text \<open>How \<^verbatim>\<open>xmain\<close> ends: the process image is replaced, it returns, or a nil pointer is followed.\<close>

datatype dp_end =
    Replaced string "string list"
  | Returned "unit res"
  | Panicked

datatype dp_error =
    ProtocolUnsupported string string string int
  | Other err

text \<open>The end, what was written to the signal file, the command that was started, and the state.\<close>

type_synonym 's dp_result = "dp_end \<times> string \<times> string list option \<times> 's"

definition realProxy :: string where
  "realProxy = ''docker-proxy''"

definition isIPv6 :: "string \<Rightarrow> bool" where
  "isIPv6 ipStr \<longleftrightarrow> (let ip = ParseIP ipStr in if ip = nil_IP then False else To4 ip = nil_IP)"

definition getPortDriverProtos :: "Info \<Rightarrow> (string \<times> string set) res" where
  "getPortDriverProtos info =
     (case inf_PortDriver info of
        None \<Rightarrow> Inl (New ''no port driver is available'')
      | Some p \<Rightarrow> Inr (pdi_Driver p, set (pdi_Protos p)))"

text \<open>The error texts.\<close>

primrec dp_error_text :: "dp_error \<Rightarrow> string" where
  "dp_error_text (ProtocolUnsupported apiProto driver hostIP hostPort) =
     ''protocol '' @ quote apiProto @ '' is not supported by the RootlessKit port driver '' @ quote driver @
     '', discarding request for '' @ quote (JoinHostPort hostIP (strconv_Itoa hostPort))"
| "dp_error_text (Other e) = err_text e"

text \<open>The protocol of the API for the protocol of \<^verbatim>\<open>docker-proxy\<close>.\<close>

definition api_proto :: "string \<Rightarrow> string \<Rightarrow> string" where
  "api_proto hostIP dockerProxyProto =
     (if \<not> HasSuffix dockerProxyProto ''4'' \<and> \<not> HasSuffix dockerProxyProto ''6''
      then dockerProxyProto @ (if isIPv6 hostIP then ''6'' else ''4'')
      else dockerProxyProto)"

text \<open>The id to be removed later, or the error.\<close>

definition callRootlessKitAPI ::
  "'s http_do \<Rightarrow> Info \<Rightarrow> string \<Rightarrow> int \<Rightarrow> string \<Rightarrow> string \<Rightarrow> 's \<Rightarrow> (dp_error + int) \<times> 's" where
  "callRootlessKitAPI c info hostIP hostPort dockerProxyProto childIP s =
     (let apiProto = api_proto hostIP dockerProxyProto in
      case getPortDriverProtos info of
        Inl e \<Rightarrow> (Inl (Other e), s)
      | Inr (portDriverName, apiProtos) \<Rightarrow>
          (if apiProto \<notin> apiProtos then (Inl (ProtocolUnsupported apiProto portDriverName hostIP hostPort), s)
           else (case client_AddPort c s \<lparr>Proto = apiProto, ParentIP = hostIP, ParentPort = hostPort, ChildPort = hostPort,
                        ChildIP = childIP\<rparr> of
                   (Inl e, s') \<Rightarrow> (Inl (Other (Wrapf ''error while calling PortManager.AddPort(): %w'' [] e)), s')
                 | (Inr st, s') \<Rightarrow> (Inr (ID st), s'))))"

text \<open>The deferred removal. Its error wraps the error of \<^verbatim>\<open>AddPort\<close>, which is nil by then.\<close>

definition deferFunc :: "'s http_do \<Rightarrow> int \<Rightarrow> 's \<Rightarrow> unit res \<times> 's" where
  "deferFunc c i s =
     (case client_RemovePort c s i of
        (Inl e, s') \<Rightarrow> (Inl (Errorf ''error while calling PortManager.RemovePort(): %w'' [''%!w(<nil>)'']), s')
      | (Inr _, s') \<Rightarrow> (Inr (), s'))"

definition proxy_command :: "dp_flags \<Rightarrow> string \<Rightarrow> string list" where
  "proxy_command fl childIP =
     [realProxy, ''-container-ip'', df_containerIP fl, ''-container-port'', strconv_Itoa (df_containerPort fl),
      ''-host-ip'', childIP, ''-host-port'', strconv_Itoa (df_hostPort fl), ''-proto'', df_proto fl]"

text \<open>The part of \<^verbatim>\<open>xmain\<close> after the port has been exposed, with the deferred removal.\<close>

definition run_proxy :: "'s dp_world \<Rightarrow> dp_flags \<Rightarrow> 's http_do \<Rightarrow> string \<Rightarrow> int \<Rightarrow> 's \<Rightarrow> 's dp_result" where
  "run_proxy w fl c childIP i s =
     (case dw_Start w of
        Inl e \<Rightarrow>
          (Returned (Inl (Wrapf ''error while starting %s: %w'' [realProxy] e)), [], None, snd (deferFunc c i s))
      | Inr _ \<Rightarrow>
          (let s1 = dw_Wait w s;
               r = (case dw_Kill w of
                      Inl e \<Rightarrow> Inl (Wrapf ''error while killing %s: %w'' [realProxy] e)
                    | Inr _ \<Rightarrow> Inr ())
           in (Returned r, [], Some (proxy_command fl childIP), snd (deferFunc c i s1))))"

definition expose_and_run :: "'s dp_world \<Rightarrow> dp_flags \<Rightarrow> 's http_do \<Rightarrow> Info \<Rightarrow> string \<Rightarrow> 's \<Rightarrow> 's dp_result" where
  "expose_and_run w fl c info childIP s =
     (case callRootlessKitAPI c info (df_hostIP fl) (df_hostPort fl) (df_proto fl) childIP s of
        (Inl (ProtocolUnsupported p d h n), s') \<Rightarrow> (Returned (Inr ()), [CHR ''0'', CHR 0x0A], None, s')
      | (Inl (Other e), s') \<Rightarrow> (Returned (Inl e), [], None, s')
      | (Inr i, s') \<Rightarrow> run_proxy w fl c childIP i s')"

text \<open>Without a port driver the real proxy takes the place of the process.\<close>

definition exec_real :: "'s dp_world \<Rightarrow> 's \<Rightarrow> 's dp_result" where
  "exec_real w s =
     (case dw_LookPath w realProxy of
        Inl e \<Rightarrow> (Returned (Inl e), [], None, s)
      | Inr realProxyExe \<Rightarrow>
          (case dw_Exec w realProxyExe of
             Some e \<Rightarrow> (Returned (Inl e), [], None, s)
           | None \<Rightarrow> (Replaced realProxyExe (realProxy # dw_Args w), [], None, s)))"

definition xmain :: "'s dp_world \<Rightarrow> dp_flags \<Rightarrow> 's \<Rightarrow> 's dp_result" where
  "xmain w fl s =
     (if dw_StateDir w = [] then (Returned (Inl (New ''$ROOTLESSKIT_STATE_DIR needs to be set'')), [], None, s)
      else
        (case client_New (dw_Stat w) (dw_Dial w) (filepath_Join [dw_StateDir w, ''api.sock'']) of
           Inl e \<Rightarrow> (Returned (Inl (Wrapf ''error while connecting to RootlessKit API socket: %w'' [] e)), [], None, s)
         | Inr c \<Rightarrow>
             (case client_Info c s of
                (Inl e, s') \<Rightarrow>
                  (Returned (Inl (Wrapf ''failed to call info API, probably RootlessKit binary is too old (needs to be v0.14.0 or later): %w'' [] e)),
                   [], None, s')
              | (Inr info, s') \<Rightarrow>
                  (case inf_PortDriver info of
                     Some p \<Rightarrow>
                       if pdi_Driver p = ''none'' \<or> pdi_Driver p = ''implicit'' then exec_real w s'
                       else
                         (let childIP = (if isIPv6 (df_hostIP fl) then ''::1'' else ''127.0.0.1'') in
                          if pdi_DisallowLoopbackChildIP p then
                            (case inf_NetworkDriver info of
                               None \<Rightarrow> (Panicked, [], None, s')
                             | Some n \<Rightarrow>
                                 if ndi_ChildIP n = nil_IP then
                                   (Returned (Inl (Errorf ''port driver (%q) does not allow loopback child IP, but network driver (%q) has no non-loopback IP''
                                      [pdi_Driver p, ndi_Driver n])), [], None, s')
                                 else expose_and_run w fl c info (IP_String (ndi_ChildIP n)) s')
                          else expose_and_run w fl c info childIP s')
                   | None \<Rightarrow> exec_real w s'))))"

text \<open>\<^verbatim>\<open>main\<close>: what is written to the signal file, the exit status of a process that returns, the
  command and the state.\<close>

definition proxy_main :: "'s dp_world \<Rightarrow> dp_flags \<Rightarrow> 's \<Rightarrow> string \<times> int option \<times> string list option \<times> 's" where
  "proxy_main w fl s =
     (case xmain w fl s of
        (Returned (Inl e), out, cmd, s') \<Rightarrow> (out @ [CHR ''1'', CHR 0x0A] @ err_text e, Some 1, cmd, s')
      | (Returned (Inr _), out, cmd, s') \<Rightarrow> (out, Some 0, cmd, s')
      | (Replaced _ _, out, cmd, s') \<Rightarrow> (out, None, cmd, s')
      | (Panicked, out, cmd, s') \<Rightarrow> (out, Some 2, cmd, s'))"

section \<open>The port is removed on every path\<close>

definition proxy_spec :: "dp_flags \<Rightarrow> string \<Rightarrow> Spec" where
  "proxy_spec fl childIP = \<lparr>Proto = api_proto (df_hostIP fl) (df_proto fl), ParentIP = df_hostIP fl,
     ParentPort = df_hostPort fl, ChildPort = df_hostPort fl, ChildIP = childIP\<rparr>"

lemma filter_ID_fresh: "i \<notin> ID ` set ps \<Longrightarrow> filter (\<lambda>p. ID p \<noteq> i) ps = ps"
  by (induction ps) auto

context api_manager
begin

text \<open>What every removal through the API leaves, an unsuccessful one of the builtin driver too.\<close>

definition removes :: "'e \<Rightarrow> bool" where
  "removes e \<longleftrightarrow> (\<forall>s i. invar s \<longrightarrow> list_ports (snd (remove_port e s i)) = filter (\<lambda>st. ID st \<noteq> i) (list_ports s))"

lemma deferFunc_removes:
  assumes "mux_documented match" and "drives e b" and "removes e" and "invar s" and "int64_ok i"
  shows "list_ports (snd (deferFunc (serve match b) i s)) = filter (\<lambda>st. ID st \<noteq> i) (list_ports s) \<and>
    invar (snd (deferFunc (serve match b) i s))"
proof -
  obtain r s' where c: "client_RemovePort (serve match b) s i = (r, s')" by fastforce
  then have "snd (remove_port e s i) = s'" using api_remove [OF assms(1,2,5) c] by auto
  moreover have "snd (deferFunc (serve match b) i s) = s'" using c by (auto simp: deferFunc_def split: sum.splits)
  ultimately show ?thesis using assms(3,4) invar_remove [OF assms(4)] unfolding removes_def by metis
qed

lemma expose_and_run_cleans:
  assumes "mux_documented match" and "drives e b" and "removes e" and "invar s" and "room e 1 s" and "int64_ok (df_hostPort fl)"
    and "\<And>t. invar t \<Longrightarrow> invar (dw_Wait w t)"
    and "expose_and_run w fl (serve match b) info childIP s = (fin, out, cmd, s')"
  shows "cmd = None \<and> list_ports s' = list_ports s \<or>
    (\<exists>st s1. add_port e s (proxy_spec fl childIP) = (Inr st, s1) \<and> St_Spec st = proxy_spec fl childIP \<and>
       cmd = Some (proxy_command fl childIP) \<and> list_ports s' = filter (\<lambda>p. ID p \<noteq> ID st) (list_ports (dw_Wait w s1)))"
proof -
  obtain r s1 where c: "callRootlessKitAPI (serve match b) info (df_hostIP fl) (df_hostPort fl) (df_proto fl) childIP s = (r, s1)"
    by fastforce
  have wf: "wf_Spec (proxy_spec fl childIP)" using assms(6) by (simp add: proxy_spec_def wf_Spec_def)
  have room: "room e (Suc 0) s" using assms(5) by simp
  note call = callRootlessKitAPI_def Let_def proxy_spec_def [symmetric]
  show ?thesis
  proof (cases r)
    case (Inl er)
    then have "list_ports s1 = list_ports s"
      using c api_add_err [OF assms(1,2,4) room wf] by (auto simp: call split: sum.splits if_splits prod.splits)
    with c Inl assms(8) show ?thesis by (auto simp: expose_and_run_def split: dp_error.splits)
  next
    case (Inr i)
    then obtain st where st: "client_AddPort (serve match b) s (proxy_spec fl childIP) = (Inr st, s1)" "ID st = i"
      using c by (auto simp: call split: sum.splits if_splits prod.splits)
    note ok = api_add_ok [OF assms(1,2,4) room wf st(1)]
    then have inv: "invar s1" "invar (dw_Wait w s1)" "int64_ok i" using assms(7) st(2) by (auto simp: wf_Status_def)
    note rm = deferFunc_removes [OF assms(1-3) _ inv(3)]
    show ?thesis
    proof (cases "dw_Start w")
      case (Inl e')
      have "i \<notin> ID ` set (list_ports s)" using ok st(2) by simp
      then have "filter (\<lambda>p. ID p \<noteq> i) (list_ports s @ [st]) = list_ports s"
        using st(2) by (simp add: filter_ID_fresh)
      with Inl c Inr assms(8) ok rm [OF inv(1)] show ?thesis by (auto simp: expose_and_run_def run_proxy_def)
    next
      case (Inr u)
      with c \<open>r = Inr i\<close> assms(8) ok st(2) rm [OF inv(2)] show ?thesis
        by (auto simp: expose_and_run_def run_proxy_def Let_def)
    qed
  qed
qed

end

lemma builtin_unknown_id:
  assumes "driver_inv d" and "map_of (stoppers d) i = None"
  shows "i \<notin> ID ` set (Builtin_Parent.ListPorts d)"
proof -
  have "i \<notin> set (keys (ports d))" using assms by (auto simp: driver_inv_def keys_def map_of_eq_None_iff)
  then show ?thesis
    using wf_table_ids [of "ports d"] assms(1) unfolding driver_inv_def Builtin_Parent.ListPorts_def
    by (metis image_comp list.set_map)
qed

lemma builtin_removes: "builtin_api.removes env"
  unfolding builtin_api.removes_def
proof (intro allI impI)
  fix d :: driver and i
  assume d: "driver_inv d"
  show "Builtin_Parent.ListPorts (snd (Builtin_Parent.RemovePort env d i)) = filter (\<lambda>st. ID st \<noteq> i) (Builtin_Parent.ListPorts d)"
  proof (cases "map_of (stoppers d) i")
    case None
    then show ?thesis
      by (simp add: Builtin_Parent.RemovePort_def filter_ID_fresh [OF builtin_unknown_id [OF d None]])
  next
    case (Some stop)
    then show ?thesis using d map_snd_del [of "ports d" i]
      by (simp add: Builtin_Parent.RemovePort_def Let_def driver_inv_def Builtin_Parent.ListPorts_def)
  qed
qed


definition dp_world0 :: "driver dp_world" where
  "dp_world0 = \<lparr>dw_StateDir = ''/s'', dw_Args = [], dw_Stat = (\<lambda>_. Inr ()), dw_Dial = (\<lambda>_. serve path_match backend0),
     dw_LookPath = (\<lambda>_. Inl (New ''not found'')), dw_Exec = (\<lambda>_. None), dw_Start = Inr (), dw_Wait = id, dw_Kill = Inr ()\<rparr>"

definition dp_flags0 :: dp_flags where
  "dp_flags0 = \<lparr>df_containerIP = ''172.17.0.2'', df_containerPort = 80, df_hostIP = ''0.0.0.0'', df_hostPort = 8080, df_proto = ''tcp''\<rparr>"

lemma dp_flags0_ip: "isIPv6 ''0.0.0.0'' = False" "filepath_Join [''/s'', ''api.sock''] = ''/s/api.sock''"
  by code_simp+


section \<open>Protocols the driver does not support\<close>

text \<open>C31: a protocol that the port driver does not support (IPv6 with the slirp4netns driver, SCTP)
  is no failure for Docker: the proxy reports success on the signal file, starts nothing and
  exposes nothing.\<close>

theorem proxy_unsupported_protocol:
  assumes "mux_documented match" and "dw_Dial w = (\<lambda>_. serve match b)" and "dw_StateDir w \<noteq> []"
    and "dw_Stat w (filepath_Join [dw_StateDir w, ''api.sock'']) = Inr ()"
    and "be_PortDriver b = Some pdrv" and "pd_Info pdrv s = Inr p" and "pdi_Driver p \<notin> {''none'', ''implicit''}"
    and "be_NetworkDriver b = Some (Inr n)" and "net_marshals n" and "int64_ok (be_ChildPID b)"
    and "pdi_DisallowLoopbackChildIP p \<Longrightarrow> ndi_ChildIP n \<noteq> nil_IP"
    and "api_proto (df_hostIP fl) (df_proto fl) \<notin> set (pdi_Protos p)"
  shows "proxy_main w fl s = ([CHR ''0'', CHR 0x0A], Some 0, None, s)"
proof -
  have i: "client_Info (serve match b) s = (Inr (info16 (server_Info b (Some n) (Some p))), s)"
    using assms(5,6,8,9,10) by (intro client_Info_eq [OF assms(1)]) auto
  have nil: "ndi_ChildIP n \<noteq> nil_IP \<Longrightarrow> To16 (ndi_ChildIP n) \<noteq> nil_IP"
    using assms(9) by (intro To16_nonempty) (auto simp: net_marshals_def IP_marshals_def)
  have "expose_and_run w fl (serve match b) (info16 (server_Info b (Some n) (Some p))) ip s =
      (Returned (Inr ()), [CHR ''0'', CHR 0x0A], None, s)" for ip
    using assms(12)
    by (simp add: expose_and_run_def callRootlessKitAPI_def getPortDriverProtos_def info16_def server_Info_def Let_def)
  then have "xmain w fl s = (Returned (Inr ()), [CHR ''0'', CHR 0x0A], None, s)"
    using assms(2-4,7,11) i nil
    by (simp add: xmain_def client_New_def NewHTTPClient_def) (simp add: info16_def server_Info_def net16_def)
  then show ?thesis by (simp add: proxy_main_def)
qed

theorem proxy_unsupported_protocol_witness:
  "proxy_main (dp_world0\<lparr>dw_Dial := \<lambda>_. serve path_match (backend0\<lparr>be_NetworkDriver := Some (Inr net0)\<rparr>)\<rparr>)
     (dp_flags0\<lparr>df_proto := ''sctp''\<rparr>) driver0 = ([CHR ''0'', CHR 0x0A], Some 0, None, driver0)"
proof (rule proxy_unsupported_protocol [OF path_match_documented, where b = "backend0\<lparr>be_NetworkDriver := Some (Inr net0)\<rparr>"
      and pdrv = "builtin_driver env0" and p = "Builtin_Parent.Info driver0" and n = net0])
  have "api_proto ''0.0.0.0'' ''sctp'' = ''sctp4''" by code_simp
  then show "api_proto (df_hostIP (dp_flags0\<lparr>df_proto := ''sctp''\<rparr>)) (df_proto (dp_flags0\<lparr>df_proto := ''sctp''\<rparr>)) \<notin>
      set (pdi_Protos (Builtin_Parent.Info driver0))"
    by (simp add: dp_flags0_def Builtin_Parent.Info_def)
qed (simp_all add: dp_world0_def backend0_def builtin_driver_def Builtin_Parent.Info_def net0_def net_marshals_def IP_marshals_def int64_ok_def)

end
