(* ===== verification/Tcp_Proxy.thy ===== *)
theory Tcp_Proxy
  imports Builtin_Parent
begin

text \<open>
  \<^verbatim>\<open>pkg/port/builtin/parent/tcp\<close>: the goroutines behind an exposed TCP port. \<open>Run\<close> starts one that
  accepts connections and one that hands them to handlers and waits for the stop channel;
  a handler gets a socket from the child and copies bytes in both directions. Each group of
  goroutines is a step relation, with the steps of the peers and of the driver separate from
  those of the program.
\<close>

section \<open>Copying in both directions\<close>

text \<open>
  A pipe is one direction of \<^verbatim>\<open>bicopy\<close>: what its source has sent so far and whether it has
  closed, how much of it was read, the state of the broker, what was written to the
  destination, whether the write side of the destination was shut down, and (for the
  statements) whether a system call failed. \<^verbatim>\<open>io.Copy\<close> reads a piece and writes it.
\<close>

datatype broker = Reading | Writing string | Finished

record pipe =
  p_sent :: string
  p_fin :: bool
  p_read :: nat
  p_broker :: broker
  p_out :: string
  p_shut :: bool
  p_err :: bool

datatype dir = From_x | From_y

datatype bi_main = Select | Wait_finish | Returned

record bi =
  pipes :: "dir \<Rightarrow> pipe"
  quit :: bool
  conns_closed :: bool
  main_pc :: bi_main

definition new_pipe :: pipe where
  "new_pipe = \<lparr>p_sent = [], p_fin = False, p_read = 0, p_broker = Reading, p_out = [], p_shut = False, p_err = False\<rparr>"

definition bicopy_init :: "bool \<Rightarrow> bi" where
  "bicopy_init q = \<lparr>pipes = (\<lambda>_. new_pipe), quit = q, conns_closed = False, main_pc = Select\<rparr>"

definition unread :: "pipe \<Rightarrow> string" where
  "unread p = drop (p_read p) (p_sent p)"

text \<open>The end of a broker: \<^verbatim>\<open>CloseRead\<close>, \<^verbatim>\<open>CloseWrite\<close> and \<^verbatim>\<open>wg.Done\<close>.\<close>

definition broker_end :: "bool \<Rightarrow> pipe \<Rightarrow> pipe" where
  "broker_end e p = p\<lparr>p_broker := Finished, p_shut := True, p_err := e\<rparr>"

text \<open>One step of a broker; the flag says that the connections have been closed.\<close>

inductive broker_step :: "bool \<Rightarrow> pipe \<Rightarrow> pipe \<Rightarrow> bool" where
  got: "p_broker p = Reading \<Longrightarrow> 0 < n \<Longrightarrow> n \<le> length (unread p) \<Longrightarrow>
     broker_step False p (p\<lparr>p_broker := Writing (take n (unread p)), p_read := p_read p + n\<rparr>)"
| put: "p_broker p = Writing b \<Longrightarrow> broker_step False p (p\<lparr>p_broker := Reading, p_out := p_out p @ b\<rparr>)"
| eof: "p_broker p = Reading \<Longrightarrow> p_fin p \<Longrightarrow> unread p = [] \<Longrightarrow> broker_step False p (broker_end False p)"
| read_err: "p_broker p = Reading \<Longrightarrow> broker_step cl p (broker_end True p)"
| write_err: "p_broker p = Writing b \<Longrightarrow> broker_step cl p (broker_end True (p\<lparr>p_out := p_out p @ take k b\<rparr>))"

definition brokers_finished :: "bi \<Rightarrow> bool" where
  "brokers_finished s \<longleftrightarrow> p_broker (pipes s From_x) = Finished \<and> p_broker (pipes s From_y) = Finished"

definition close_both :: "bi \<Rightarrow> bi" where
  "close_both s = s\<lparr>conns_closed := True, main_pc := Wait_finish\<rparr>"

inductive bicopy :: "bi \<Rightarrow> bi \<Rightarrow> bool" where
  broker: "broker_step (conns_closed s) (pipes s d) p \<Longrightarrow> bicopy s (s\<lparr>pipes := (pipes s)(d := p)\<rparr>)"
| quit: "main_pc s = Select \<Longrightarrow> quit s \<Longrightarrow> bicopy s (close_both s)"
| finish: "main_pc s = Select \<Longrightarrow> brokers_finished s \<Longrightarrow> bicopy s (close_both s)"
| return: "main_pc s = Wait_finish \<Longrightarrow> brokers_finished s \<Longrightarrow> bicopy s (s\<lparr>main_pc := Returned\<rparr>)"

text \<open>The peers send and close, and the driver closes the stop channel.\<close>

inductive peers :: "bi \<Rightarrow> bi \<Rightarrow> bool" where
  send: "\<not> p_fin (pipes s d) \<Longrightarrow>
     peers s (s\<lparr>pipes := (pipes s)(d := (pipes s d)\<lparr>p_sent := p_sent (pipes s d) @ bs\<rparr>)\<rparr>)"
| fin: "peers s (s\<lparr>pipes := (pipes s)(d := (pipes s d)\<lparr>p_fin := True\<rparr>)\<rparr>)"
| stop: "peers s (s\<lparr>quit := True\<rparr>)"

inductive_cases bicopyE: "bicopy s s'"
inductive_cases peersE: "peers s s'"
inductive_cases broker_stepE: "broker_step cl p p'"

inductive bicopy_reach :: "bi \<Rightarrow> bool" where
  start: "bicopy_reach (bicopy_init q)"
| prog: "bicopy_reach s \<Longrightarrow> bicopy s s' \<Longrightarrow> bicopy_reach s'"
| peer: "bicopy_reach s \<Longrightarrow> peers s s' \<Longrightarrow> bicopy_reach s'"

subsection \<open>Bytes arrive in order\<close>

definition in_flight :: "pipe \<Rightarrow> string" where
  "in_flight p = (case p_broker p of Writing b \<Rightarrow> b | _ \<Rightarrow> [])"

definition pipe_inv :: "pipe \<Rightarrow> bool" where
  "pipe_inv p \<longleftrightarrow> p_read p \<le> length (p_sent p) \<and>
     (p_broker p \<noteq> Finished \<longrightarrow> p_out p @ in_flight p = take (p_read p) (p_sent p) \<and> \<not> p_shut p) \<and>
     (p_broker p = Finished \<longrightarrow> prefix (p_out p) (p_sent p) \<and> p_shut p \<and> (\<not> p_err p \<longrightarrow> p_fin p \<and> p_out p = p_sent p))"

lemma take_take_drop: "k \<le> length xs \<Longrightarrow> take k xs @ take n (drop k xs) = take (k + n) xs"
  by (simp add: take_add)

lemma prefix_append_take: "a @ b = take r xs \<Longrightarrow> prefix (a @ take k b) xs"
  by (metis append_take_drop_id prefix_def append_assoc)

lemma broker_step_inv: "broker_step cl p p' \<Longrightarrow> pipe_inv p \<Longrightarrow> pipe_inv p'"
proof (induction rule: broker_step.induct)
  case (got p n)
  then show ?case by (simp add: pipe_inv_def in_flight_def unread_def take_take_drop)
next
  case (put p b)
  then show ?case by (simp add: pipe_inv_def in_flight_def)
next
  case (eof p)
  then show ?case by (auto simp: pipe_inv_def in_flight_def unread_def broker_end_def)
next
  case (read_err p cl)
  then show ?case by (auto simp: pipe_inv_def in_flight_def broker_end_def take_is_prefix)
next
  case (write_err p b cl k)
  then show ?case using prefix_append_take [of "p_out p" b "p_read p" "p_sent p" k]
    by (simp add: pipe_inv_def in_flight_def broker_end_def)
qed

definition bi_inv :: "bi \<Rightarrow> bool" where
  "bi_inv s \<longleftrightarrow> (\<forall>d. pipe_inv (pipes s d)) \<and> (conns_closed s \<longleftrightarrow> main_pc s \<noteq> Select) \<and> (main_pc s = Returned \<longrightarrow> brokers_finished s)"

lemma finished_stays: "broker_step cl p p' \<Longrightarrow> p_broker p \<noteq> Finished"
  by (erule broker_stepE) auto

lemma bicopy_inv: "bicopy s s' \<Longrightarrow> bi_inv s \<Longrightarrow> bi_inv s'"
proof (induction rule: bicopy.induct)
  case (broker s d p)
  then have "pipe_inv p" "main_pc s \<noteq> Returned"
    using broker_step_inv finished_stays [of "conns_closed s" "pipes s d" p] by (auto simp: bi_inv_def brokers_finished_def) (cases d, auto)
  with broker show ?case by (auto simp: bi_inv_def)
qed (auto simp: bi_inv_def close_both_def brokers_finished_def)

lemma pipe_inv_peer:
  "pipe_inv p \<Longrightarrow> \<not> p_fin p \<Longrightarrow> pipe_inv (p\<lparr>p_sent := p_sent p @ bs\<rparr>)"
  "pipe_inv p \<Longrightarrow> pipe_inv (p\<lparr>p_fin := True\<rparr>)"
  by (auto simp: pipe_inv_def in_flight_def)

lemma peers_inv: "peers s s' \<Longrightarrow> bi_inv s \<Longrightarrow> bi_inv s'"
proof (induction rule: peers.induct)
  case (send s d bs)
  then have "pipe_inv ((pipes s d)\<lparr>p_sent := p_sent (pipes s d) @ bs\<rparr>)" by (simp add: bi_inv_def pipe_inv_peer)
  with send show ?case by (auto simp: bi_inv_def brokers_finished_def)
next
  case (fin s d)
  then have "pipe_inv ((pipes s d)\<lparr>p_fin := True\<rparr>)" by (simp add: bi_inv_def pipe_inv_peer)
  with fin show ?case by (auto simp: bi_inv_def brokers_finished_def)
qed (auto simp: bi_inv_def brokers_finished_def)

lemma bi_inv_reach: "bicopy_reach s \<Longrightarrow> bi_inv s"
proof (induction rule: bicopy_reach.induct)
  case (start q)
  show ?case by (simp add: bi_inv_def bicopy_init_def pipe_inv_def new_pipe_def in_flight_def)
qed (auto intro: bicopy_inv peers_inv)


text \<open>A run in which a client sends two bytes and closes.\<close>

definition run0 :: bi where
  "run0 = (bicopy_init False)\<lparr>pipes := (\<lambda>_. new_pipe)(From_x := new_pipe\<lparr>p_sent := ''hi'', p_fin := True, p_read := 2,
     p_broker := Finished, p_out := ''hi'', p_shut := True\<rparr>)\<rparr>"

lemma run0_reach: "bicopy_reach run0"
proof -
  let ?st = "\<lambda>p. (bicopy_init False)\<lparr>pipes := (\<lambda>_. new_pipe)(From_x := p)\<rparr>"
  let ?p1 = "new_pipe\<lparr>p_sent := ''hi''\<rparr>"
  let ?p2 = "?p1\<lparr>p_broker := Writing ''hi'', p_read := 2\<rparr>"
  let ?p3 = "?p2\<lparr>p_broker := Reading, p_out := ''hi''\<rparr>"
  let ?p4 = "?p3\<lparr>p_fin := True\<rparr>"
  have r1: "bicopy_reach (?st ?p1)"
    using bicopy_reach.peer [OF bicopy_reach.start peers.send, of False From_x "''hi''"] by (simp add: bicopy_init_def new_pipe_def)
  have s1: "bicopy (?st ?p1) (?st ?p2)"
    using bicopy.broker [of "?st ?p1" From_x ?p2] broker_step.got [of ?p1 2]
    by (simp add: bicopy_init_def new_pipe_def unread_def numeral_2_eq_2)
  have s2: "bicopy (?st ?p2) (?st ?p3)"
    using bicopy.broker [of "?st ?p2" From_x ?p3] broker_step.put [of ?p2 "''hi''"] by (simp add: bicopy_init_def new_pipe_def)
  have s3: "peers (?st ?p3) (?st ?p4)"
    using peers.fin [of "?st ?p3" From_x] by (simp add: bicopy_init_def new_pipe_def)
  have s4: "bicopy (?st ?p4) run0"
    using bicopy.broker [of "?st ?p4" From_x] broker_step.eof [of ?p4]
    by (simp add: bicopy_init_def new_pipe_def unread_def broker_end_def run0_def)
  show ?thesis
    by (rule bicopy_reach.prog [OF bicopy_reach.peer [OF bicopy_reach.prog [OF bicopy_reach.prog [OF r1 s1] s2] s3] s4])
qed


subsection \<open>It returns once the connections are closed\<close>

definition bi_measure :: "bi \<Rightarrow> nat" where
  "bi_measure s = (if p_broker (pipes s From_x) = Finished then 0 else 1) +
     (if p_broker (pipes s From_y) = Finished then 0 else 1) + (if main_pc s = Returned then 0 else 1)"

lemma closed_broker_step: "broker_step True p p' \<Longrightarrow> p_broker p' = Finished \<and> p_broker p \<noteq> Finished"
  by (erule broker_stepE) (auto simp: broker_end_def)

lemma closed_broker_enabled: "p_broker p \<noteq> Finished \<Longrightarrow> \<exists>p'. broker_step True p p'"
  by (cases "p_broker p") (blast intro: broker_step.read_err broker_step.write_err)+

lemma closed_decreases: "bicopy s s' \<Longrightarrow> bi_inv s \<Longrightarrow> conns_closed s \<Longrightarrow> bi_measure s' < bi_measure s \<and> conns_closed s'"
proof (induction rule: bicopy.induct)
  case (broker s d p)
  with closed_broker_step [of "pipes s d" p] show ?case by (cases d) (auto simp: bi_measure_def)
qed (auto simp: bi_measure_def bi_inv_def)

lemma peers_measure: "peers s s' \<Longrightarrow> bi_measure s' = bi_measure s \<and> conns_closed s' = conns_closed s"
  by (induction rule: peers.induct) (auto simp: bi_measure_def)

lemma closed_enabled:
  assumes "bi_inv s" and "conns_closed s" and "main_pc s \<noteq> Returned"
  shows "\<exists>s'. bicopy s s'"
proof (cases "brokers_finished s")
  case True
  with assms have "main_pc s = Wait_finish" by (cases "main_pc s") (auto simp: bi_inv_def)
  with True show ?thesis by (blast intro: bicopy.return)
next
  case False
  then obtain d where "p_broker (pipes s d) \<noteq> Finished" by (auto simp: brokers_finished_def)
  with closed_broker_enabled assms(2) show ?thesis by (metis bicopy.broker)
qed


definition run1 :: bi where
  "run1 = close_both (bicopy_init True)"


section \<open>One connection\<close>

text \<open>
  \<open>copyConnToChild\<close>: \<open>attempt\<close> are the results of the calls to the child, \<open>file_conn\<close> the result of
  \<^verbatim>\<open>net.FileConn\<close>. The result comes with the resources that were opened, whether bytes were
  copied, and the deferred closes in the order in which they run.
\<close>

datatype resource = Client_conn | Child_file | Child_conn

definition copyConnToChild :: "(int \<Rightarrow> int res) \<Rightarrow> (int \<Rightarrow> unit res) \<Rightarrow> unit res \<times> resource list \<times> bool \<times> resource list" where
  "copyConnToChild attempt file_conn =
     (case fst (ConnectToChildWithRetry attempt 10) of
        Inl e \<Rightarrow> (Inl e, [Client_conn], False, [Client_conn])
      | Inr fd \<Rightarrow>
          (case file_conn fd of
             Inl e \<Rightarrow> (Inl e, [Client_conn, Child_file], False, [Child_file, Client_conn])
           | Inr _ \<Rightarrow> (Inr (), [Client_conn, Child_file, Child_conn], True, [Child_conn, Child_file, Client_conn])))"

lemma copyConnToChild_closes:
  "copyConnToChild attempt file_conn = (r, opened, copied, closed) \<Longrightarrow> closed = rev opened \<and> Client_conn \<in> set closed \<and> (copied \<longleftrightarrow> r = Inr ())"
  by (auto simp: copyConnToChild_def split: sum.splits)

section \<open>The listener\<close>

text \<open>
  \<^verbatim>\<open>newConns\<close> and \<^verbatim>\<open>stoppedCh\<close> are unbuffered: a send waits for its receiver. The accepting
  goroutine waits in \<^verbatim>\<open>Accept\<close>, waits with a connection, or is over; the other one
  selects, waits with the result of \<^verbatim>\<open>ln.Close\<close> for the driver, or is over. Connections are
  numbered in the order in which they are accepted.
\<close>

datatype acceptor = Accepting | Sending nat | Acceptor_over

datatype dispatcher = Selecting | Stopping "unit res" | Dispatcher_over

record listener =
  acceptor :: acceptor
  dispatcher :: dispatcher
  newConns_closed :: bool
  stopCh_closed :: bool
  ln_open :: bool
  accepted :: nat
  handlers :: "nat set"
  ended :: "nat set"
  stoppedCh :: "unit res list"

definition tcp_start :: listener where
  "tcp_start = \<lparr>acceptor = Accepting, dispatcher = Selecting, newConns_closed = False, stopCh_closed = False, ln_open = True,
     accepted = 0, handlers = {}, ended = {}, stoppedCh = []\<rparr>"

inductive tcp_step :: "listener \<Rightarrow> listener \<Rightarrow> bool" where
  accept: "acceptor s = Accepting \<Longrightarrow> ln_open s \<Longrightarrow>
     tcp_step s (s\<lparr>acceptor := Sending (accepted s), accepted := accepted s + 1\<rparr>)"
| accept_err: "acceptor s = Accepting \<Longrightarrow> tcp_step s (s\<lparr>acceptor := Acceptor_over, newConns_closed := True\<rparr>)"
| hand_over: "acceptor s = Sending c \<Longrightarrow> dispatcher s = Selecting \<Longrightarrow>
     tcp_step s (s\<lparr>acceptor := Accepting, handlers := insert c (handlers s)\<rparr>)"
| no_more: "dispatcher s = Selecting \<Longrightarrow> newConns_closed s \<Longrightarrow> tcp_step s (s\<lparr>dispatcher := Stopping r, ln_open := False\<rparr>)"
| stop: "dispatcher s = Selecting \<Longrightarrow> stopCh_closed s \<Longrightarrow> tcp_step s (s\<lparr>dispatcher := Stopping r, ln_open := False\<rparr>)"
| handled: "c \<in> handlers s \<Longrightarrow> copyConnToChild attempt file_conn = (res, opened, copied, closes) \<Longrightarrow> Client_conn \<in> set closes \<Longrightarrow>
     tcp_step s (s\<lparr>handlers := handlers s - {c}, ended := insert c (ended s)\<rparr>)"
| close_stopCh: "tcp_step s (s\<lparr>stopCh_closed := True\<rparr>)"
| receive: "dispatcher s = Stopping r \<Longrightarrow> stopCh_closed s \<Longrightarrow>
     tcp_step s (s\<lparr>dispatcher := Dispatcher_over, stoppedCh := stoppedCh s @ [r]\<rparr>)"

inductive tcp_reach :: "listener \<Rightarrow> bool" where
  start: "tcp_reach tcp_start"
| more: "tcp_reach s \<Longrightarrow> tcp_step s s' \<Longrightarrow> tcp_reach s'"

definition waiting :: "listener \<Rightarrow> nat set" where
  "waiting s = (case acceptor s of Sending c \<Rightarrow> {c} | _ \<Rightarrow> {})"

definition tcp_inv :: "listener \<Rightarrow> bool" where
  "tcp_inv s \<longleftrightarrow> handlers s \<union> ended s \<union> waiting s = {0 ..< accepted s} \<and>
     handlers s \<inter> ended s = {} \<and> waiting s \<inter> (handlers s \<union> ended s) = {} \<and>
     (ln_open s \<longleftrightarrow> dispatcher s = Selecting) \<and>
     (dispatcher s \<noteq> Dispatcher_over \<longrightarrow> stoppedCh s = []) \<and> (dispatcher s = Dispatcher_over \<longrightarrow> length (stoppedCh s) = 1) \<and>
     (newConns_closed s \<longleftrightarrow> acceptor s = Acceptor_over)"

lemma tcp_inv_step: "tcp_step s s' \<Longrightarrow> tcp_inv s \<Longrightarrow> tcp_inv s'"
proof (induction rule: tcp_step.induct)
  case (accept s)
  then have "handlers s \<union> ended s = {0 ..< accepted s}" by (simp add: tcp_inv_def waiting_def)
  with accept show ?case by (auto simp: tcp_inv_def waiting_def)
next
  case (hand_over s c)
  then show ?case by (auto simp: tcp_inv_def waiting_def)
next
  case (handled c s attempt file_conn res opened copied closes)
  then show ?case by (auto simp: tcp_inv_def waiting_def)
qed (auto simp: tcp_inv_def waiting_def)

lemma tcp_inv_reach: "tcp_reach s \<Longrightarrow> tcp_inv s"
proof (induction rule: tcp_reach.induct)
  case start
  show ?case by (auto simp: tcp_inv_def tcp_start_def waiting_def)
qed (rule tcp_inv_step)

text \<open>The bookkeeping of a listener. Every connection that was accepted is in exactly one place:
  waiting to be handed over, with one handler, or ended, which closes it; the listening
  socket is open exactly while the dispatcher selects, and the driver receives at most one
  result, which it can only have once the socket is closed.\<close>

theorem tcp_accounts:
  assumes "tcp_reach s"
  shows "handlers s \<union> ended s \<union> waiting s = {0 ..< accepted s} \<and>
    handlers s \<inter> ended s = {} \<and> waiting s \<inter> (handlers s \<union> ended s) = {} \<and>
    (ln_open s \<longleftrightarrow> dispatcher s = Selecting) \<and> length (stoppedCh s) \<le> 1 \<and> (stoppedCh s \<noteq> [] \<longrightarrow> \<not> ln_open s)"
  using tcp_inv_reach [OF assms] by (cases "dispatcher s = Dispatcher_over") (auto simp: tcp_inv_def)

text \<open>The listener after a connection was accepted in the moment the port was removed.\<close>

definition late0 :: listener where
  "late0 = tcp_start\<lparr>acceptor := Sending 0, accepted := 1, stopCh_closed := True, ln_open := False,
     dispatcher := Dispatcher_over, stoppedCh := [Inr ()]\<rparr>"

lemma late0_reach: "tcp_reach late0"
proof -
  let ?s1 = "tcp_start\<lparr>acceptor := Sending 0, accepted := 1\<rparr>"
  let ?s2 = "?s1\<lparr>stopCh_closed := True\<rparr>"
  let ?s3 = "?s2\<lparr>dispatcher := Stopping (Inr ()), ln_open := False\<rparr>"
  have s1: "tcp_step tcp_start ?s1" using tcp_step.accept [of tcp_start] by (simp add: tcp_start_def)
  have s2: "tcp_step ?s1 ?s2" by (rule tcp_step.close_stopCh)
  have s3: "tcp_step ?s2 ?s3" by (rule tcp_step.stop) (simp_all add: tcp_start_def)
  have s4: "tcp_step ?s3 late0" using tcp_step.receive [of ?s3 "Inr ()"] by (simp add: tcp_start_def late0_def)
  show ?thesis by (rule tcp_reach.more [OF tcp_reach.more [OF tcp_reach.more [OF tcp_reach.more [OF tcp_reach.start s1] s2] s3] s4])
qed

theorem tcp_accounts_witness: "waiting late0 = {0} \<and> \<not> ln_open late0 \<and> length (stoppedCh late0) = 1"
  using tcp_accounts [OF late0_reach] by (simp add: late0_def tcp_start_def waiting_def)

lemma stuck_step:
  "tcp_step s s' \<Longrightarrow> acceptor s = Sending c \<Longrightarrow> dispatcher s \<noteq> Selecting \<Longrightarrow> acceptor s' = Sending c \<and> dispatcher s' \<noteq> Selecting"
  by (induction rule: tcp_step.induct) auto

lemma stuck_steps:
  "tcp_step\<^sup>*\<^sup>* s s' \<Longrightarrow> acceptor s = Sending c \<Longrightarrow> dispatcher s \<noteq> Selecting \<Longrightarrow> acceptor s' = Sending c \<and> dispatcher s' \<noteq> Selecting"
  by (induction rule: rtranclp_induct) (auto dest: stuck_step)

lemma tcp_reach_steps: "tcp_step\<^sup>*\<^sup>* s s' \<Longrightarrow> tcp_reach s \<Longrightarrow> tcp_reach s'"
  by (induction rule: rtranclp_induct) (auto intro: tcp_reach.more)

text \<open>A defect of the listener. A connection that was accepted but not yet handed over when the
  dispatcher stops is never closed and never served: the accepting goroutine waits for ever
  to send it, although the driver has reported the removal of the port as successful.\<close>

theorem accepted_conn_leaks:
  assumes "tcp_reach s" and "acceptor s = Sending c" and "dispatcher s \<noteq> Selecting" and "tcp_step\<^sup>*\<^sup>* s s'"
  shows "acceptor s' = Sending c \<and> c \<notin> ended s' \<and> c \<notin> handlers s'"
  using stuck_steps [OF assms(4,2,3)] tcp_inv_reach [OF tcp_reach_steps [OF assms(4,1)]]
  by (auto simp: tcp_inv_def waiting_def)

theorem accepted_conn_leaks_witness:
  "tcp_reach late0 \<and> stoppedCh late0 = [Inr ()] \<and> acceptor late0 = Sending 0 \<and> 0 \<notin> ended late0"
proof -
  have "acceptor late0 = Sending 0" "dispatcher late0 \<noteq> Selecting" by (simp_all add: late0_def)
  from accepted_conn_leaks [OF late0_reach this rtranclp.rtrancl_refl] late0_reach
  show ?thesis by (simp add: late0_def)
qed

end
