(* ===== verification/Udp_Proxy.thy ===== *)
theory Udp_Proxy
  imports Iputils Lowlevelmsgutil
begin

text \<open>
  \<^verbatim>\<open>pkg/port/builtin/parent/udp/udpproxy\<close>: forwarding of UDP datagrams with connection
  tracking. The main loop (\<^verbatim>\<open>Run\<close>) and one reply loop per tracked client share the table;
  the step relation interleaves them at their system calls. Connections are numbered in the
  order in which they are dialled.
\<close>

record connTrackKey =
  IPHigh :: int
  IPLow :: int
  KPort :: int

record UDPAddr =
  ua_IP :: IP
  ua_Port :: int

text \<open>\<^const>\<open>None\<close> is the panic of the slice expressions on an address of another length.\<close>

definition newConnTrackKey :: "UDPAddr \<Rightarrow> connTrackKey option" where
  "newConnTrackKey addr =
     (let ip = ua_IP addr in
      if length ip = 4 then Some \<lparr>IPHigh = 0, IPLow = be_uint32 ip, KPort = ua_Port addr\<rparr>
      else if 16 \<le> length ip then
        Some \<lparr>IPHigh = be_uint32 (take 8 ip), IPLow = be_uint32 (take 8 (drop 8 ip)), KPort = ua_Port addr\<rparr>
      else None)"

record UDPProxy =
  listening :: bool
  connTrackTable :: "(connTrackKey \<times> nat) list"
  loops :: "(nat \<times> UDPAddr) list"
  closedConns :: "nat set"
  nextConn :: nat
  toBackend :: "(nat \<times> string) list"
  toClient :: "(UDPAddr \<times> string) list"

definition new_proxy :: UDPProxy where
  "new_proxy = \<lparr>listening = True, connTrackTable = [], loops = [], closedConns = {}, nextConn = 0,
     toBackend = [], toClient = []\<rparr>"

text \<open>
  The loop that writes a buffer: \<open>results\<close> are the results of the successive write calls.
  The pieces written, and whether the whole buffer was written. An empty list of results
  means that the last call has not returned.
\<close>

fun write_loop :: "nat res list \<Rightarrow> string \<Rightarrow> string list \<times> bool" where
  "write_loop rs [] = ([], True)"
| "write_loop [] data = ([], False)"
| "write_loop (Inl e # rs) data = ([], False)"
| "write_loop (Inr n # rs) data =
     (case write_loop rs (drop n data) of (ps, ok) \<Rightarrow> (take n data # ps, ok))"

text \<open>
  One round of \<^verbatim>\<open>Run\<close>: a datagram \<open>data\<close> from \<open>from\<close>; \<open>dial\<close> is the result of
  \<^verbatim>\<open>BackendDial\<close> if it is called.
\<close>

definition handle_datagram :: "UDPProxy \<Rightarrow> UDPAddr \<Rightarrow> string \<Rightarrow> unit res \<Rightarrow> nat res list \<Rightarrow> UDPProxy option" where
  "handle_datagram p from data dial writes =
     (case newConnTrackKey from of
        None \<Rightarrow> None
      | Some key \<Rightarrow>
          (case map_of (connTrackTable p) key of
             Some c \<Rightarrow> Some (p\<lparr>toBackend := toBackend p @ map (Pair c) (fst (write_loop writes data))\<rparr>)
           | None \<Rightarrow>
               (case dial of
                  Inl e \<Rightarrow> Some p
                | Inr _ \<Rightarrow>
                    let c = nextConn p in
                    Some (p\<lparr>connTrackTable := map_put key c (connTrackTable p), loops := map_put c from (loops p),
                            nextConn := c + 1,
                            toBackend := toBackend p @ map (Pair c) (fst (write_loop writes data))\<rparr>))))"

text \<open>The deferred function of \<^verbatim>\<open>replyLoop\<close>.\<close>

definition reply_exit :: "UDPProxy \<Rightarrow> nat \<Rightarrow> UDPAddr \<Rightarrow> UDPProxy" where
  "reply_exit p c clientAddr =
     (case newConnTrackKey clientAddr of
        None \<Rightarrow> p
      | Some clientKey \<Rightarrow>
          p\<lparr>connTrackTable := map_del clientKey (connTrackTable p), loops := map_del c (loops p),
            closedConns := insert c (closedConns p)\<rparr>)"

definition ECONNREFUSED :: err where
  "ECONNREFUSED = Sys ''connection refused''"

text \<open>One read of \<^verbatim>\<open>replyLoop\<close> on connection \<open>c\<close>, and the write loop to the client.\<close>

definition reply_round :: "UDPProxy \<Rightarrow> nat \<Rightarrow> UDPAddr \<Rightarrow> string res \<Rightarrow> nat res list \<Rightarrow> UDPProxy" where
  "reply_round p c clientAddr read writes =
     (case read of
        Inl e \<Rightarrow> if e = ECONNREFUSED then p else reply_exit p c clientAddr
      | Inr data \<Rightarrow>
          (case write_loop writes data of
             (ps, ok) \<Rightarrow>
               let p' = p\<lparr>toClient := toClient p @ map (Pair clientAddr) ps\<rparr> in
               if ok then p' else reply_exit p' c clientAddr))"

definition Close :: "UDPProxy \<Rightarrow> UDPProxy" where
  "Close p = p\<lparr>listening := False, closedConns := closedConns p \<union> set (map snd (connTrackTable p))\<rparr>"

definition isClosedError :: "err \<Rightarrow> bool" where
  "isClosedError e \<longleftrightarrow> HasSuffix (err_text e) ''use of closed network connection''"

section \<open>Interleaving\<close>

inductive step :: "UDPProxy \<Rightarrow> UDPProxy \<Rightarrow> bool" where
  datagram: "listening p \<Longrightarrow> handle_datagram p from data dial writes = Some p' \<Longrightarrow> step p p'"
| reply: "map_of (loops p) c = Some a \<Longrightarrow> c \<notin> closedConns p \<Longrightarrow> step p (reply_round p c a read writes)"
| read_closed: "map_of (loops p) c = Some a \<Longrightarrow> c \<in> closedConns p \<Longrightarrow> step p (reply_exit p c a)"
| close: "step p (Close p)"

inductive reachable :: "UDPProxy \<Rightarrow> bool" where
  start: "reachable new_proxy"
| more: "reachable p \<Longrightarrow> step p p' \<Longrightarrow> reachable p'"

text \<open>
  The table and the reply loops belong together: every tracked connection has one loop, which
  serves the client under whose key it is stored.
\<close>

definition proxy_inv :: "UDPProxy \<Rightarrow> bool" where
  "proxy_inv p \<longleftrightarrow> wf_map (connTrackTable p) \<and> wf_map (loops p) \<and>
     (\<forall>c a. map_of (loops p) c = Some a \<longrightarrow> c < nextConn p \<and>
        (\<exists>k. newConnTrackKey a = Some k \<and> map_of (connTrackTable p) k = Some c)) \<and>
     (\<forall>k c. map_of (connTrackTable p) k = Some c \<longrightarrow>
        (\<exists>a. map_of (loops p) c = Some a \<and> newConnTrackKey a = Some k))"

lemma proxy_inv_loop: "proxy_inv p \<Longrightarrow> map_of (loops p) c = Some a \<Longrightarrow>
  c < nextConn p \<and> (\<exists>k. newConnTrackKey a = Some k \<and> map_of (connTrackTable p) k = Some c)"
  unfolding proxy_inv_def by blast

lemma proxy_inv_table: "proxy_inv p \<Longrightarrow> map_of (connTrackTable p) k = Some c \<Longrightarrow>
  \<exists>a. map_of (loops p) c = Some a \<and> newConnTrackKey a = Some k"
  unfolding proxy_inv_def by blast

lemma inv_datagram:
  assumes "proxy_inv p" and "handle_datagram p from data dial writes = Some p'"
  shows "proxy_inv p'"
proof -
  obtain key where key: "newConnTrackKey from = Some key"
    using assms(2) by (auto simp: handle_datagram_def split: option.splits)
  show ?thesis
  proof (cases "map_of (connTrackTable p) key = None \<and> isl dial = False")
    case False
    then have "connTrackTable p' = connTrackTable p \<and> loops p' = loops p \<and> nextConn p' = nextConn p"
      using assms(2) key by (auto simp: handle_datagram_def split: option.splits sum.splits)
    with assms(1) show ?thesis by (simp add: proxy_inv_def)
  next
    case True
    then have p': "connTrackTable p' = map_put key (nextConn p) (connTrackTable p)"
      "loops p' = map_put (nextConn p) from (loops p)" "nextConn p' = nextConn p + 1"
      using assms(2) key by (auto simp: handle_datagram_def Let_def split: option.splits sum.splits)
    have fresh: "map_of (loops p) (nextConn p) = None"
      using proxy_inv_loop [OF assms(1), of "nextConn p"] by (cases "map_of (loops p) (nextConn p)") auto
    have loop: "map_of (connTrackTable p) k = Some c \<Longrightarrow> c \<noteq> nextConn p" for k c
      using proxy_inv_table [OF assms(1), of k c] fresh by auto
    show ?thesis unfolding proxy_inv_def p'
    proof (intro conjI allI impI)
      show "wf_map (map_put key (nextConn p) (connTrackTable p))" "wf_map (map_put (nextConn p) from (loops p))"
        using assms(1) by (simp_all add: proxy_inv_def)
    next
      fix c a
      assume *: "map_of (map_put (nextConn p) from (loops p)) c = Some a"
      then show "c < nextConn p + 1"
        using proxy_inv_loop [OF assms(1), of c a] by (auto split: if_splits)
      show "\<exists>k. newConnTrackKey a = Some k \<and> map_of (map_put key (nextConn p) (connTrackTable p)) k = Some c"
        using * key True proxy_inv_loop [OF assms(1), of c a] by (cases "c = nextConn p") fastforce+
    next
      fix k c
      assume "map_of (map_put key (nextConn p) (connTrackTable p)) k = Some c"
      then show "\<exists>a. map_of (map_put (nextConn p) from (loops p)) c = Some a \<and> newConnTrackKey a = Some k"
        using key loop [of k c] proxy_inv_table [OF assms(1), of k c] by (auto split: if_splits)
    qed
  qed
qed

lemma inv_exit:
  assumes "proxy_inv p" and "map_of (loops p) c = Some a"
  shows "proxy_inv (reply_exit p c a)"
proof -
  obtain k where k: "newConnTrackKey a = Some k" "map_of (connTrackTable p) k = Some c"
    using proxy_inv_loop [OF assms] by auto
  have p': "connTrackTable (reply_exit p c a) = map_del k (connTrackTable p)"
    "loops (reply_exit p c a) = map_del c (loops p)" "nextConn (reply_exit p c a) = nextConn p"
    using k(1) by (simp_all add: reply_exit_def)
  show ?thesis unfolding proxy_inv_def p'
  proof (intro conjI allI impI)
    show "wf_map (map_del k (connTrackTable p))" "wf_map (map_del c (loops p))"
      using assms(1) by (simp_all add: proxy_inv_def)
  next
    fix d b
    assume *: "map_of (map_del c (loops p)) d = Some b"
    then have d: "d \<noteq> c" "map_of (loops p) d = Some b" by (auto split: if_splits)
    then show "d < nextConn p" using proxy_inv_loop [OF assms(1)] by blast
    show "\<exists>k'. newConnTrackKey b = Some k' \<and> map_of (map_del k (connTrackTable p)) k' = Some d"
      using proxy_inv_loop [OF assms(1) d(2)] d(1) k(2) by fastforce
  next
    fix k' d
    assume "map_of (map_del k (connTrackTable p)) k' = Some d"
    then have d: "k' \<noteq> k" "map_of (connTrackTable p) k' = Some d" by (auto split: if_splits)
    then obtain b where "map_of (loops p) d = Some b" "newConnTrackKey b = Some k'"
      using proxy_inv_table [OF assms(1)] by blast
    moreover have "d \<noteq> c" using calculation d(1) k(1) assms(2) by auto
    ultimately show "\<exists>b. map_of (map_del c (loops p)) d = Some b \<and> newConnTrackKey b = Some k'" by auto
  qed
qed

lemma inv_reply:
  assumes "proxy_inv p" and "map_of (loops p) c = Some a"
  shows "proxy_inv (reply_round p c a read writes)"
proof -
  have q: "proxy_inv (p\<lparr>toClient := xs\<rparr>)" "map_of (loops (p\<lparr>toClient := xs\<rparr>)) c = Some a" for xs
    using assms by (simp_all add: proxy_inv_def)
  show ?thesis
    using assms(1) inv_exit [OF assms] inv_exit [OF q] q(1)
    by (auto simp: reply_round_def Let_def split: sum.splits prod.splits)
qed

lemma proxy_inv_step: "step p p' \<Longrightarrow> proxy_inv p \<Longrightarrow> proxy_inv p'"
proof (induction rule: step.induct)
  case (datagram p a data dial writes p')
  then show ?case using inv_datagram by blast
next
  case (reply p c a read writes)
  then show ?case using inv_reply by blast
next
  case (read_closed p c a)
  then show ?case using inv_exit by blast
next
  case (close p)
  then show ?case by (simp add: proxy_inv_def Close_def)
qed

lemma proxy_inv_reachable: "reachable p \<Longrightarrow> proxy_inv p"
proof (induction rule: reachable.induct)
  case start
  show ?case by (simp add: proxy_inv_def new_proxy_def)
next
  case (more p p')
  then show ?case using proxy_inv_step by blast
qed

section \<open>Properties\<close>



text \<open>The key of a client identifies it. Two clients of the same address family with the same
  key have the same address and port, and every address that the kernel reports (4 or 16
  bytes) has a key, so that the proxy does not panic.\<close>

theorem newConnTrackKey_inj:
  assumes "length (ua_IP a) = length (ua_IP b)" and "length (ua_IP a) = 4 \<or> length (ua_IP a) = 16"
  shows "newConnTrackKey a \<noteq> None \<and> (newConnTrackKey a = newConnTrackKey b \<longrightarrow> a = b)"
proof -
  have inj: "x = y" if "length x = length y" "be_uint32 x = be_uint32 y" for x y :: IP
    by (metis be_words_be_uint32 that)
  show ?thesis
  proof (cases "length (ua_IP a) = 4")
    case True
    with assms inj [of "ua_IP a" "ua_IP b"] show ?thesis
      by (cases a; cases b) (auto simp: newConnTrackKey_def Let_def)
  next
    case False
    have "ua_IP a = take 8 (ua_IP a) @ take 8 (drop 8 (ua_IP a))" "ua_IP b = take 8 (ua_IP b) @ take 8 (drop 8 (ua_IP b))"
      using False assms by (simp_all add: take_drop [symmetric])
    then have "take 8 (ua_IP a) = take 8 (ua_IP b) \<Longrightarrow> take 8 (drop 8 (ua_IP a)) = take 8 (drop 8 (ua_IP b)) \<Longrightarrow> ua_IP a = ua_IP b"
      by metis
    then show ?thesis
      using False assms inj [of "take 8 (ua_IP a)" "take 8 (ua_IP b)"]
        inj [of "take 8 (drop 8 (ua_IP a))" "take 8 (drop 8 (ua_IP b))"]
      by (cases a; cases b) (auto simp: newConnTrackKey_def Let_def)
  qed
qed

theorem newConnTrackKey_inj_witness:
  "newConnTrackKey \<lparr>ua_IP = [192, 0, 2, 1], ua_Port = 1\<rparr> \<noteq> newConnTrackKey \<lparr>ua_IP = [192, 0, 2, 2], ua_Port = 1\<rparr>"
  using newConnTrackKey_inj [of "\<lparr>ua_IP = [192, 0, 2, 1], ua_Port = 1\<rparr>" "\<lparr>ua_IP = [192, 0, 2, 2], ua_Port = 1\<rparr>"] by auto

lemma write_loop_prefix: "write_loop rs data = (ps, ok) \<Longrightarrow> \<exists>r. data = concat ps @ r \<and> (ok \<longrightarrow> r = [])"
proof (induction rs data arbitrary: ps ok rule: write_loop.induct)
  case (4 n rs c data)
  obtain qs where q: "write_loop rs (drop n (c # data)) = (qs, ok)" "ps = take n (c # data) # qs"
    using 4(2) by (auto split: prod.splits)
  obtain r where "drop n (c # data) = concat qs @ r" "ok \<longrightarrow> r = []" using 4(1) [OF q(1)] by auto
  with q(2) show ?case by (metis append.assoc append_take_drop_id concat.simps(2))
qed auto

text \<open>Forwarding of one datagram. What the proxy hands to the backend is, in order, a prefix of
  the datagram, on the connection of its client; when no write fails it is the whole
  datagram. A failed dial drops the datagram and changes nothing.\<close>

theorem handle_datagram_forwards:
  assumes "handle_datagram p from data dial writes = Some p'"
  shows "p' = p \<and> isl dial \<or>
    (\<exists>k c ps r. newConnTrackKey from = Some k \<and> map_of (connTrackTable p') k = Some c \<and>
       toBackend p' = toBackend p @ map (Pair c) ps \<and> data = concat ps @ r \<and>
       (snd (write_loop writes data) \<longrightarrow> r = []) \<and>
       (map_of (connTrackTable p) k \<noteq> None \<longrightarrow> map_of (connTrackTable p) k = Some c))"
proof -
  obtain k where k: "newConnTrackKey from = Some k"
    using assms by (auto simp: handle_datagram_def split: option.splits)
  obtain ps ok where w: "write_loop writes data = (ps, ok)" by fastforce
  obtain r where r: "data = concat ps @ r" "ok \<longrightarrow> r = []" using write_loop_prefix [OF w] by auto
  show ?thesis
  proof (cases "map_of (connTrackTable p) k")
    case (Some c)
    with assms k w have "p' = p\<lparr>toBackend := toBackend p @ map (Pair c) ps\<rparr>"
      by (simp add: handle_datagram_def)
    with Some k r w show ?thesis by auto
  next
    case None
    show ?thesis
    proof (cases dial)
      case (Inl e)
      with None assms k show ?thesis by (simp add: handle_datagram_def)
    next
      case (Inr u)
      with None assms k w have "map_of (connTrackTable p') k = Some (nextConn p)"
        "toBackend p' = toBackend p @ map (Pair (nextConn p)) ps"
        by (auto simp: handle_datagram_def Let_def)
      with None k r w show ?thesis by (metis snd_conv)
    qed
  qed
qed

theorem handle_datagram_forwards_witness:
  "toBackend (the (handle_datagram new_proxy \<lparr>ua_IP = [192, 0, 2, 1], ua_Port = 5000\<rparr> ''xyz'' (Inr ()) [Inr 2, Inr 1])) =
     [(0, ''xy''), (0, ''z'')] \<and> concat [''xy'', ''z''] = ''xyz''"
proof -
  let ?a = "\<lparr>ua_IP = [192, 0, 2, 1], ua_Port = 5000\<rparr>"
  let ?p = "the (handle_datagram new_proxy ?a ''xyz'' (Inr ()) [Inr 2, Inr 1])"
  have h: "handle_datagram new_proxy ?a ''xyz'' (Inr ()) [Inr 2, Inr 1] = Some ?p"
    and t: "toBackend ?p = [(0, ''xy''), (0, ''z'')]"
    by (simp_all add: handle_datagram_def newConnTrackKey_def new_proxy_def be_uint32_def Let_def)
  from handle_datagram_forwards [OF h] t show ?thesis by simp
qed

end
