(* ===== verification/Port_Loops.thy ===== *)
theory Port_Loops
  imports Udp_Proxy Builtin_Parent
begin

text \<open>
  Two more goroutine pairs of the builtin port driver: \<^verbatim>\<open>pkg/port/builtin/parent/udp\<close>, which runs
  the UDP proxy until the port is removed, and the accept loop of the child driver
  (\<^verbatim>\<open>pkg/port/builtin/child\<close>), which ends when the child process shuts down.
\<close>

section \<open>The UDP listener\<close>

text \<open>
  \<^verbatim>\<open>BackendDial\<close>: \<open>attempt\<close> are the results of the calls to the child, \<open>file_conn\<close> the result of
  \<^verbatim>\<open>net.FileConn\<close>, true for a UDP connection. With the result the resources opened and
  those closed again.
\<close>

datatype dial_resource = Dial_file | Dial_conn

definition BackendDial :: "(int \<Rightarrow> int res) \<Rightarrow> (int \<Rightarrow> bool res) \<Rightarrow> unit res \<times> dial_resource list \<times> dial_resource list" where
  "BackendDial attempt file_conn =
     (case fst (ConnectToChildWithRetry attempt 10) of
        Inl e \<Rightarrow> (Inl e, [], [])
      | Inr fd \<Rightarrow>
          (case file_conn fd of
             Inl e \<Rightarrow> (Inl e, [Dial_file], [Dial_file])
           | Inr isUDP \<Rightarrow>
               (if isUDP then (Inr (), [Dial_file, Dial_conn], [Dial_file])
                else (Inl (New ''file conn doesn't implement *net.UDPConn''), [Dial_file, Dial_conn], [Dial_file]))))"

datatype stopper = Stop_waiting | Stop_sending | Stop_over

record udp_listener =
  ul_proxy :: UDPProxy
  ul_stopper :: stopper
  ul_stopCh :: bool
  ul_stoppedCh :: "unit res list"

definition udp_start :: udp_listener where
  "udp_start = \<lparr>ul_proxy = new_proxy, ul_stopper = Stop_waiting, ul_stopCh = False, ul_stoppedCh = []\<rparr>"

inductive udp_step :: "udp_listener \<Rightarrow> udp_listener \<Rightarrow> bool" where
  proxy: "Udp_Proxy.step (ul_proxy s) p \<Longrightarrow> listening p = listening (ul_proxy s) \<Longrightarrow> udp_step s (s\<lparr>ul_proxy := p\<rparr>)"
| close_stopCh: "udp_step s (s\<lparr>ul_stopCh := True\<rparr>)"
| stop: "ul_stopper s = Stop_waiting \<Longrightarrow> ul_stopCh s \<Longrightarrow>
     udp_step s (s\<lparr>ul_proxy := Close (ul_proxy s), ul_stopper := Stop_sending\<rparr>)"
| receive: "ul_stopper s = Stop_sending \<Longrightarrow>
     udp_step s (s\<lparr>ul_stopper := Stop_over, ul_stoppedCh := ul_stoppedCh s @ [Inr ()]\<rparr>)"

inductive udp_reach :: "udp_listener \<Rightarrow> bool" where
  start: "udp_reach udp_start"
| more: "udp_reach s \<Longrightarrow> udp_step s s' \<Longrightarrow> udp_reach s'"

definition udp_inv :: "udp_listener \<Rightarrow> bool" where
  "udp_inv s \<longleftrightarrow> Udp_Proxy.reachable (ul_proxy s) \<and> (listening (ul_proxy s) \<longleftrightarrow> ul_stopper s = Stop_waiting) \<and>
     (ul_stopper s \<noteq> Stop_waiting \<longrightarrow> ul_stopCh s) \<and> ul_stoppedCh s = (if ul_stopper s = Stop_over then [Inr ()] else [])"

lemma udp_inv_step: "udp_step s s' \<Longrightarrow> udp_inv s \<Longrightarrow> udp_inv s'"
proof (induction rule: udp_step.induct)
  case (stop s)
  then show ?case using Udp_Proxy.reachable.more [OF _ Udp_Proxy.step.close]
    by (auto simp: udp_inv_def Close_def)
qed (auto simp: udp_inv_def intro: Udp_Proxy.reachable.more)

lemma udp_inv_reach: "udp_reach s \<Longrightarrow> udp_inv s"
proof (induction rule: udp_reach.induct)
  case start
  show ?case by (simp add: udp_inv_def udp_start_def new_proxy_def [symmetric] Udp_Proxy.reachable.start)
    (simp add: new_proxy_def)
qed (rule udp_inv_step)

text \<open>The removal of a UDP port. The driver is told that the port is gone exactly once, always
  with success, only after it asked for it and after the proxy has closed its socket and
  every connection it tracked at that moment.\<close>

theorem udp_stop:
  assumes "udp_reach s"
  shows "ul_stoppedCh s \<in> {[], [Inr ()]} \<and> (ul_stoppedCh s \<noteq> [] \<longrightarrow> ul_stopCh s \<and> \<not> listening (ul_proxy s)) \<and>
    (listening (ul_proxy s) \<longleftrightarrow> ul_stopper s = Stop_waiting)"
  using udp_inv_reach [OF assms] by (auto simp: udp_inv_def split: if_splits)

section \<open>The accept loop of the child driver\<close>

text \<open>
  When \<^verbatim>\<open>quit\<close> is closed a goroutine first puts a token into \<^verbatim>\<open>stopAccept\<close> (which has room for
  it) and then closes the listener. \<open>ca_broken\<close> records a failure of the listener of its own.
\<close>

datatype closer = Quit_waiting | Token_sent | Listener_closed

datatype accept_loop = Accept_waiting | Accept_returned "unit res"

record child_accept =
  ca_quit :: bool
  ca_closer :: closer
  ca_token :: bool
  ca_loop :: accept_loop
  ca_routines :: nat
  ca_broken :: bool

definition child_accept_start :: child_accept where
  "child_accept_start = \<lparr>ca_quit = False, ca_closer = Quit_waiting, ca_token = False, ca_loop = Accept_waiting, ca_routines = 0,
     ca_broken = False\<rparr>"

text \<open>What the loop does with the error of \<^verbatim>\<open>AcceptUnix\<close>.\<close>

definition accept_failed :: "err \<Rightarrow> child_accept \<Rightarrow> child_accept" where
  "accept_failed e s =
     (if ca_token s then s\<lparr>ca_token := False, ca_loop := Accept_returned (Inr ())\<rparr>
      else s\<lparr>ca_loop := Accept_returned (Inl e)\<rparr>)"

inductive child_accept_step :: "child_accept \<Rightarrow> child_accept \<Rightarrow> bool" where
  quit: "child_accept_step s (s\<lparr>ca_quit := True\<rparr>)"
| token: "ca_quit s \<Longrightarrow> ca_closer s = Quit_waiting \<Longrightarrow> child_accept_step s (s\<lparr>ca_closer := Token_sent, ca_token := True\<rparr>)"
| close: "ca_closer s = Token_sent \<Longrightarrow> child_accept_step s (s\<lparr>ca_closer := Listener_closed\<rparr>)"
| conn: "ca_loop s = Accept_waiting \<Longrightarrow> ca_closer s \<noteq> Listener_closed \<Longrightarrow> \<not> ca_broken s \<Longrightarrow>
     child_accept_step s (s\<lparr>ca_routines := ca_routines s + 1\<rparr>)"
| breaks: "child_accept_step s (s\<lparr>ca_broken := True\<rparr>)"
| err: "ca_loop s = Accept_waiting \<Longrightarrow> ca_closer s = Listener_closed \<or> ca_broken s \<Longrightarrow> child_accept_step s (accept_failed e s)"

inductive child_accept_reach :: "child_accept \<Rightarrow> bool" where
  start: "child_accept_reach child_accept_start"
| more: "child_accept_reach s \<Longrightarrow> child_accept_step s s' \<Longrightarrow> child_accept_reach s'"

definition child_accept_inv :: "child_accept \<Rightarrow> bool" where
  "child_accept_inv s \<longleftrightarrow>
     (ca_loop s = Accept_waiting \<longrightarrow> (ca_token s \<longleftrightarrow> ca_closer s \<noteq> Quit_waiting)) \<and>
     (ca_closer s \<noteq> Quit_waiting \<longrightarrow> ca_quit s) \<and>
     (\<forall>e. ca_loop s = Accept_returned (Inl e) \<longrightarrow> ca_broken s) \<and>
     (ca_loop s = Accept_returned (Inr ()) \<longrightarrow> ca_quit s)"

lemma child_accept_inv_step: "child_accept_step s s' \<Longrightarrow> child_accept_inv s \<Longrightarrow> child_accept_inv s'"
  by (induction rule: child_accept_step.induct) (auto simp: child_accept_inv_def accept_failed_def)

lemma child_accept_inv_reach: "child_accept_reach s \<Longrightarrow> child_accept_inv s"
proof (induction rule: child_accept_reach.induct)
  case start
  show ?case by (simp add: child_accept_inv_def child_accept_start_def)
qed (rule child_accept_inv_step)

text \<open>The accept loop of the child driver returns nil only when it was told to quit, and it returns
  an error only when the listener failed of its own: the error that closing the listener
  causes is never reported, because the token is sent before the listener is closed.\<close>

theorem child_accept_result:
  assumes "child_accept_reach s" and "ca_loop s = Accept_returned r"
  shows "case r of Inr _ \<Rightarrow> ca_quit s | Inl e \<Rightarrow> ca_broken s"
  using child_accept_inv_reach [OF assms(1)] assms(2) by (auto simp: child_accept_inv_def split: sum.splits)

end
