(* ===== verification/Net_Loops.thy ===== *)
theory Net_Loops
  imports Network "HOL-Library.Sublist"
begin

text \<open>
  The goroutines that two network drivers leave running in the child: the pumps of vpnkit
  between the TAP device and the virtual interface, and the renewal of the DHCP lease of
  lxc-user-nic. A pump gets the results of its successive reads and writes; when they run
  out it waits in the next call.
\<close>

section \<open>The pumps of vpnkit\<close>

definition io_EOF :: err where
  "io_EOF = Sys ''EOF''"

datatype pump_end = Pump_returned | Pump_panicked err | Pump_waiting

definition pump_error :: "string \<Rightarrow> err \<Rightarrow> pump_end" where
  "pump_error what e = (if errors_Is e io_EOF then Pump_returned else Pump_panicked (Wrapf (what @ '': %w'') [] e))"

text \<open>A read of the TAP device returns one frame, cut at the size of the buffer.\<close>

fun tap2vif :: "string res list \<Rightarrow> unit res list \<Rightarrow> string list \<times> pump_end" where
  "tap2vif [] ws = ([], Pump_waiting)"
| "tap2vif (Inl e # rs) ws = ([], pump_error ''tap2vif: read'' e)"
| "tap2vif (Inr b # rs) [] = ([], Pump_waiting)"
| "tap2vif (Inr b # rs) (Inl e # ws) = ([], pump_error ''tap2vif: write'' e)"
| "tap2vif (Inr b # rs) (Inr u # ws) = (case tap2vif rs ws of (fs, en) \<Rightarrow> (take 65536 b # fs, en))"

fun vif2tap :: "string res list \<Rightarrow> unit res list \<Rightarrow> string list \<times> pump_end" where
  "vif2tap [] ws = ([], Pump_waiting)"
| "vif2tap (Inl e # rs) ws = ([], pump_error ''vif2tap: read'' e)"
| "vif2tap (Inr b # rs) [] = ([], Pump_waiting)"
| "vif2tap (Inr b # rs) (Inl e # ws) = ([], pump_error ''vif2tap: write'' e)"
| "vif2tap (Inr b # rs) (Inr u # ws) = (case vif2tap rs ws of (fs, en) \<Rightarrow> (b # fs, en))"

text \<open>The frames that were read before the first error.\<close>

definition frames :: "string res list \<Rightarrow> string list" where
  "frames rs = map projr (takeWhile (\<lambda>r. \<not> isl r) rs)"

lemma frames_simps [simp]: "frames [] = []" "frames (Inl e # rs) = []" "frames (Inr b # rs) = b # frames rs"
  by (simp_all add: frames_def)

lemma vif2tap_prefix: "prefix (fst (vif2tap rs ws)) (frames rs)"
  by (induction rs ws rule: vif2tap.induct) (auto split: prod.splits)

lemma tap2vif_prefix: "prefix (fst (tap2vif rs ws)) (map (take 65536) (frames rs))"
  by (induction rs ws rule: tap2vif.induct) (auto split: prod.splits)

lemma pump_error_panic: "pump_error what e = Pump_panicked e' \<longleftrightarrow> \<not> errors_Is e io_EOF \<and> e' = Wrapf (what @ '': %w'') [] e"
  by (auto simp: pump_error_def)

lemma tap2vif_complete:
  "snd (tap2vif rs ws) = Pump_waiting \<Longrightarrow> length rs \<le> length ws \<Longrightarrow> fst (tap2vif rs ws) = map (take 65536) (frames rs)"
  by (induction rs ws rule: tap2vif.induct) (auto simp: pump_error_def split: prod.splits if_splits)

lemma vif2tap_complete:
  "snd (vif2tap rs ws) = Pump_waiting \<Longrightarrow> length rs \<le> length ws \<Longrightarrow> fst (vif2tap rs ws) = frames rs"
  by (induction rs ws rule: vif2tap.induct) (auto simp: pump_error_def split: prod.splits if_splits)

text \<open>The pumps of vpnkit. Each direction hands on the frames in the order in which they were
  read and never one that was not read; frames that fit into the buffer arrive unchanged;
  and as long as no call fails and the pump has caught up with its writes, all of them
  have been handed on.\<close>

theorem vpnkit_pumps:
  "prefix (fst (vif2tap rs ws)) (frames rs)"
  "prefix (fst (tap2vif rs ws)) (map (take 65536) (frames rs))"
  "(\<forall>b\<in>set (frames rs). length b \<le> 65536) \<Longrightarrow> snd (tap2vif rs ws) = Pump_waiting \<Longrightarrow> length rs \<le> length ws \<Longrightarrow>
     fst (tap2vif rs ws) = frames rs"
  by (rule vif2tap_prefix, rule tap2vif_prefix) (simp add: tap2vif_complete map_idI)

section \<open>The renewal of the DHCP lease\<close>

text \<open>
  The lease is a duration in nanoseconds; \<open>lease_time\<close> is the option of a packet with its default,
  \<open>nine_tenths\<close> the product with the floating-point number 0.9. The loop runs as long as leases
  are positive: \<open>k\<close> bounds the number of renewals, and \<open>n\<close> the retries of an exchange. A panic
  is an error.
\<close>

fun dhcpRenewRoutine ::
  "(ans \<Rightarrow> dhcp_packet list) \<Rightarrow> (dhcp_packet \<Rightarrow> int \<Rightarrow> int) \<Rightarrow> (int \<Rightarrow> int) \<Rightarrow> nat \<Rightarrow> nat \<Rightarrow> string \<Rightarrow> IP \<Rightarrow> int \<Rightarrow> string \<Rightarrow>
   unit res option prog" where
  "dhcpRenewRoutine decode lease_time nine_tenths n 0 dev initialIP lease detachedNetNSPath = Ret None"
| "dhcpRenewRoutine decode lease_time nine_tenths n (Suc k) dev initialIP lease detachedNetNSPath =
     (if lease \<le> 0 then Ret (Some (Inr ()))
      else
        ignore (sys_unit (Sleep (nine_tenths lease)))
         (pbind (exchangeDHCP decode n dev detachedNetNSPath) (\<lambda>r.
          case r of
            Inl e \<Rightarrow> Ret (Some (Inl (go_panic (err_text e))))
          | Inr p \<Rightarrow>
              (let ip = To4 (dp_YourIPAddr p) in
               if \<not> IP_Equal ip initialIP
               then Ret (Some (Inl (go_panic (''expected to retain '' @ IP_String initialIP @ '', got '' @ IP_String ip))))
               else dhcpRenewRoutine decode lease_time nine_tenths n k dev initialIP (lease_time p lease) detachedNetNSPath))))"

lemma exchangeDHCP_silent: "only csilent (exchangeDHCP decode n dev ns)"
  unfolding exchangeDHCP_def by (auto intro!: only_combinators with_netns_silent dhcp_exchange_silent split: list.splits)

text \<open>The renewal runs beside the handshake and the command: it uses none of the pipes.\<close>

lemma dhcpRenewRoutine_silent: "only csilent (dhcpRenewRoutine decode lt nt n k dev ip lease ns)"
  by (induction k arbitrary: lease)
    (auto intro!: only_combinators exchangeDHCP_silent simp: Let_def split: sum.splits)

end
