(* ===== verification/Sigproxy.thy ===== *)
theory Sigproxy
  imports Go_Strings "HOL-Library.Sublist"
begin

text \<open>
  \<^verbatim>\<open>pkg/sigproxy\<close>: the forwarding of signals from the parent process to the child and from the
  child to the command. \<^verbatim>\<open>os/signal\<close> puts a caught signal into the channel unless the channel
  is full; a goroutine takes the signals out and sends them on with \<^verbatim>\<open>kill\<close>. Signals are
  numbers, as on every Linux platform but MIPS.
\<close>

definition sigrtmin :: int where "sigrtmin = 34"
definition sigrtmax :: int where "sigrtmax = 64"

definition SignalMap :: "(string \<times> int) list" where
  "SignalMap =
    [(''ABRT'', 6), (''ALRM'', 14), (''BUS'', 7), (''CHLD'', 17), (''CLD'', 17), (''CONT'', 18),
      (''FPE'', 8), (''HUP'', 1), (''ILL'', 4), (''INT'', 2), (''IO'', 29), (''IOT'', 6), (''KILL'', 9),
      (''PIPE'', 13), (''POLL'', 29), (''PROF'', 27), (''PWR'', 30), (''QUIT'', 3), (''SEGV'', 11),
      (''STKFLT'', 16), (''STOP'', 19), (''SYS'', 31), (''TERM'', 15), (''TRAP'', 5), (''TSTP'', 20),
      (''TTIN'', 21), (''TTOU'', 22), (''URG'', 23), (''USR1'', 10), (''USR2'', 12), (''VTALRM'', 26),
      (''WINCH'', 28), (''XCPU'', 24), (''XFSZ'', 25), (''RTMIN'', sigrtmin), (''RTMIN+1'', sigrtmin + 1),
      (''RTMIN+2'', sigrtmin + 2), (''RTMIN+3'', sigrtmin + 3), (''RTMIN+4'', sigrtmin + 4),
      (''RTMIN+5'', sigrtmin + 5), (''RTMIN+6'', sigrtmin + 6), (''RTMIN+7'', sigrtmin + 7),
      (''RTMIN+8'', sigrtmin + 8), (''RTMIN+9'', sigrtmin + 9), (''RTMIN+10'', sigrtmin + 10),
      (''RTMIN+11'', sigrtmin + 11), (''RTMIN+12'', sigrtmin + 12), (''RTMIN+13'', sigrtmin + 13),
      (''RTMIN+14'', sigrtmin + 14), (''RTMIN+15'', sigrtmin + 15), (''RTMAX-14'', sigrtmax - 14),
      (''RTMAX-13'', sigrtmax - 13), (''RTMAX-12'', sigrtmax - 12), (''RTMAX-11'', sigrtmax - 11),
      (''RTMAX-10'', sigrtmax - 10), (''RTMAX-9'', sigrtmax - 9), (''RTMAX-8'', sigrtmax - 8),
      (''RTMAX-7'', sigrtmax - 7), (''RTMAX-6'', sigrtmax - 6), (''RTMAX-5'', sigrtmax - 5),
      (''RTMAX-4'', sigrtmax - 4), (''RTMAX-3'', sigrtmax - 3), (''RTMAX-2'', sigrtmax - 2),
      (''RTMAX-1'', sigrtmax - 1), (''RTMAX'', sigrtmax)]"

definition SIGPIPE :: int where "SIGPIPE = 13"
definition SIGCHLD :: int where "SIGCHLD = 17"
definition SIGURG :: int where "SIGURG = 23"

text \<open>The signals \<open>CatchAll\<close> asks for; KILL and STOP cannot be caught, asking for them has no effect.\<close>

definition CatchAll :: "int set" where
  "CatchAll = snd ` set SignalMap"

definition catchable :: "int \<Rightarrow> bool" where
  "catchable s \<longleftrightarrow> s \<in> CatchAll \<and> s \<noteq> 9 \<and> s \<noteq> 19"

text \<open>
  The channel (with room for 128 signals), whether it is still open, the signals that arrived
  while it was, those dropped because it was full, and the signals sent on with \<^verbatim>\<open>kill\<close>,
  whatever \<^verbatim>\<open>kill\<close> returned.
\<close>

record sigproxy =
  sigc :: "int list"
  sigc_open :: bool
  arrived :: "int list"
  dropped :: nat
  killed :: "int list"

definition sigc_cap :: nat where
  "sigc_cap = 128"

definition ForwardAllSignals :: sigproxy where
  "ForwardAllSignals = \<lparr>sigc = [], sigc_open = True, arrived = [], dropped = 0, killed = []\<rparr>"

definition forwards :: "int \<Rightarrow> bool" where
  "forwards s \<longleftrightarrow> \<not> (s = SIGCHLD \<or> s = SIGPIPE \<or> s = SIGURG)"

definition deliver :: "int \<Rightarrow> sigproxy \<Rightarrow> sigproxy" where
  "deliver s p =
     (if catchable s \<and> sigc_open p then
        (if length (sigc p) < sigc_cap then p\<lparr>sigc := sigc p @ [s], arrived := arrived p @ [s]\<rparr>
         else p\<lparr>arrived := arrived p @ [s], dropped := dropped p + 1\<rparr>)
      else p)"

text \<open>One round of the goroutine.\<close>

definition forward_one :: "sigproxy \<Rightarrow> sigproxy" where
  "forward_one p =
     (case sigc p of
        [] \<Rightarrow> p
      | s # ss \<Rightarrow> if forwards s then p\<lparr>sigc := ss, killed := killed p @ [s]\<rparr> else p\<lparr>sigc := ss\<rparr>)"

definition StopCatch :: "sigproxy \<Rightarrow> sigproxy" where
  "StopCatch p = p\<lparr>sigc_open := False\<rparr>"

inductive sig_reach :: "sigproxy \<Rightarrow> bool" where
  start: "sig_reach ForwardAllSignals"
| signal: "sig_reach p \<Longrightarrow> sig_reach (deliver s p)"
| forward: "sig_reach p \<Longrightarrow> sig_reach (forward_one p)"
| stop: "sig_reach p \<Longrightarrow> sig_reach (StopCatch p)"

text \<open>Every signal of Linux has an entry.\<close>

lemma SignalMap_complete: "CatchAll = {1 .. 31} \<union> {34 .. 64}"
proof -
  have "set (map snd SignalMap) = set ([1 .. 31] @ [34 .. 64])" by code_simp
  then show ?thesis unfolding CatchAll_def by (simp only: set_map set_append set_upto)
qed

lemma catchable_iff: "catchable s \<longleftrightarrow> s \<in> {1 .. 31} \<union> {34 .. 64} \<and> s \<noteq> 9 \<and> s \<noteq> 19"
  by (simp add: catchable_def SignalMap_complete)

definition sig_inv :: "sigproxy \<Rightarrow> bool" where
  "sig_inv p \<longleftrightarrow> length (sigc p) \<le> sigc_cap \<and> list_all catchable (arrived p) \<and>
     subseq (killed p @ filter forwards (sigc p)) (filter forwards (arrived p)) \<and>
     (dropped p = 0 \<longrightarrow> killed p @ filter forwards (sigc p) = filter forwards (arrived p))"

lemma subseq_snoc: "subseq xs ys \<Longrightarrow> subseq (xs @ [s]) (ys @ [s])"
  by simp

lemma subseq_members: "subseq xs ys \<Longrightarrow> set xs \<subseteq> set ys"
  by (induction rule: list_emb.induct) auto

lemma deliver_inv:
  assumes "sig_inv p"
  shows "sig_inv (deliver s p)"
proof -
  have "subseq ((killed p @ filter forwards (sigc p)) @ [s]) (filter forwards (arrived p) @ [s])"
    using assms by (simp only: sig_inv_def subseq_snoc)
  then show ?thesis using assms by (auto simp: sig_inv_def deliver_def)
qed

lemma sig_inv_reach: "sig_reach p \<Longrightarrow> sig_inv p"
proof (induction rule: sig_reach.induct)
  case start
  show ?case by (simp add: sig_inv_def ForwardAllSignals_def)
next
  case (signal p s)
  then show ?case by (simp add: deliver_inv)
next
  case (forward p)
  then show ?case by (cases "sigc p") (auto simp: sig_inv_def forward_one_def)
qed (simp add: sig_inv_def StopCatch_def)



section \<open>MIPS\<close>

text \<open>
  The table for MIPS (\<^verbatim>\<open>signal_linux_mipsx.go\<close>), where Linux numbers the signals otherwise and has real-time
  signals up to 127. The names go up from the first real-time signal and down from the last as on the other
  platforms, so the signals between 49 and 113 have no name.
\<close>

definition sigrtmin_mips :: int where "sigrtmin_mips = 34"
definition sigrtmax_mips :: int where "sigrtmax_mips = 127"

definition SignalMap_mips :: "(string \<times> int) list" where
  "SignalMap_mips =
    [(''ABRT'', 6), (''ALRM'', 14), (''BUS'', 10), (''CHLD'', 18), (''CLD'', 18), (''CONT'', 25), (''FPE'', 8),
      (''HUP'', 1), (''ILL'', 4), (''INT'', 2), (''IO'', 22), (''IOT'', 6), (''KILL'', 9), (''PIPE'', 13),
      (''POLL'', 22), (''PROF'', 29), (''PWR'', 19), (''QUIT'', 3), (''SEGV'', 11), (''EMT'', 7), (''STOP'', 23),
      (''SYS'', 12), (''TERM'', 15), (''TRAP'', 5), (''TSTP'', 24), (''TTIN'', 26), (''TTOU'', 27), (''URG'', 21),
      (''USR1'', 16), (''USR2'', 17), (''VTALRM'', 28), (''WINCH'', 20), (''XCPU'', 30), (''XFSZ'', 31),
      (''RTMIN'', sigrtmin_mips), (''RTMIN+1'', sigrtmin_mips + 1), (''RTMIN+2'', sigrtmin_mips + 2),
      (''RTMIN+3'', sigrtmin_mips + 3), (''RTMIN+4'', sigrtmin_mips + 4), (''RTMIN+5'', sigrtmin_mips + 5),
      (''RTMIN+6'', sigrtmin_mips + 6), (''RTMIN+7'', sigrtmin_mips + 7), (''RTMIN+8'', sigrtmin_mips + 8),
      (''RTMIN+9'', sigrtmin_mips + 9), (''RTMIN+10'', sigrtmin_mips + 10), (''RTMIN+11'', sigrtmin_mips + 11),
      (''RTMIN+12'', sigrtmin_mips + 12), (''RTMIN+13'', sigrtmin_mips + 13), (''RTMIN+14'', sigrtmin_mips + 14),
      (''RTMIN+15'', sigrtmin_mips + 15), (''RTMAX-14'', sigrtmax_mips - 14), (''RTMAX-13'', sigrtmax_mips - 13),
      (''RTMAX-12'', sigrtmax_mips - 12), (''RTMAX-11'', sigrtmax_mips - 11), (''RTMAX-10'', sigrtmax_mips - 10),
      (''RTMAX-9'', sigrtmax_mips - 9), (''RTMAX-8'', sigrtmax_mips - 8), (''RTMAX-7'', sigrtmax_mips - 7),
      (''RTMAX-6'', sigrtmax_mips - 6), (''RTMAX-5'', sigrtmax_mips - 5), (''RTMAX-4'', sigrtmax_mips - 4),
      (''RTMAX-3'', sigrtmax_mips - 3), (''RTMAX-2'', sigrtmax_mips - 2), (''RTMAX-1'', sigrtmax_mips - 1),
      (''RTMAX'', sigrtmax_mips)]"

text \<open>On MIPS \<open>CatchAll\<close> does not ask for the real-time signals 50 to 112.\<close>

lemma mips_signals: "snd ` set SignalMap_mips = {1 .. 31} \<union> {34 .. 49} \<union> {113 .. 127}"
proof -
  have "set (map snd SignalMap_mips) = set ([1 .. 31] @ [34 .. 49] @ [113 .. 127])" by code_simp
  then show ?thesis by (simp only: set_map set_append set_upto Un_assoc)
qed

text \<open>Apart from the numbers the two tables differ in one name: STKFLT is EMT on MIPS.\<close>

lemma mips_names: "map fst SignalMap_mips = map (\<lambda>n. if n = ''STKFLT'' then ''EMT'' else n) (map fst SignalMap)"
  by code_simp

end
