(* ===== verification/Warn.thy ===== *)
theory Warn
  imports Go_Net
begin

text \<open>
  \<^verbatim>\<open>pkg/parent/warn.go\<close>: the warnings of the parent about the host. Each function returns the
  warnings that it logs, with the error attached to the entry. \<open>read_file\<close> is \<^verbatim>\<open>os.ReadFile\<close>;
  the mount table is read by moby/sys/mountinfo, whose result (the optional fields of the
  entries for the root) is an argument.
\<close>

type_synonym warning = "string \<times> err option"

definition warnPropagation :: "string list res \<Rightarrow> string \<Rightarrow> warning list" where
  "warnPropagation mounts propagation =
     (case mounts of
        Inl e \<Rightarrow> [(''Failed to parse mountinfo'', Some e)]
      | Inr [] \<Rightarrow> [(''Failed to parse mountinfo'', None)]
      | Inr (root # _) \<Rightarrow>
          if \<not> Contains propagation ''private'' \<and> \<not> Contains root ''shared''
          then [(''The host root filesystem is mounted as '' @ quote root @ ''. Setting child propagation to '' @ quote propagation @
                 '' is not supported.'', None)]
          else [])"

definition unprivileged_userns_clone :: string where
  "unprivileged_userns_clone = ''/proc/sys/kernel/unprivileged_userns_clone''"

definition max_user_namespaces :: string where
  "max_user_namespaces = ''/proc/sys/user/max_user_namespaces''"

definition warnSysctl :: "(string \<Rightarrow> string res) \<Rightarrow> warning list" where
  "warnSysctl read_file =
     (case read_file unprivileged_userns_clone of
        Inl _ \<Rightarrow> []
      | Inr uuc \<Rightarrow>
          (case strconv_Atoi (TrimSpace uuc) of
             Inl e \<Rightarrow> [(''Failed to parse '' @ unprivileged_userns_clone @ '' ('' @ quote (TrimSpace uuc) @ '')'', Some e)]
           | Inr i \<Rightarrow> if i = 0 then [(unprivileged_userns_clone @ '' needs to be set to 1.'', None)] else [])) @
     (case read_file max_user_namespaces of
        Inl _ \<Rightarrow> []
      | Inr mun \<Rightarrow>
          (case strconv_Atoi (TrimSpace mun) of
             Inl e \<Rightarrow> [(''Failed to parse '' @ max_user_namespaces @ '' ('' @ quote (TrimSpace mun) @ '')'', Some e)]
           | Inr i \<Rightarrow>
               if i = 0 then [(max_user_namespaces @ '' needs to be set to non-zero.'', None)]
               else if i < 1024
               then [(max_user_namespaces @ ''='' @ strconv_Itoa i @ '' may be low. Consider setting to >= 1024.'', None)]
               else []))"

definition EACCES :: err where
  "EACCES = Sys ''permission denied''"

definition apparmor_restrict :: string where
  "apparmor_restrict = ''/proc/sys/kernel/apparmor_restrict_unprivileged_userns''"

definition profileName :: "string \<Rightarrow> string" where
  "profileName selfExe = map (\<lambda>c. if c = CHR ''/'' then CHR ''.'' else c) (TrimPrefix selfExe ''/'')"

definition unlines_nl :: "string list \<Rightarrow> string" where
  "unlines_nl ls = Join ls [CHR 0x0A]"

definition apparmor_hint :: string where
  "apparmor_hint = unlines_nl [
     ''Hint: try running the following commands:'',
     [],
     [],
     ''########## BEGIN ##########'',
     ''cat <<EOT | sudo tee '' @ [CHR 0x22] @ ''/etc/apparmor.d/%s'' @ [CHR 0x22],
     ''# ref: https://ubuntu.com/blog/ubuntu-23-10-restricted-unprivileged-user-namespaces'',
     ''abi <abi/4.0>,'',
     ''include <tunables/global>'',
     [],
     ''%s flags=(unconfined) {'',
     ''  userns,'',
     [],
     ''  # Site-specific additions and overrides. See local/README for details.'',
     ''  include if exists <local/%s>'',
     ''}'',
     ''EOT'',
     ''sudo systemctl restart apparmor.service'',
     ''########## END ##########'',
     [],
     []]"

definition warnOnChildStartFailure :: "(string \<Rightarrow> string res) \<Rightarrow> string res \<Rightarrow> err \<Rightarrow> warning list" where
  "warnOnChildStartFailure read_file executable childStartErr =
     (if errors_Is childStartErr EACCES then
        (case read_file apparmor_restrict of
           Inl _ \<Rightarrow> []
         | Inr b \<Rightarrow>
             (case strconv_Atoi (TrimSpace b) of
                Inl e \<Rightarrow> [(''Failed to parse '' @ apparmor_restrict @ '' ('' @ quote (TrimSpace b) @ '')'', Some e)]
              | Inr i \<Rightarrow>
                  if i = 1 then
                    (let (selfExe, ws) = (case executable of
                            Inr x \<Rightarrow> (x, [])
                          | Inl e \<Rightarrow> (''/usr/local/bin/rootlesskit'',
                              [(''Failed to detect the path of the rootlesskit binary, assuming it to be '' @
                                quote ''/usr/local/bin/rootlesskit'', Some e)])) in
                     [(''This error might have happened because '' @ apparmor_restrict @ '' is set to 1'', Some childStartErr)] @ ws @
                     [(render apparmor_hint [profileName selfExe, selfExe, profileName selfExe], None)])
                  else []))
      else [])"

text \<open>
  A host that allows user namespaces is not warned about: the first file is absent or non-zero, the
  second absent or at least 1024.
\<close>

definition sysctl_fine :: "(int \<Rightarrow> bool) \<Rightarrow> string res \<Rightarrow> bool" where
  "sysctl_fine P r \<longleftrightarrow> (case r of Inl _ \<Rightarrow> True | Inr s \<Rightarrow> (case strconv_Atoi (TrimSpace s) of Inl _ \<Rightarrow> False | Inr i \<Rightarrow> P i))"

lemma warnSysctl_quiet:
  "warnSysctl read_file = [] \<longleftrightarrow>
     sysctl_fine (\<lambda>i. i \<noteq> 0) (read_file unprivileged_userns_clone) \<and> sysctl_fine (\<lambda>i. i \<noteq> 0 \<and> 1024 \<le> i) (read_file max_user_namespaces)"
  by (auto simp: warnSysctl_def sysctl_fine_def split: sum.splits)

text \<open>The name of the profile holds no slash, so that it names a file of the profile directory.\<close>

lemma profileName_no_slash: "CHR ''/'' \<notin> set (profileName exe)"
  by (auto simp: profileName_def)

end
