(* ===== verification/Handshake_Sys.thy ===== *)
theory Handshake_Sys
  imports Handshake
begin

text \<open>
  The composition of parent and child as a step relation. The child program starts when the
  parent's first start of a process succeeds, and starts again when it re-executes itself.
  A read from an empty pipe blocks: the child reads the end of the stream once the parent has
  returned, but the parent keeps the writing end of the second pipe open itself, so it never
  does. The wait for the exit of the child blocks until the child has returned. The lists
  of sent and received messages and of the id-map commands are only recorded.
\<close>

record sys =
  s_par :: "unit res prog"
  s_chi :: "unit res prog option"
  s_pipe :: reader
  s_pipe2 :: reader
  s_exec :: bool
  s_sent :: "Message list"
  s_got :: "Message list"
  s_sent2 :: "Message list"
  s_got2 :: "Message list"
  s_runs :: "string list list"

definition init_sys :: "unit res prog \<Rightarrow> sys" where
  "init_sys p = \<lparr>s_par = p, s_chi = None, s_pipe = [], s_pipe2 = [], s_exec = False,
     s_sent = [], s_got = [], s_sent2 = [], s_got2 = [], s_runs = []\<rparr>"

definition err_ans :: "err \<Rightarrow> ans" where
  "err_ans e = ok_ans\<lparr>a_err := Some e\<rparr>"

definition msg_ans :: "Message res \<Rightarrow> ans" where
  "msg_ans r = (case r of Inl e \<Rightarrow> err_ans e | Inr m \<Rightarrow> ok_ans\<lparr>a_msg := m\<rparr>)"

definition got_list :: "Message res \<Rightarrow> Message list" where
  "got_list r = (case r of Inl e \<Rightarrow> [] | Inr m \<Rightarrow> [m])"

definition EOF :: err where "EOF = Sys ''EOF''"

text \<open>The calls of the parent that the environment answers, and the successful commands.\<close>

definition env_call :: "sys \<Rightarrow> call \<Rightarrow> ans \<Rightarrow> bool" where
  "env_call s c a \<longleftrightarrow>
     (case c of
        SendMsg p m \<Rightarrow> False
      | WaitMsg p n \<Rightarrow> False
      | Wait pid \<Rightarrow> (case s_chi s of Some (Ret r) \<Rightarrow> True | _ \<Rightarrow> False)
      | StartCmd w x y z \<Rightarrow> s_chi s \<noteq> None \<or> a_err a \<noteq> None
      | _ \<Rightarrow> True)"

definition run_list :: "call \<Rightarrow> ans \<Rightarrow> string list list" where
  "run_list c a = (case c of Run cmd \<Rightarrow> if a_err a = None then [cmd] else [] | _ \<Rightarrow> [])"

text \<open>The calls of the child; the capabilities appear with the second image if \<open>gain\<close> holds.\<close>

definition child_call :: "bool \<Rightarrow> sys \<Rightarrow> call \<Rightarrow> ans \<Rightarrow> bool" where
  "child_call gain s c a \<longleftrightarrow>
     (case c of
        SendMsg p m \<Rightarrow> False
      | WaitMsg p n \<Rightarrow> False
      | Execve p ar \<Rightarrow> a_err a \<noteq> None
      | Capget \<Rightarrow> a_err a = None \<longrightarrow> (a_int a \<noteq> 0) = (gain \<and> s_exec s)
      | _ \<Rightarrow> True)"

inductive hstep :: "bool \<Rightarrow> unit res prog \<Rightarrow> sys \<Rightarrow> sys \<Rightarrow> bool" for gain img where
  parent_send: "s_par s = Do (SendMsg p m) f \<Longrightarrow> Send Buffer_Write m [] = (Inr (), fr) \<Longrightarrow>
    hstep gain img s (s\<lparr>s_par := f ok_ans, s_pipe := s_pipe s @ [fr], s_sent := s_sent s @ [m]\<rparr>)"
| parent_send_err: "s_par s = Do (SendMsg p m) f \<Longrightarrow> Send Buffer_Write m [] = (Inl e, fr) \<Longrightarrow>
    hstep gain img s (s\<lparr>s_par := f (err_ans e)\<rparr>)"
| parent_wait: "s_par s = Do (WaitMsg p n) f \<Longrightarrow> s_pipe2 s \<noteq> [] \<Longrightarrow> WaitFor (s_pipe2 s) n = (r, q) \<Longrightarrow>
    hstep gain img s (s\<lparr>s_par := f (msg_ans r), s_pipe2 := q, s_got2 := s_got2 s @ got_list r\<rparr>)"
| parent_start: "s_par s = Do (StartCmd w x y z) f \<Longrightarrow> s_chi s = None \<Longrightarrow> a_err a = None \<Longrightarrow>
    hstep gain img s (s\<lparr>s_par := f a, s_chi := Some img\<rparr>)"
| parent_call: "s_par s = Do c f \<Longrightarrow> env_call s c a \<Longrightarrow>
    hstep gain img s (s\<lparr>s_par := f a, s_runs := s_runs s @ run_list c a\<rparr>)"
| child_send: "s_chi s = Some (Do (SendMsg p m) f) \<Longrightarrow> Send Buffer_Write m [] = (Inr (), fr) \<Longrightarrow>
    hstep gain img s (s\<lparr>s_chi := Some (f ok_ans), s_pipe2 := s_pipe2 s @ [fr], s_sent2 := s_sent2 s @ [m]\<rparr>)"
| child_send_err: "s_chi s = Some (Do (SendMsg p m) f) \<Longrightarrow> Send Buffer_Write m [] = (Inl e, fr) \<Longrightarrow>
    hstep gain img s (s\<lparr>s_chi := Some (f (err_ans e))\<rparr>)"
| child_wait: "s_chi s = Some (Do (WaitMsg p n) f) \<Longrightarrow> s_pipe s \<noteq> [] \<Longrightarrow> WaitFor (s_pipe s) n = (r, q) \<Longrightarrow>
    hstep gain img s (s\<lparr>s_chi := Some (f (msg_ans r)), s_pipe := q, s_got := s_got s @ got_list r\<rparr>)"
| child_eof: "s_chi s = Some (Do (WaitMsg p n) f) \<Longrightarrow> s_pipe s = [] \<Longrightarrow> s_par s = Ret r \<Longrightarrow>
    hstep gain img s (s\<lparr>s_chi := Some (f (err_ans EOF))\<rparr>)"
| child_exec: "s_chi s = Some (Do (Execve p ar) f) \<Longrightarrow>
    hstep gain img s (s\<lparr>s_chi := Some img, s_exec := True\<rparr>)"
| child_plain: "s_chi s = Some (Do c f) \<Longrightarrow> child_call gain s c a \<Longrightarrow>
    hstep gain img s (s\<lparr>s_chi := Some (f a)\<rparr>)"

definition reachable :: "bool \<Rightarrow> host \<Rightarrow> Opt \<Rightarrow> nat \<Rightarrow> child_Opt \<Rightarrow> sys \<Rightarrow> bool" where
  "reachable gain host opt n copt s \<longleftrightarrow> (hstep gain (Child n copt))\<^sup>*\<^sup>* (init_sys (Parent host opt)) s"

section \<open>The invariant\<close>

definition parent_names :: "string list" where
  "parent_names = [''ParentHello'', ''ParentInitIdmapCompleted'', ''ParentInitNetworkDriverCompleted'', ''ParentInitPortDriverCompleted'']"

definition child_names :: "string list" where
  "child_names = [''ChildHello'', ''ChildInitUserNSCompleted'']"

text \<open>The numbers of messages sent and received at the positions of the roles.\<close>

definition p_sent :: "nat \<Rightarrow> nat" where "p_sent i = [0, 0, 1, 1, 1, 1, 2, 2, 3, 4] ! i"
definition p_got :: "nat \<Rightarrow> nat" where "p_got i = [0, 0, 0, 1, 1, 1, 1, 2, 2, 2] ! i"
definition c_sent :: "nat \<Rightarrow> nat" where "c_sent j = [0, 0, 1, 1, 1, 2, 2, 2] ! j"
definition c_got :: "nat \<Rightarrow> nat" where "c_got j = [0, 1, 1, 2, 2, 2, 3, 4] ! j"

text \<open>A pipe holds the frames that were sent and not yet received, and the messages come in the order of the protocol.\<close>

definition pipe_inv :: "string list \<Rightarrow> Message list \<Rightarrow> Message list \<Rightarrow> reader \<Rightarrow> bool" where
  "pipe_inv names sent got q \<longleftrightarrow>
     length got \<le> length sent \<and> length sent \<le> length names \<and>
     list_all2 deliverable (take (length sent) names) sent \<and>
     got = map arrives (take (length got) sent) \<and> q = map frame_of (drop (length got) sent)"

definition has_run :: "string \<Rightarrow> string list list \<Rightarrow> bool" where
  "has_run nm runs \<longleftrightarrow> (\<exists>as. nm # as \<in> set runs)"

lemma has_run_append [simp]: "has_run nm (runs @ rs) \<longleftrightarrow> has_run nm runs \<or> has_run nm rs"
  by (auto simp: has_run_def)

definition parent_at :: "sys \<Rightarrow> nat \<Rightarrow> bool" where
  "parent_at s i \<longleftrightarrow> conforms (s_par s) i \<and> i \<le> 10 \<and>
     (i < 10 \<longrightarrow> length (s_sent s) = p_sent i \<and> length (s_got2 s) = p_got i) \<and>
     ((i = 0) = (s_chi s = None)) \<and>
     (4 \<le> i \<and> i < 10 \<or> 2 \<le> length (s_sent s) \<longrightarrow> has_run ''newuidmap'' (s_runs s)) \<and>
     (5 \<le> i \<and> i < 10 \<or> 2 \<le> length (s_sent s) \<longrightarrow> has_run ''newgidmap'' (s_runs s))"

definition child_at :: "sys \<Rightarrow> nat \<Rightarrow> bool" where
  "child_at s j \<longleftrightarrow>
     (case s_chi s of None \<Rightarrow> j = 0 | Some c \<Rightarrow> check child_role ended c j) \<and> j \<le> 8 \<and>
     (j < 8 \<longrightarrow> length (s_sent2 s) = c_sent j \<and> length (s_got s) = c_got j \<and> s_exec s = (4 \<le> j)) \<and>
     (s_exec s \<longrightarrow> 2 \<le> length (s_got s))"

definition hinv :: "sys \<Rightarrow> bool" where
  "hinv s \<longleftrightarrow> (\<exists>i. parent_at s i) \<and> (\<exists>j. child_at s j) \<and>
     pipe_inv parent_names (s_sent s) (s_got s) (s_pipe s) \<and>
     pipe_inv child_names (s_sent2 s) (s_got2 s) (s_pipe2 s)"

lemma pipe_inv_send:
  assumes "pipe_inv names sent got q" and "length sent < length names" and "deliverable (names ! length sent) m"
  shows "pipe_inv names (sent @ [m]) got (q @ [frame_of m])"
  using assms
  by (auto simp: pipe_inv_def take_Suc_conv_app_nth intro: list_all2_appendI)

lemma pipe_inv_recv:
  assumes "pipe_inv names sent got q" and "q \<noteq> []"
  shows "length got < length sent \<and> length got < length names \<and>
    WaitFor q (names ! length got) = (Inr (arrives (sent ! length got)), tl q) \<and>
    pipe_inv names sent (got @ [arrives (sent ! length got)]) (tl q)"
proof -
  from assms have lt: "length got < length sent" "length sent \<le> length names" by (auto simp: pipe_inv_def)
  have q: "q = frame_of (sent ! length got) # map frame_of (drop (Suc (length got)) sent)"
    using assms(1) lt by (simp add: pipe_inv_def Cons_nth_drop_Suc [symmetric])
  have "deliverable (names ! length got) (sent ! length got)"
    using assms(1) lt by (auto simp: pipe_inv_def list_all2_conv_all_nth)
  then have "WaitFor q (names ! length got) = (Inr (arrives (sent ! length got)), tl q)"
    unfolding q by (simp add: WaitFor_deliverable)
  moreover have "pipe_inv names sent (got @ [arrives (sent ! length got)]) (tl q)"
    using assms(1) lt q unfolding pipe_inv_def by (auto simp: take_Suc_conv_app_nth)
  ultimately show ?thesis using lt by simp
qed

lemma parent_send_position:
  assumes "parent_ok i (SendMsg p m)"
  shows "i < 9 \<and> 1 \<le> i \<and> deliverable (parent_names ! p_sent i) m \<and> p_sent i < 4 \<and> p_sent (Suc i) = Suc (p_sent i) \<and>
    p_got (Suc i) = p_got i \<and> (i = 1 \<and> p_sent i = 0 \<or> 5 \<le> i)"
  using assms by (auto simp: parent_ok_def parent_names_def p_sent_def p_got_def)

lemma parent_wait_position:
  assumes "parent_ok i (WaitMsg p n)"
  shows "i < 9 \<and> 1 \<le> i \<and> n = child_names ! p_got i \<and> p_got i < 2 \<and> p_got (Suc i) = Suc (p_got i) \<and>
    p_sent (Suc i) = p_sent i \<and> (i = 2 \<or> 5 \<le> i)"
  using assms by (auto simp: parent_ok_def child_names_def p_sent_def p_got_def)

lemma child_send_position:
  assumes "child_ok j (SendMsg p m)"
  shows "j < 7 \<and> deliverable (child_names ! c_sent j) m \<and> c_sent j < 2 \<and> c_sent (Suc j) = Suc (c_sent j) \<and>
    c_got (Suc j) = c_got j \<and> (4 \<le> Suc j) = (4 \<le> j)"
  using assms by (auto simp: child_ok_def child_names_def c_sent_def c_got_def)

lemma child_wait_position:
  assumes "child_ok j (WaitMsg p n)"
  shows "j < 7 \<and> n = parent_names ! c_got j \<and> c_got j < 4 \<and> c_got (Suc j) = Suc (c_got j) \<and>
    c_sent (Suc j) = c_sent j \<and> (4 \<le> Suc j) = (4 \<le> j)"
  using assms by (auto simp: child_ok_def parent_names_def c_sent_def c_got_def)

lemma upd_message [simp]:
  "parent_upd i (SendMsg p m) ok_ans = Suc i" "child_upd j (SendMsg p m) ok_ans = Suc j"
  "parent_upd i (WaitMsg p n) (msg_ans (Inr m)) = Suc i" "child_upd j (WaitMsg p n) (msg_ans (Inr m)) = Suc j"
  "child_upd j (WaitMsg p n) (err_ans e) = 8"
  by (simp_all add: parent_upd_def child_upd_def msg_ans_def err_ans_def)

lemma parent_upd_env:
  assumes "env_call s c a" and "parent_ok i c" and "i \<noteq> 0 \<or> s_chi s = None"
  shows "parent_upd i c a = i \<or>
    i = 3 \<and> parent_upd i c a = 4 \<and> has_run ''newuidmap'' (run_list c a) \<or>
    i = 4 \<and> parent_upd i c a = 5 \<and> has_run ''newgidmap'' (run_list c a)"
proof (cases c)
  case (Run cmd)
  then show ?thesis by (cases cmd) (auto simp: parent_upd_def run_list_def has_run_def)
qed (use assms in \<open>auto simp: env_call_def parent_upd_def\<close>)

lemma hinv_init:
  assumes "parent_opt_ok opt"
  shows "hinv (init_sys (Parent host opt))"
proof -
  have "parent_at (init_sys (Parent host opt)) 0"
    using Parent_conforms [OF assms] by (simp add: parent_at_def init_sys_def p_sent_def p_got_def)
  moreover have "child_at (init_sys (Parent host opt)) 0"
    by (simp add: child_at_def init_sys_def c_sent_def c_got_def)
  ultimately show ?thesis unfolding hinv_def by (auto simp: init_sys_def pipe_inv_def)
qed

text \<open>The frame of a step: the half that does not move.\<close>

lemma child_at_cong:
  "s_chi s' = s_chi s \<Longrightarrow> s_exec s' = s_exec s \<Longrightarrow> s_sent2 s' = s_sent2 s \<Longrightarrow> s_got s' = s_got s \<Longrightarrow> child_at s' j = child_at s j"
  by (simp add: child_at_def)

lemma parent_at_cong:
  "s_par s' = s_par s \<Longrightarrow> s_sent s' = s_sent s \<Longrightarrow> s_got2 s' = s_got2 s \<Longrightarrow> s_runs s' = s_runs s \<Longrightarrow>
   (s_chi s' = None) = (s_chi s = None) \<Longrightarrow> parent_at s' i = parent_at s i"
  by (simp add: parent_at_def)

lemma hinvE:
  assumes "hinv s"
  obtains i j where "parent_at s i" "child_at s j" "pipe_inv parent_names (s_sent s) (s_got s) (s_pipe s)"
    "pipe_inv child_names (s_sent2 s) (s_got2 s) (s_pipe2 s)"
  using assms by (auto simp: hinv_def)

lemma hinvI:
  "parent_at s i \<Longrightarrow> child_at s j \<Longrightarrow> pipe_inv parent_names (s_sent s) (s_got s) (s_pipe s) \<Longrightarrow>
   pipe_inv child_names (s_sent2 s) (s_got2 s) (s_pipe2 s) \<Longrightarrow> hinv s"
  by (auto simp: hinv_def)

lemma hinv_parent_send:
  assumes "hinv s" and "s_par s = Do (SendMsg p m) f" and "Send Buffer_Write m [] = (r, fr)"
  shows "r = Inr () \<and> hinv (s\<lparr>s_par := f ok_ans, s_pipe := s_pipe s @ [fr], s_sent := s_sent s @ [m]\<rparr>)"
proof -
  from assms(1) obtain i j where st: "parent_at s i" "child_at s j"
    "pipe_inv parent_names (s_sent s) (s_got s) (s_pipe s)" "pipe_inv child_names (s_sent2 s) (s_got2 s) (s_pipe2 s)"
    by (rule hinvE)
  have ok: "parent_ok i (SendMsg p m)" and next_i: "conforms (f ok_ans) (Suc i)"
    using st(1) assms(2) by (auto simp: parent_at_def dest: spec [of _ ok_ans])
  note pos = parent_send_position [OF ok]
  have fr: "r = Inr ()" "fr = frame_of m" using pos Send_deliverable assms(3) by auto
  have len: "length (s_sent s) = p_sent i" using st(1) pos by (simp add: parent_at_def)
  show ?thesis
  proof (intro conjI)
    show "hinv (s\<lparr>s_par := f ok_ans, s_pipe := s_pipe s @ [fr], s_sent := s_sent s @ [m]\<rparr>)"
    proof (rule hinvI)
      show "parent_at (s\<lparr>s_par := f ok_ans, s_pipe := s_pipe s @ [fr], s_sent := s_sent s @ [m]\<rparr>) (Suc i)"
        using st(1) pos next_i len by (auto simp: parent_at_def)
      show "child_at (s\<lparr>s_par := f ok_ans, s_pipe := s_pipe s @ [fr], s_sent := s_sent s @ [m]\<rparr>) j"
        using st(2) by (simp add: child_at_def)
    qed (use st(3,4) pos len fr in \<open>auto intro!: pipe_inv_send simp: parent_names_def\<close>)
  qed (rule fr(1))
qed

lemma hinv_parent_wait:
  assumes "hinv s" and "s_par s = Do (WaitMsg p n) f" and "s_pipe2 s \<noteq> []" and "WaitFor (s_pipe2 s) n = (r, q)"
  shows "hinv (s\<lparr>s_par := f (msg_ans r), s_pipe2 := q, s_got2 := s_got2 s @ got_list r\<rparr>)"
proof -
  from assms(1) obtain i j where st: "parent_at s i" "child_at s j"
    "pipe_inv parent_names (s_sent s) (s_got s) (s_pipe s)" "pipe_inv child_names (s_sent2 s) (s_got2 s) (s_pipe2 s)"
    by (rule hinvE)
  have ok: "parent_ok i (WaitMsg p n)" and next_i: "\<And>a. conforms (f a) (parent_upd i (WaitMsg p n) a)"
    using st(1) assms(2) by (auto simp: parent_at_def)
  note pos = parent_wait_position [OF ok]
  have len: "length (s_got2 s) = p_got i" using st(1) pos by (simp add: parent_at_def)
  obtain m where m: "r = Inr m" "q = tl (s_pipe2 s)" "pipe_inv child_names (s_sent2 s) (s_got2 s @ [m]) q"
    using pipe_inv_recv [OF st(4) assms(3)] assms(4) pos len by auto
  show ?thesis
  proof (rule hinvI)
    show "parent_at (s\<lparr>s_par := f (msg_ans r), s_pipe2 := q, s_got2 := s_got2 s @ got_list r\<rparr>) (Suc i)"
      using st(1) pos len next_i [of "msg_ans (Inr m)"] m(1) by (auto simp: parent_at_def got_list_def)
    show "child_at (s\<lparr>s_par := f (msg_ans r), s_pipe2 := q, s_got2 := s_got2 s @ got_list r\<rparr>) j"
      using st(2) by (simp add: child_at_def)
  qed (use st(3) m in \<open>simp_all add: got_list_def\<close>)
qed

lemma hinv_parent_call:
  assumes "hinv s" and "s_par s = Do c f" and "env_call s c a"
  shows "hinv (s\<lparr>s_par := f a, s_runs := s_runs s @ run_list c a\<rparr>)"
proof -
  from assms(1) obtain i j where st: "parent_at s i" "child_at s j"
    "pipe_inv parent_names (s_sent s) (s_got s) (s_pipe s)" "pipe_inv child_names (s_sent2 s) (s_got2 s) (s_pipe2 s)"
    by (rule hinvE)
  have ok: "parent_ok i c" and next_i: "conforms (f a) (parent_upd i c a)"
    using st(1) assms(2) by (auto simp: parent_at_def)
  have "i \<noteq> 0 \<or> s_chi s = None" using st(1) by (auto simp: parent_at_def)
  note upd = parent_upd_env [OF assms(3) ok this]
  have "parent_at (s\<lparr>s_par := f a, s_runs := s_runs s @ run_list c a\<rparr>) (parent_upd i c a)"
    using upd
  proof (elim disjE conjE)
    assume "parent_upd i c a = i"
    then show ?thesis using st(1) next_i by (auto simp: parent_at_def)
  next
    assume "i = 3" "parent_upd i c a = 4" "has_run ''newuidmap'' (run_list c a)"
    then show ?thesis using st(1) next_i by (simp add: parent_at_def p_sent_def p_got_def)
  next
    assume "i = 4" "parent_upd i c a = 5" "has_run ''newgidmap'' (run_list c a)"
    then show ?thesis using st(1) next_i by (simp add: parent_at_def p_sent_def p_got_def)
  qed
  then show ?thesis
    by (rule hinvI [where j = j]) (use st in \<open>simp_all add: child_at_def\<close>)
qed

lemma hinv_parent_start:
  assumes "hinv s" and "s_par s = Do (StartCmd w x y z) f" and "s_chi s = None" and "a_err a = None" and "child_opt_ok copt"
  shows "hinv (s\<lparr>s_par := f a, s_chi := Some (Child n copt)\<rparr>)"
proof -
  from assms(1) obtain i j where st: "parent_at s i" "child_at s j"
    "pipe_inv parent_names (s_sent s) (s_got s) (s_pipe s)" "pipe_inv child_names (s_sent2 s) (s_got2 s) (s_pipe2 s)"
    by (rule hinvE)
  have i: "i = 0" and next_i: "conforms (f a) 1"
    using st(1) assms(2,3,4) by (auto simp: parent_at_def parent_upd_def dest: spec [of _ a])
  have j: "j = 0" using st(2) assms(3) by (simp add: child_at_def)
  show ?thesis
  proof (rule hinvI)
    show "parent_at (s\<lparr>s_par := f a, s_chi := Some (Child n copt)\<rparr>) 1"
      using st(1) i next_i by (auto simp: parent_at_def p_sent_def p_got_def)
    show "child_at (s\<lparr>s_par := f a, s_chi := Some (Child n copt)\<rparr>) 0"
      using st(2) j assms(3) Child_conforms [OF assms(5), of 0] by (simp add: child_at_def)
  qed (use st in simp_all)
qed

lemma hinv_child_send:
  assumes "hinv s" and "s_chi s = Some (Do (SendMsg p m) f)" and "Send Buffer_Write m [] = (r, fr)"
  shows "r = Inr () \<and> hinv (s\<lparr>s_chi := Some (f ok_ans), s_pipe2 := s_pipe2 s @ [fr], s_sent2 := s_sent2 s @ [m]\<rparr>)"
proof -
  from assms(1) obtain i j where st: "parent_at s i" "child_at s j"
    "pipe_inv parent_names (s_sent s) (s_got s) (s_pipe s)" "pipe_inv child_names (s_sent2 s) (s_got2 s) (s_pipe2 s)"
    by (rule hinvE)
  have ok: "child_ok j (SendMsg p m)" and next_j: "check child_role ended (f ok_ans) (Suc j)"
    using st(2) assms(2) by (auto simp: child_at_def child_al_def dest: spec [of _ ok_ans])
  note pos = child_send_position [OF ok]
  have fr: "r = Inr ()" "fr = frame_of m" using pos Send_deliverable assms(3) by auto
  have len: "length (s_sent2 s) = c_sent j" using st(2) pos by (simp add: child_at_def)
  show ?thesis
  proof (intro conjI)
    show "hinv (s\<lparr>s_chi := Some (f ok_ans), s_pipe2 := s_pipe2 s @ [fr], s_sent2 := s_sent2 s @ [m]\<rparr>)"
    proof (rule hinvI)
      show "parent_at (s\<lparr>s_chi := Some (f ok_ans), s_pipe2 := s_pipe2 s @ [fr], s_sent2 := s_sent2 s @ [m]\<rparr>) i"
        using st(1) assms(2) by (simp add: parent_at_def)
      show "child_at (s\<lparr>s_chi := Some (f ok_ans), s_pipe2 := s_pipe2 s @ [fr], s_sent2 := s_sent2 s @ [m]\<rparr>) (Suc j)"
        using st(2) pos next_j len by (auto simp: child_at_def)
    qed (use st(3,4) pos len fr in \<open>auto intro!: pipe_inv_send simp: child_names_def\<close>)
  qed (rule fr(1))
qed

lemma hinv_child_wait:
  assumes "hinv s" and "s_chi s = Some (Do (WaitMsg p n) f)" and "s_pipe s \<noteq> []" and "WaitFor (s_pipe s) n = (r, q)"
  shows "hinv (s\<lparr>s_chi := Some (f (msg_ans r)), s_pipe := q, s_got := s_got s @ got_list r\<rparr>)"
proof -
  from assms(1) obtain i j where st: "parent_at s i" "child_at s j"
    "pipe_inv parent_names (s_sent s) (s_got s) (s_pipe s)" "pipe_inv child_names (s_sent2 s) (s_got2 s) (s_pipe2 s)"
    by (rule hinvE)
  have ok: "child_ok j (WaitMsg p n)" and next_j: "\<And>a. check child_role ended (f a) (child_upd j (WaitMsg p n) a)"
    using st(2) assms(2) by (auto simp: child_at_def child_al_def)
  note pos = child_wait_position [OF ok]
  have len: "length (s_got s) = c_got j" using st(2) pos by (simp add: child_at_def)
  obtain m where m: "r = Inr m" "q = tl (s_pipe s)" "pipe_inv parent_names (s_sent s) (s_got s @ [m]) q"
    using pipe_inv_recv [OF st(3) assms(3)] assms(4) pos len by auto
  show ?thesis
  proof (rule hinvI)
    show "parent_at (s\<lparr>s_chi := Some (f (msg_ans r)), s_pipe := q, s_got := s_got s @ got_list r\<rparr>) i"
      using st(1) assms(2) by (simp add: parent_at_def)
    show "child_at (s\<lparr>s_chi := Some (f (msg_ans r)), s_pipe := q, s_got := s_got s @ got_list r\<rparr>) (Suc j)"
      using st(2) pos len next_j [of "msg_ans (Inr m)"] m(1) by (auto simp: child_at_def got_list_def)
  qed (use st(4) m in \<open>simp_all add: got_list_def\<close>)
qed

lemma hinv_child_eof:
  assumes "hinv s" and "s_chi s = Some (Do (WaitMsg p n) f)"
  shows "hinv (s\<lparr>s_chi := Some (f (err_ans EOF))\<rparr>)"
proof -
  from assms(1) obtain i j where st: "parent_at s i" "child_at s j"
    "pipe_inv parent_names (s_sent s) (s_got s) (s_pipe s)" "pipe_inv child_names (s_sent2 s) (s_got2 s) (s_pipe2 s)"
    by (rule hinvE)
  have next_j: "check child_role ended (f (err_ans EOF)) 8"
    using st(2) assms(2) by (auto simp: child_at_def child_al_def dest: spec [of _ "err_ans EOF"])
  show ?thesis
    by (rule hinvI [where i = i and j = 8]) (use st assms(2) next_j in \<open>auto simp: parent_at_def child_at_def\<close>)
qed

lemma hinv_child_exec:
  assumes "hinv s" and "s_chi s = Some (Do (Execve p ar) f)" and "child_opt_ok copt"
  shows "hinv (s\<lparr>s_chi := Some (Child n copt), s_exec := True\<rparr>)"
proof -
  from assms(1) obtain i j where st: "parent_at s i" "child_at s j"
    "pipe_inv parent_names (s_sent s) (s_got s) (s_pipe s)" "pipe_inv child_names (s_sent2 s) (s_got2 s) (s_pipe2 s)"
    by (rule hinvE)
  have "j = 3" using st(2) assms(2) by (simp add: child_at_def child_ok_def)
  then show ?thesis
    using st assms(2) Child_conforms [OF assms(3), of 4]
    by (intro hinvI [where i = i and j = 4]) (auto simp: parent_at_def child_at_def c_sent_def c_got_def)
qed

lemma hinv_child_plain:
  assumes "hinv s" and "s_chi s = Some (Do c f)" and "child_call True s c a"
  shows "hinv (s\<lparr>s_chi := Some (f a)\<rparr>)"
proof -
  from assms(1) obtain i j where st: "parent_at s i" "child_at s j"
    "pipe_inv parent_names (s_sent s) (s_got s) (s_pipe s)" "pipe_inv child_names (s_sent2 s) (s_got2 s) (s_pipe2 s)"
    by (rule hinvE)
  have ok: "child_ok j c" using st(2) assms(2) by (simp add: child_at_def)
  have "s_exec s = (4 \<le> j)" if "c = Capget" using st(2) ok that by (auto simp: child_at_def child_ok_def)
  then have "child_al j c a" using assms(3) ok
    by (auto simp: child_call_def child_al_def child_ok_def split: call.splits)
  then have "check child_role ended (f a) (child_upd j c a)" using st(2) assms(2) by (simp add: child_at_def)
  moreover have "child_upd j c a = j" using assms(3) by (auto simp: child_call_def child_upd_def split: call.splits)
  ultimately show ?thesis
    using st assms(2) by (intro hinvI [where i = i and j = j]) (auto simp: parent_at_def child_at_def)
qed

lemma hinv_step:
  assumes "hstep True (Child n copt) s s'" and "child_opt_ok copt" and "hinv s"
  shows "hinv s'"
  using assms
proof (induction rule: hstep.induct)
  case (parent_send s p m f fr)
  then show ?case using hinv_parent_send by blast
next
  case (parent_send_err s p m f e fr)
  then show ?case using hinv_parent_send by blast
next
  case (child_send_err s p m f e fr)
  then show ?case using hinv_child_send by blast
next
  case (child_send s p m f fr)
  then show ?case using hinv_child_send by blast
qed (blast intro: hinv_parent_wait hinv_parent_start hinv_parent_call hinv_child_wait hinv_child_eof hinv_child_exec
    hinv_child_plain)+

lemma reachable_hinv:
  assumes "reachable True host opt n copt s" and "parent_opt_ok opt" and "child_opt_ok copt"
  shows "hinv s"
  using assms(1) unfolding reachable_def
  by (induction rule: rtranclp_induct) (auto simp: hinv_init [OF assms(2)] intro: hinv_step [OF _ assms(3)])

section \<open>Progress\<close>

definition finished :: "sys \<Rightarrow> bool" where
  "finished s \<longleftrightarrow> (\<exists>r. s_par s = Ret r) \<and> (case s_chi s of None \<Rightarrow> True | Some c \<Rightarrow> \<exists>r. c = Ret r)"

lemma child_plain_moves: "s_chi s = Some (Do c f) \<Longrightarrow> child_call gain s c ok_ans \<Longrightarrow> \<exists>s'. hstep gain img s s'"
  by (blast intro: hstep.child_plain)

lemma parent_call_moves: "s_par s = Do c f \<Longrightarrow> env_call s c ok_ans \<Longrightarrow> \<exists>s'. hstep gain img s s'"
  by (blast intro: hstep.parent_call)

text \<open>The child can always move, unless it has returned or waits at an empty pipe of a live parent.\<close>

lemma child_moves:
  assumes "hinv s" and "s_chi s = Some (Do c f)" and "\<And>p n. c = WaitMsg p n \<Longrightarrow> s_pipe s \<noteq> [] \<or> (\<exists>r. s_par s = Ret r)"
  shows "\<exists>s'. hstep True img s s'"
proof (cases c)
  case (SendMsg p m)
  have c: "s_chi s = Some (Do (SendMsg p m) f)" using assms(2) SendMsg by simp
  obtain r fr where r: "Send Buffer_Write m [] = (r, fr)" by (cases "Send Buffer_Write m []")
  have "r = Inr ()" using hinv_child_send [OF assms(1) c r] by simp
  from hstep.child_send [OF c r [unfolded this]] show ?thesis by blast
next
  case (WaitMsg p n)
  have c: "s_chi s = Some (Do (WaitMsg p n) f)" using assms(2) WaitMsg by simp
  show ?thesis
  proof (cases "s_pipe s = []")
    case True
    then obtain r where "s_par s = Ret r" using assms(3) WaitMsg by blast
    from hstep.child_eof [OF c True this] show ?thesis by blast
  next
    case False
    obtain r q where "WaitFor (s_pipe s) n = (r, q)" by (cases "WaitFor (s_pipe s) n")
    from hstep.child_wait [OF c False this] show ?thesis by blast
  qed
next
  case (Execve p a)
  then show ?thesis using hstep.child_exec assms(2) by blast
next
  case Capget
  have "child_call True s c (ok_ans\<lparr>a_int := if s_exec s then 1 else 0\<rparr>)" using Capget by (simp add: child_call_def)
  then show ?thesis using hstep.child_plain assms(2) by blast
qed (rule child_plain_moves [OF assms(2)], simp add: child_call_def)+

text \<open>The parent can move, unless it has returned, waits at an empty pipe or waits for the exit of a child that has not returned.\<close>

lemma parent_moves:
  assumes "hinv s" and "s_par s = Do c f" and "\<And>p n. c = WaitMsg p n \<Longrightarrow> s_pipe2 s \<noteq> []"
    and "\<And>p. c = Wait p \<Longrightarrow> \<exists>r. s_chi s = Some (Ret r)"
  shows "\<exists>s'. hstep True img s s'"
proof (cases c)
  case (SendMsg p m)
  have c: "s_par s = Do (SendMsg p m) f" using assms(2) SendMsg by simp
  obtain r fr where r: "Send Buffer_Write m [] = (r, fr)" by (cases "Send Buffer_Write m []")
  have "r = Inr ()" using hinv_parent_send [OF assms(1) c r] by simp
  from hstep.parent_send [OF c r [unfolded this]] show ?thesis by blast
next
  case (WaitMsg p n)
  have c: "s_par s = Do (WaitMsg p n) f" using assms(2) WaitMsg by simp
  obtain r q where "WaitFor (s_pipe2 s) n = (r, q)" by (cases "WaitFor (s_pipe2 s) n")
  from hstep.parent_wait [OF c assms(3) [OF WaitMsg] this] show ?thesis by blast
next
  case (StartCmd w x y z)
  have "env_call s c (err_ans EOF)" using StartCmd by (simp add: env_call_def err_ans_def)
  then show ?thesis using hstep.parent_call assms(2) by blast
next
  case (Wait p)
  then have "env_call s c ok_ans" using assms(4) by (auto simp: env_call_def)
  then show ?thesis using hstep.parent_call assms(2) by blast
qed (rule parent_call_moves [OF assms(2)], simp add: env_call_def)+

lemma pipe_inv_empty: "pipe_inv names sent got q \<Longrightarrow> length got < length sent \<Longrightarrow> q \<noteq> []"
  by (simp add: pipe_inv_def)

text \<open>While the parent waits for a message or for the exit of the child, no message the child waits for is missing.\<close>

lemma child_not_starved:
  assumes "hinv s" and "s_chi s = Some (Do (WaitMsg p' n') g)"
    and "s_par s = Do (WaitMsg p n) f \<and> s_pipe2 s = [] \<or> s_par s = Do (Wait pid) f"
  shows "s_pipe s \<noteq> []"
proof -
  from assms(1) obtain i j where st: "parent_at s i" "child_at s j"
    "pipe_inv parent_names (s_sent s) (s_got s) (s_pipe s)" "pipe_inv child_names (s_sent2 s) (s_got2 s) (s_pipe2 s)"
    by (rule hinvE)
  have j: "child_ok j (WaitMsg p' n')" using st(2) assms(2) by (simp add: child_at_def)
  note cpos = child_wait_position [OF j]
  have cl: "length (s_got s) = c_got j" "length (s_sent2 s) = c_sent j" using st(2) cpos by (auto simp: child_at_def)
  from assms(3) have "length (s_got s) < length (s_sent s)"
  proof
    assume w: "s_par s = Do (WaitMsg p n) f \<and> s_pipe2 s = []"
    then have ok: "parent_ok i (WaitMsg p n)" using st(1) by (simp add: parent_at_def)
    have pl: "length (s_sent s) = p_sent i" "length (s_got2 s) = p_got i"
      using st(1) parent_wait_position [OF ok] by (auto simp: parent_at_def)
    have "length (s_sent2 s) \<le> length (s_got2 s)" using st(4) w by (simp add: pipe_inv_def)
    then show ?thesis using pl cl ok j
      by (auto simp: parent_ok_def child_ok_def p_sent_def p_got_def c_sent_def c_got_def)
  next
    assume "s_par s = Do (Wait pid) f"
    then have "i = 9" using st(1) by (simp add: parent_at_def parent_ok_def)
    then have "length (s_sent s) = 4" using st(1) by (simp add: parent_at_def p_sent_def)
    then show ?thesis using cpos cl by simp
  qed
  then show ?thesis using st(3) pipe_inv_empty by blast
qed

lemma child_returned_early:
  assumes "hinv s" and "s_chi s = Some (Ret r)" and "s_par s = Do (WaitMsg p n) f" and "s_pipe2 s = []"
  shows "\<exists>e. r = Inl e"
proof -
  from assms(1) obtain i j where st: "parent_at s i" "child_at s j"
    "pipe_inv parent_names (s_sent s) (s_got s) (s_pipe s)" "pipe_inv child_names (s_sent2 s) (s_got2 s) (s_pipe2 s)"
    by (rule hinvE)
  have ok: "parent_ok i (WaitMsg p n)" using st(1) assms(3) by (simp add: parent_at_def)
  then have "length (s_got2 s) < 2" using st(1) by (auto simp: parent_at_def parent_ok_def p_got_def)
  moreover have "length (s_sent2 s) \<le> length (s_got2 s)" using st(4) assms(4) by (simp add: pipe_inv_def)
  ultimately have "j \<noteq> 7" using st(2) by (auto simp: child_at_def c_sent_def)
  then show ?thesis using st(2) assms(2) by (auto simp: child_at_def ended_def)
qed

lemma sys_progress:
  assumes "parent_opt_ok opt" and "child_opt_ok copt" and "reachable True host opt n copt s"
  shows "(\<exists>s'. hstep True (Child n copt) s s') \<or> finished s \<or>
    (\<exists>e p nm f. s_chi s = Some (Ret (Inl e)) \<and> s_par s = Do (WaitMsg p nm) f \<and> s_pipe2 s = [])"
proof -
  have inv: "hinv s" using assms reachable_hinv by blast
  show ?thesis
  proof (cases "s_par s")
    case (Ret r)
    show ?thesis
    proof (cases "\<exists>c f. s_chi s = Some (Do c f)")
      case True
      then show ?thesis using child_moves [OF inv] Ret by blast
    next
      case False
      then have "finished s" using Ret by (auto simp: finished_def split: option.splits intro: prog.exhaust)
      then show ?thesis by simp
    qed
  next
    case (Do c f)
    show ?thesis
    proof (cases "(\<exists>p n. c = WaitMsg p n \<and> s_pipe2 s = []) \<or> (\<exists>p. c = Wait p \<and> (\<nexists>r. s_chi s = Some (Ret r)))")
      case False
      then show ?thesis using parent_moves [OF inv Do] by blast
    next
      case True
      have "s_chi s \<noteq> None"
      proof -
        from inv obtain i where i: "parent_at s i" by (rule hinvE)
        then have "i \<noteq> 0" using True Do by (auto simp: parent_at_def parent_ok_def)
        then show ?thesis using i by (simp add: parent_at_def)
      qed
      then obtain cp where cp: "s_chi s = Some cp" by blast
      show ?thesis
      proof (cases cp)
        case (Ret r)
        then show ?thesis using True Do cp child_returned_early [OF inv] by blast
      next
        case d: (Do c' g)
        have "s_pipe s \<noteq> []" if "c' = WaitMsg p' n'" for p' n'
          using child_not_starved [OF inv] cp d that True Do by blast
        then show ?thesis using child_moves [OF inv] cp d by blast
      qed
    qed
  qed
qed

text \<open>Absence of deadlock in the handshake. In every reachable state of the parent and the child, for all answers of
  the system, some step is possible, or both have returned, or the child has returned an error
  while the parent waits for one of its messages.\<close>

theorem handshake_progress:
  assumes "parent_opt_ok opt" and "child_opt_ok copt" and "reachable True host opt n copt s"
  shows "(\<exists>s'. hstep True (Child n copt) s s') \<or> finished s \<or>
    (\<exists>e p nm f. s_chi s = Some (Ret (Inl e)) \<and> s_par s = Do (WaitMsg p nm) f \<and> s_pipe2 s = [])"
  using assms by (rule sys_progress)

text \<open>C4: delivery in order. In every reachable state the messages that the child has received are the first ones
  that the parent has sent, in the order of the protocol and with their payloads; a sent
  message that was not received is still in the pipe. The same holds in the other direction.\<close>

theorem handshake_delivery:
  assumes "parent_opt_ok opt" and "child_opt_ok copt" and "reachable True host opt n copt s"
  shows "s_got s = map arrives (take (length (s_got s)) (s_sent s)) \<and>
    s_pipe s = map frame_of (drop (length (s_got s)) (s_sent s)) \<and>
    s_got2 s = map arrives (take (length (s_got2 s)) (s_sent2 s)) \<and>
    s_pipe2 s = map frame_of (drop (length (s_got2 s)) (s_sent2 s)) \<and>
    list_all2 deliverable (take (length (s_sent s)) parent_names) (s_sent s) \<and>
    list_all2 deliverable (take (length (s_sent2 s)) child_names) (s_sent2 s)"
  using reachable_hinv [OF assms(3,1,2)] unfolding hinv_def pipe_inv_def by blast

text \<open>C5: order of the set-up. The child runs its second image, in which it mounts and configures the network, only
  after the parent has run \<^verbatim>\<open>newuidmap\<close> and \<^verbatim>\<open>newgidmap\<close> with success.\<close>

theorem exec_after_idmap:
  assumes "parent_opt_ok opt" and "child_opt_ok copt" and "reachable True host opt n copt s" and "s_exec s"
  shows "has_run ''newuidmap'' (s_runs s) \<and> has_run ''newgidmap'' (s_runs s)"
proof -
  have "hinv s" using assms(1-3) reachable_hinv by blast
  then obtain i j where st: "parent_at s i" "child_at s j" "pipe_inv parent_names (s_sent s) (s_got s) (s_pipe s)"
    by (rule hinvE)
  then have "2 \<le> length (s_sent s)" using assms(4) by (auto simp: child_at_def pipe_inv_def)
  then show ?thesis using st(1) by (simp add: parent_at_def)
qed

end
