(* ===== verification/Handshake_Runs.thy ===== *)
theory Handshake_Runs
  imports Handshake_Sys
begin

text \<open>
  Concrete runs of the composition: a scheduler that is executable and sound for the step
  relation, the states it reaches as instances of the theorems on all runs, and two runs that
  end in a deadlock.
\<close>

section \<open>Segments of runs\<close>

text \<open>A program that is answered by a function for some calls that the environment answers.\<close>

definition plain_call :: "call \<Rightarrow> bool" where
  "plain_call c = (case c of SendMsg p m \<Rightarrow> False | WaitMsg p n \<Rightarrow> False | Wait p \<Rightarrow> False | StartCmd w x y z \<Rightarrow> False
     | Execve p a \<Rightarrow> False | Capget \<Rightarrow> False | _ \<Rightarrow> True)"

fun adv :: "(call \<Rightarrow> ans) \<Rightarrow> nat \<Rightarrow> 'a prog \<Rightarrow> 'a prog option" where
  "adv orc 0 m = Some m"
| "adv orc (Suc n) (Ret x) = None"
| "adv orc (Suc n) (Do c f) = (if plain_call c then adv orc n (f (orc c)) else None)"

definition same_pipes :: "sys \<Rightarrow> sys \<Rightarrow> bool" where
  "same_pipes s s' \<longleftrightarrow> s_pipe s' = s_pipe s \<and> s_pipe2 s' = s_pipe2 s \<and> s_exec s' = s_exec s \<and> s_got s' = s_got s"

lemma adv_parent:
  "adv orc n m = Some m' \<Longrightarrow> s_par s = m \<Longrightarrow>
   \<exists>s'. (hstep gain img)\<^sup>*\<^sup>* s s' \<and> s_par s' = m' \<and> s_chi s' = s_chi s \<and> same_pipes s s'"
proof (induction n arbitrary: m s)
  case 0
  then show ?case by (intro exI [of _ s]) (simp add: same_pipes_def)
next
  case (Suc n)
  then obtain c f where m: "m = Do c f" "plain_call c" "adv orc n (f (orc c)) = Some m'"
    by (cases m) (auto split: if_splits)
  let ?t = "s\<lparr>s_par := f (orc c), s_runs := s_runs s @ run_list c (orc c)\<rparr>"
  have step: "hstep gain img s ?t"
    using m(1,2) Suc.prems(2) by (intro hstep.parent_call) (auto simp: env_call_def plain_call_def split: call.splits)
  obtain s' where s': "(hstep gain img)\<^sup>*\<^sup>* ?t s'" "s_par s' = m'" "s_chi s' = s_chi ?t" "same_pipes ?t s'"
    using Suc.IH [OF m(3), of ?t] by auto
  show ?case
    by (intro exI [of _ s']) (use step s' in \<open>auto simp: same_pipes_def intro: converse_rtranclp_into_rtranclp\<close>)
qed

lemma adv_child:
  "adv orc n m = Some m' \<Longrightarrow> s_chi s = Some m \<Longrightarrow>
   \<exists>s'. (hstep gain img)\<^sup>*\<^sup>* s s' \<and> s_chi s' = Some m' \<and> s_par s' = s_par s \<and> same_pipes s s'"
proof (induction n arbitrary: m s)
  case 0
  then show ?case by (intro exI [of _ s]) (simp add: same_pipes_def)
next
  case (Suc n)
  then obtain c f where m: "m = Do c f" "plain_call c" "adv orc n (f (orc c)) = Some m'"
    by (cases m) (auto split: if_splits)
  let ?t = "s\<lparr>s_chi := Some (f (orc c))\<rparr>"
  have step: "hstep gain img s ?t"
    using m(1,2) Suc.prems(2) by (intro hstep.child_plain) (auto simp: child_call_def plain_call_def split: call.splits)
  obtain s' where s': "(hstep gain img)\<^sup>*\<^sup>* ?t s'" "s_chi s' = Some m'" "s_par s' = s_par ?t" "same_pipes ?t s'"
    using Suc.IH [OF m(3), of ?t] by auto
  show ?case
    by (intro exI [of _ s']) (use step s' in \<open>auto simp: same_pipes_def intro: converse_rtranclp_into_rtranclp\<close>)
qed

section \<open>A configuration\<close>

definition host0 :: host where
  "host0 = \<lparr>h_open_file = (\<lambda>_. Inr ''u:100000:65536''),
     h_getsubids = \<lparr>gs_Getenv = [], gs_LookPath = (\<lambda>_. Inl (Sys ''not found'')), gs_Output = (\<lambda>_ _. Inl (Sys ''none''))\<rparr>,
     h_user = Inr \<lparr>u_Uid = ''1000'', u_Gid = ''1000'', u_Username = ''u''\<rparr>\<rparr>"

definition opt0 :: Opt where
  "opt0 = \<lparr>PipeFDEnvKey = ''P'', ChildUseActivationEnvKey = ''A'', StateDir = ''/s'', StateDirEnvKey = ''S'',
     NetworkDriver = None, PortDriver = None, PublishPorts = [], CreatePIDNS = False, CreateCgroupNS = False,
     CreateUTSNS = False, CreateIPCNS = False, DetachNetNS = False, ParentEUIDEnvKey = [], ParentEGIDEnvKey = [],
     Propagation = [], Opt_EvacuateCgroup2 = [], Opt_SubidSource = ''static''\<rparr>"

definition copt0 :: child_Opt where
  "copt0 = \<lparr>co_PipeFDEnvKey = ''P'', co_RunActivationHelperEnvKey = ''H'', co_ChildUseActivationEnvKey = ''A'',
     co_StateDirEnvKey = ''S'', co_TargetCmd = [''sh''], co_NetworkDriver = None, co_CopyUpDriver = None, co_CopyUpDirs = [],
     co_DetachNetNS = False, co_PortDriver = False, co_MountProcfs = False, co_Propagation = [], co_Reaper = False,
     co_EvacuateCgroup2 = False\<rparr>"

definition env0 :: "string \<Rightarrow> string" where
  "env0 k = (if k = ''P'' then ''3,4'' else if k = ''S'' then ''/s'' else [])"

definition orc0 :: "call \<Rightarrow> ans" where
  "orc0 c = (case c of Getenv k \<Rightarrow> ok_ans\<lparr>a_str := env0 k\<rparr> | _ \<Rightarrow> ok_ans\<lparr>a_int := 1\<rparr>)"

lemma opt0_ok: "parent_opt_ok opt0"
proof -
  have "deliverable ''ParentInitPortDriverCompleted'' (port_Message [])"
    unfolding deliverable_def fits_def
  proof (intro conjI)
    show "wf_Message (port_Message [])" by code_simp
    then show "wf_json (enc_Message (named (port_Message [])))" by (simp add: wf_enc_Message)
    have "length (print_json (enc_Message (named (port_Message [])))) \<le> 300" by code_simp
    then show "length (print_json (enc_Message (named (port_Message [])))) \<le> maxLength" by (simp add: maxLength_def)
    have "U_fields (m_U (port_Message [])) = [''ParentInitPortDriverCompleted'']" by code_simp
    then show "\<exists>ns. U_fields (m_U (port_Message [])) = ''ParentInitPortDriverCompleted'' # ns" by simp
    show "m_Name (port_Message []) = []" by code_simp
  qed
  then show ?thesis by (simp add: parent_opt_ok_def opt0_def)
qed

lemma copt0_ok: "child_opt_ok copt0"
  by (simp add: child_opt_ok_def copt0_def)

section \<open>Evaluation\<close>

text \<open>Continuations are not rewritten before they are reached.\<close>

lemma Do_cong: "c = c' \<Longrightarrow> Do c f = Do c' f"
  by simp

lemma pbind_cong: "m = m' \<Longrightarrow> pbind m k = pbind m' k"
  by simp

lemmas prog_defs = tryp_def tryw_def ignore_def defer_call_def sys_unit_def sys_str_def sys_int_def sys_strs_def sys_msg_def
  get_env_def get_str_of_def get_int_of_def get_strs_of_def send_def wait_for_def

lemmas parent_defs = Parent_def checkPreflight_def createCleanupLock_def LockStateDir_def locked_part_def start_child_def
  setupFilesAndEnv_def id_env_def handshake_def setupUIDGIDMap_def

lemmas child_defs = Child_def hasCaps_def first_execution_def gainCaps_def statPIDNS_def

lemma Sscanf_34: "Sscanf_pair ''3,4'' = Inr (3, 4)"
  by code_simp

lemma idmap0: "\<exists>u g. newugidmapArgs (h_open_file host0) (h_getsubids host0) (h_user host0) ''static'' = Inr (u, g)"
proof -
  have "case newugidmapArgs (h_open_file host0) (h_getsubids host0) (h_user host0) ''static'' of Inr _ \<Rightarrow> True | Inl _ \<Rightarrow> False"
    by code_simp
  then show ?thesis by (auto split: sum.splits)
qed

lemma parent_segments:
  "\<exists>w x y z f g h.
     adv orc0 12 (Parent host0 opt0) = Some (Do (StartCmd w x y z) f) \<and>
     f (ok_ans\<lparr>a_int := 1\<rparr>) = Do (SendMsg ''pipe'' msgParentHello) g \<and>
     g ok_ans = Do (WaitMsg ''pipe2'' ''ChildHello'') h \<and>
     (\<forall>m. \<exists>k l. adv orc0 2 (h (msg_ans (Inr m))) = Some (Do (SendMsg ''pipe'' msgParentInitIdmapCompleted) k) \<and>
        k ok_ans = Do (WaitMsg ''pipe2'' ''ChildInitUserNSCompleted'') l)"
proof -
  obtain u g where id: "newugidmapArgs (h_open_file host0) (h_getsubids host0) (h_user host0) ''static'' = Inr (u, g)"
    using idmap0 by blast
  show ?thesis
    by (simp add: numeral_eq_Suc parent_defs prog_defs opt0_def orc0_def plain_call_def IsAbs_def Let_def id msg_ans_def
        cong: Do_cong pbind_cong)
qed

lemma child_segments:
  "\<exists>f g h k.
     adv orc0 3 (Child 1 copt0) = Some (Do Capget f) \<and>
     f ok_ans = Do (WaitMsg ''pipe'' ''ParentHello'') g \<and>
     (\<forall>m. g (msg_ans (Inr m)) = Do (SendMsg ''pipe2'' msgChildHello) h) \<and>
     h ok_ans = Do (WaitMsg ''pipe'' ''ParentInitIdmapCompleted'') k \<and>
     (\<forall>m. \<exists>p a l. adv orc0 5 (k (msg_ans (Inr m))) = Some (Do (Execve p a) l))"
  by (simp add: numeral_eq_Suc child_defs prog_defs copt0_def orc0_def env0_def plain_call_def Let_def msg_ans_def reexec_env_def
        Sscanf_34 cong: Do_cong pbind_cong)

lemma child_no_env: "\<exists>e. adv (\<lambda>_. ok_ans) 1 (Child 1 copt0) = Some (Ret (Inl e))"
  by (simp add: child_defs prog_defs copt0_def plain_call_def cong: Do_cong pbind_cong)

text \<open>The parent has started the child and waits for its hello.\<close>

lemma reach_started:
  "\<exists>s h. reachable gain host0 opt0 1 copt0 s \<and> s_par s = Do (WaitMsg ''pipe2'' ''ChildHello'') h \<and>
     s_chi s = Some (Child 1 copt0) \<and> s_pipe s = [frame_of msgParentHello] \<and> s_pipe2 s = [] \<and> \<not> s_exec s \<and> s_got s = [] \<and>
     (\<forall>m. \<exists>k l. adv orc0 2 (h (msg_ans (Inr m))) = Some (Do (SendMsg ''pipe'' msgParentInitIdmapCompleted) k) \<and>
        k ok_ans = Do (WaitMsg ''pipe2'' ''ChildInitUserNSCompleted'') l)"
proof -
  let ?H = "hstep gain (Child 1 copt0)"
  obtain w x y z f g h where p: "adv orc0 12 (Parent host0 opt0) = Some (Do (StartCmd w x y z) f)"
    "f (ok_ans\<lparr>a_int := 1\<rparr>) = Do (SendMsg ''pipe'' msgParentHello) g" "g ok_ans = Do (WaitMsg ''pipe2'' ''ChildHello'') h"
    "\<forall>m. \<exists>k l. adv orc0 2 (h (msg_ans (Inr m))) = Some (Do (SendMsg ''pipe'' msgParentInitIdmapCompleted) k) \<and>
        k ok_ans = Do (WaitMsg ''pipe2'' ''ChildInitUserNSCompleted'') l"
    using parent_segments by blast
  obtain s1 where s1: "?H\<^sup>*\<^sup>* (init_sys (Parent host0 opt0)) s1" "s_par s1 = Do (StartCmd w x y z) f" "s_chi s1 = None"
    "same_pipes (init_sys (Parent host0 opt0)) s1"
    using adv_parent [OF p(1), of "init_sys (Parent host0 opt0)" gain "Child 1 copt0"] by (auto simp: init_sys_def)
  define s2 where "s2 = s1\<lparr>s_par := f (ok_ans\<lparr>a_int := 1\<rparr>), s_chi := Some (Child 1 copt0)\<rparr>"
  have h2: "?H s1 s2" unfolding s2_def using s1(2,3) by (rule hstep.parent_start) simp
  define s3 where "s3 = s2\<lparr>s_par := g ok_ans, s_pipe := s_pipe s2 @ [frame_of msgParentHello], s_sent := s_sent s2 @ [msgParentHello]\<rparr>"
  have h3: "?H s2 s3" unfolding s3_def
    by (rule hstep.parent_send [OF _ Send_deliverable [OF deliverable_fixed(1)]]) (simp add: s2_def p(2))
  have "?H\<^sup>*\<^sup>* (init_sys (Parent host0 opt0)) s3" using s1(1) h2 h3 by (meson rtranclp.rtrancl_into_rtrancl)
  then show ?thesis unfolding reachable_def
    by (intro exI [of _ s3] exI [of _ h]) (use s1(4) p(3,4) in \<open>simp add: s3_def s2_def same_pipes_def init_sys_def\<close>)
qed

lemma stuck:
  assumes "s_par s = Do (WaitMsg p n) f" and "s_pipe2 s = []"
    and "s_chi s = Some (Ret r) \<or> s_chi s = Some (Do (WaitMsg p' n') g) \<and> s_pipe s = []"
  shows "\<not> hstep gain img s s'"
proof
  assume "hstep gain img s s'"
  then show False by cases (use assms in \<open>auto simp: env_call_def child_call_def\<close>)
qed


text \<open>The child has re-executed itself and the parent waits for its namespaces.\<close>

text \<open>The child waits for the id maps, which the parent is about to write.\<close>

lemma reach_hello:
  obtains s k l kc where "reachable gain host0 opt0 1 copt0 s" "s_pipe s = []" "s_pipe2 s = []"
    "adv orc0 2 (s_par s) = Some (Do (SendMsg ''pipe'' msgParentInitIdmapCompleted) k)"
    "k ok_ans = Do (WaitMsg ''pipe2'' ''ChildInitUserNSCompleted'') l"
    "s_chi s = Some (Do (WaitMsg ''pipe'' ''ParentInitIdmapCompleted'') kc)"
    "\<And>m. \<exists>p a e. adv orc0 5 (kc (msg_ans (Inr m))) = Some (Do (Execve p a) e)"
proof -
  let ?H = "hstep gain (Child 1 copt0)"
  obtain s h where s: "reachable gain host0 opt0 1 copt0 s" "s_par s = Do (WaitMsg ''pipe2'' ''ChildHello'') h"
    "s_chi s = Some (Child 1 copt0)" "s_pipe s = [frame_of msgParentHello]" "s_pipe2 s = []" "\<not> s_exec s"
    and h: "\<And>m. \<exists>k l. adv orc0 2 (h (msg_ans (Inr m))) = Some (Do (SendMsg ''pipe'' msgParentInitIdmapCompleted) k) \<and>
        k ok_ans = Do (WaitMsg ''pipe2'' ''ChildInitUserNSCompleted'') l"
    using reach_started by blast
  obtain f g hc kc where c: "adv orc0 3 (Child 1 copt0) = Some (Do Capget f)"
    "f ok_ans = Do (WaitMsg ''pipe'' ''ParentHello'') g" "\<And>m. g (msg_ans (Inr m)) = Do (SendMsg ''pipe2'' msgChildHello) hc"
    "hc ok_ans = Do (WaitMsg ''pipe'' ''ParentInitIdmapCompleted'') kc"
    "\<And>m. \<exists>p a l. adv orc0 5 (kc (msg_ans (Inr m))) = Some (Do (Execve p a) l)"
    using child_segments by blast
  obtain s1 where s1: "?H\<^sup>*\<^sup>* s s1" "s_chi s1 = Some (Do Capget f)" "s_par s1 = s_par s" "same_pipes s s1"
    using adv_child [OF c(1) s(3)] by blast
  define s2 where "s2 = s1\<lparr>s_chi := Some (f ok_ans)\<rparr>"
  have h2: "?H s1 s2" unfolding s2_def using s1 s(6) by (intro hstep.child_plain) (auto simp: child_call_def same_pipes_def)
  define s3 where "s3 = s2\<lparr>s_chi := Some (g (msg_ans (Inr (arrives msgParentHello)))), s_pipe := [],
     s_got := s_got s2 @ got_list (Inr (arrives msgParentHello))\<rparr>"
  have h3: "?H s2 s3" unfolding s3_def using s1(4) s(4)
    by (intro hstep.child_wait [where n = "''ParentHello''"])
      (auto simp: s2_def c(2) same_pipes_def WaitFor_deliverable [OF deliverable_fixed(1)])
  define s4 where "s4 = s3\<lparr>s_chi := Some (hc ok_ans), s_pipe2 := s_pipe2 s3 @ [frame_of msgChildHello], s_sent2 := s_sent2 s3 @ [msgChildHello]\<rparr>"
  have h4: "?H s3 s4" unfolding s4_def
    by (rule hstep.child_send [OF _ Send_deliverable [OF deliverable_fixed(3)]]) (simp add: s3_def c(3))
  define s5 where "s5 = s4\<lparr>s_par := h (msg_ans (Inr (arrives msgChildHello))), s_pipe2 := [],
     s_got2 := s_got2 s4 @ got_list (Inr (arrives msgChildHello))\<rparr>"
  have h5: "?H s4 s5" unfolding s5_def using s1(3,4) s(2,5)
    by (intro hstep.parent_wait [where n = "''ChildHello''"])
      (auto simp: s4_def s3_def s2_def same_pipes_def WaitFor_deliverable [OF deliverable_fixed(3)])
  obtain k l where kl: "adv orc0 2 (h (msg_ans (Inr (arrives msgChildHello)))) = Some (Do (SendMsg ''pipe'' msgParentInitIdmapCompleted) k)"
    "k ok_ans = Do (WaitMsg ''pipe2'' ''ChildInitUserNSCompleted'') l" using h by blast
  have "?H\<^sup>*\<^sup>* s s5" using s1(1) h2 h3 h4 h5 by (meson rtranclp.rtrancl_into_rtrancl)
  then have "reachable gain host0 opt0 1 copt0 s5" using s(1) unfolding reachable_def by (meson rtranclp_trans)
  then show thesis
    by (rule that [where k = k and l = l and kc = kc]) (use kl c(5) in \<open>simp_all add: s5_def s4_def s3_def c(4)\<close>)
qed

lemma reach_exec:
  "\<exists>s l. reachable gain host0 opt0 1 copt0 s \<and> s_exec s \<and> s_chi s = Some (Child 1 copt0) \<and> s_pipe s = [] \<and> s_pipe2 s = [] \<and>
     s_par s = Do (WaitMsg ''pipe2'' ''ChildInitUserNSCompleted'') l"
proof -
  let ?H = "hstep gain (Child 1 copt0)"
  obtain s5 k l kc where s5: "reachable gain host0 opt0 1 copt0 s5" "s_pipe s5 = []" "s_pipe2 s5 = []"
    "adv orc0 2 (s_par s5) = Some (Do (SendMsg ''pipe'' msgParentInitIdmapCompleted) k)"
    "k ok_ans = Do (WaitMsg ''pipe2'' ''ChildInitUserNSCompleted'') l"
    "s_chi s5 = Some (Do (WaitMsg ''pipe'' ''ParentInitIdmapCompleted'') kc)"
    and ex5: "\<And>m. \<exists>p a e. adv orc0 5 (kc (msg_ans (Inr m))) = Some (Do (Execve p a) e)"
    by (rule reach_hello [where gain = gain]) (rule that; assumption)
  obtain s6 where s6: "?H\<^sup>*\<^sup>* s5 s6" "s_par s6 = Do (SendMsg ''pipe'' msgParentInitIdmapCompleted) k" "s_chi s6 = s_chi s5" "same_pipes s5 s6"
    using adv_parent [OF s5(4) refl] by auto
  define s7 where "s7 = s6\<lparr>s_par := k ok_ans, s_pipe := s_pipe s6 @ [frame_of msgParentInitIdmapCompleted],
     s_sent := s_sent s6 @ [msgParentInitIdmapCompleted]\<rparr>"
  have h7: "?H s6 s7" unfolding s7_def
    by (rule hstep.parent_send [OF s6(2) Send_deliverable [OF deliverable_fixed(2)]])
  have c7: "s_chi s7 = Some (Do (WaitMsg ''pipe'' ''ParentInitIdmapCompleted'') kc)"
    using s6(3) s5(6) by (simp add: s7_def)
  have p7: "s_pipe s7 = [frame_of msgParentInitIdmapCompleted]" "s_pipe2 s7 = []"
    using s6(4) s5(2,3) by (simp_all add: s7_def same_pipes_def)
  define s8 where "s8 = s7\<lparr>s_chi := Some (kc (msg_ans (Inr (arrives msgParentInitIdmapCompleted)))), s_pipe := [],
     s_got := s_got s7 @ got_list (Inr (arrives msgParentInitIdmapCompleted))\<rparr>"
  have h8: "?H s7 s8" unfolding s8_def
    by (rule hstep.child_wait [OF c7]) (simp_all add: p7 WaitFor_deliverable [OF deliverable_fixed(2)])
  obtain p a e where ex: "adv orc0 5 (kc (msg_ans (Inr (arrives msgParentInitIdmapCompleted)))) = Some (Do (Execve p a) e)"
    using ex5 by blast
  obtain s9 where s9: "?H\<^sup>*\<^sup>* s8 s9" "s_chi s9 = Some (Do (Execve p a) e)" "s_par s9 = s_par s8" "same_pipes s8 s9"
    using adv_child [OF ex, of s8] by (auto simp: s8_def)
  define s10 where "s10 = s9\<lparr>s_chi := Some (Child 1 copt0), s_exec := True\<rparr>"
  have h10: "?H s9 s10" unfolding s10_def using s9(2) by (rule hstep.child_exec)
  have "?H\<^sup>*\<^sup>* s5 s10"
    using s6(1) h7 h8 s9(1) h10
    by (meson rtranclp.rtrancl_into_rtrancl rtranclp_trans)
  then have "reachable gain host0 opt0 1 copt0 s10" using s5(1) unfolding reachable_def by (meson rtranclp_trans)
  then show ?thesis
    by (intro exI [of _ s10] exI [of _ l])
      (use s9(3,4) p7 s5(5) in \<open>simp add: s10_def s8_def s7_def same_pipes_def\<close>)
qed

text \<open>C18: a defect. When the capabilities are still missing after a re-execution, the child does not re-execute itself
  again, as the counter in its environment intends, but waits for a second hello of the
  parent, which waits for the namespaces of the child: a deadlock in which neither has
  returned.\<close>

theorem no_caps_deadlock:
  "\<exists>s g l. reachable False host0 opt0 1 copt0 s \<and> s_chi s = Some (Do (WaitMsg ''pipe'' ''ParentHello'') g) \<and>
     s_par s = Do (WaitMsg ''pipe2'' ''ChildInitUserNSCompleted'') l \<and> (\<nexists>s'. hstep False (Child 1 copt0) s s')"
proof -
  obtain s l where s: "reachable False host0 opt0 1 copt0 s" "s_chi s = Some (Child 1 copt0)" "s_pipe s = []" "s_pipe2 s = []"
    "s_par s = Do (WaitMsg ''pipe2'' ''ChildInitUserNSCompleted'') l"
    using reach_exec by blast
  obtain f g where c: "adv orc0 3 (Child 1 copt0) = Some (Do Capget f)" "f ok_ans = Do (WaitMsg ''pipe'' ''ParentHello'') g"
    using child_segments by blast
  obtain s1 where s1: "(hstep False (Child 1 copt0))\<^sup>*\<^sup>* s s1" "s_chi s1 = Some (Do Capget f)" "s_par s1 = s_par s" "same_pipes s s1"
    using adv_child [OF c(1) s(2)] by blast
  define s2 where "s2 = s1\<lparr>s_chi := Some (f ok_ans)\<rparr>"
  have "hstep False (Child 1 copt0) s1 s2" unfolding s2_def using s1 by (intro hstep.child_plain) (auto simp: child_call_def)
  then have "reachable False host0 opt0 1 copt0 s2" using s(1) s1(1) unfolding reachable_def by (meson rtranclp.rtrancl_into_rtrancl rtranclp_trans)
  moreover have "\<nexists>t. hstep False (Child 1 copt0) s2 t"
    using stuck [of s2] s1 s c(2) by (auto simp: s2_def same_pipes_def)
  ultimately show ?thesis using s1(3) s(5) c(2) by (auto simp: s2_def)
qed

section \<open>Instances of the theorems on all runs\<close>

theorem handshake_progress_witness:
  "\<exists>s. reachable True host0 opt0 1 copt0 s \<and> s_exec s \<and>
    ((\<exists>s'. hstep True (Child 1 copt0) s s') \<or> finished s \<or>
     (\<exists>e p nm f. s_chi s = Some (Ret (Inl e)) \<and> s_par s = Do (WaitMsg p nm) f \<and> s_pipe2 s = []))"
  using reach_exec [of True] handshake_progress [OF opt0_ok copt0_ok] by blast

theorem handshake_delivery_witness:
  "\<exists>s. reachable True host0 opt0 1 copt0 s \<and> s_exec s \<and>
    s_got s = map arrives (take (length (s_got s)) (s_sent s)) \<and>
    s_pipe s = map frame_of (drop (length (s_got s)) (s_sent s))"
  using reach_exec [of True] handshake_delivery [OF opt0_ok copt0_ok] by blast

theorem exec_after_idmap_witness:
  "\<exists>s. reachable True host0 opt0 1 copt0 s \<and> s_exec s \<and>
    has_run ''newuidmap'' (s_runs s) \<and> has_run ''newgidmap'' (s_runs s)"
  using reach_exec [of True] exec_after_idmap [OF opt0_ok copt0_ok] by blast

section \<open>The descriptors\<close>

lemma listen_fds_nonneg: "0 \<le> listen_fds a b"
  by (auto simp: listen_fds_def split: sum.splits)

text \<open>C20: the descriptors of the pipes. The value that the parent puts into the environment of the child, parsed
  by the child, gives two numbers, and the files at these descriptors, which start at 3
  with the first extra file, are the two pipe ends meant for the child, also when
  descriptors of socket activation come before them.\<close>

theorem pipe_fds:
  assumes "run (setupFilesAndEnv r w opt) os h = ((files, env), h')" and "length files < 2 ^ 62"
  shows "\<exists>v a b. PipeFDEnvKey opt @ ''='' @ v \<in> set env \<and> Sscanf_pair v = Inr (a, b) \<and> 3 \<le> a \<and> 3 \<le> b \<and>
    nat (a - 3) < length files \<and> nat (b - 3) < length files \<and> files ! nat (a - 3) = r \<and> files ! nat (b - 3) = w"
proof -
  define n where "n = listen_fds (a_str (os h (Getenv ''LISTEN_PID''))) (a_str (os (h @ [Getenv ''LISTEN_PID'']) (Getenv ''LISTEN_FDS'')))"
  have n: "0 \<le> n" "files = listen_files n @ [r, w]"
    "PipeFDEnvKey opt @ ''='' @ strconv_Itoa (3 + n) @ '','' @ strconv_Itoa (3 + n + 1) \<in> set env"
    using assms(1) listen_fds_nonneg
    by (auto simp: setupFilesAndEnv_def run_bind run_sys_vals Let_def listenFdsStart_def n_def)
  have len: "length (listen_files n) = nat n" by (simp add: listen_files_def)
  have "int64_ok (3 + n)" "int64_ok (3 + n + 1)" using n(1,2) assms(2) len by (simp_all add: int64_ok_def)
  then have "Sscanf_pair (strconv_Itoa (3 + n) @ '','' @ strconv_Itoa (3 + n + 1)) = Inr (3 + n, 3 + n + 1)"
    using n(1) by (intro Sscanf_pair_Itoa) auto
  then show ?thesis using n len
    by (intro exI [of _ "strconv_Itoa (3 + n) @ '','' @ strconv_Itoa (3 + n + 1)"] exI [of _ "3 + n"] exI [of _ "3 + n + 1"])
      (auto simp: nth_append nat_add_distrib)
qed

definition listen_os :: os where
  "listen_os h c = ok_ans\<lparr>a_int := 77, a_str := (if c = Getenv ''LISTEN_PID'' then ''77'' else ''2'')\<rparr>"

theorem pipe_fds_witness:
  "\<exists>v a b. ''P='' @ v \<in> set (snd (fst (run (setupFilesAndEnv ''r'' ''w'' opt0) listen_os []))) \<and> Sscanf_pair v = Inr (a, b) \<and>
     fst (fst (run (setupFilesAndEnv ''r'' ''w'' opt0) listen_os [])) ! nat (a - 3) = ''r''"
proof -
  have a: "strconv_Atoi ''77'' = Inr 77" "strconv_Atoi ''2'' = Inr 2" by code_simp+
  obtain files env h where r: "run (setupFilesAndEnv ''r'' ''w'' opt0) listen_os [] = ((files, env), h)" by (metis prod.collapse)
  then have "files = listen_files 2 @ [''r'', ''w'']"
    by (auto simp: setupFilesAndEnv_def run_bind run_sys_vals Let_def listen_os_def listen_fds_def a)
  then have "length files < 2 ^ 62" by (simp add: listen_files_def)
  with pipe_fds [OF r] r show ?thesis by (auto simp: opt0_def)
qed

end
