(* ===== verification/Spec2Isabelle.thy ===== *)
theory Spec2Isabelle
  imports Flags Disabled Suite_Builtin Rootlessctl Docker_Proxy Tcp_Proxy Port_Loops Net_Loops Sigproxy Warn Handshake_Runs
begin

text \<open>
  Verification of RootlessKit (Go): a development of the whole program, from the command line
  to the bytes on its pipes and sockets. File names are relative to the root of the sources.

  \<^bold>\<open>The program.\<close> \<^verbatim>\<open>rootlesskit\<close> runs a command in a new user namespace. The same binary is
  the parent, which stays outside, and the child, which it starts inside. The two
  processes go through a handshake over two pipes: the child waits while the parent writes
  the id maps, re-executes itself with its new capabilities, and waits while the parent
  configures the network and starts a port driver; then it sets up mounts, copies
  directories up, configures its side of the network and runs the command. The parent serves
  a REST API on a socket of its state directory, through which ports are exposed by the
  port driver, and returns with the exit status of the child. Two more binaries are clients
  of the API: \<^verbatim>\<open>rootlessctl\<close> and \<^verbatim>\<open>rootlesskit-docker-proxy\<close>.

  \<^bold>\<open>How the code is modelled.\<close> Pure Go functions are HOL functions with the names of the code;
  errors are values of type \<open>err\<close> that keep the format, the arguments and the wrapped error;
  a fallible function returns \<open>err + 'a\<close>; a panic is an error made by \<open>go_panic\<close>, or \<open>None\<close>
  where nothing recovers. Go's \<^verbatim>\<open>int\<close> is \<open>int\<close> with \<open>wrap64\<close> where it can overflow, bytes of
  addresses are \<open>8 word\<close>, maps are association lists in insertion order. Code that talks to the
  operating system is a tree of calls and continuations (\<open>Go_Os\<close>): a theorem over all
  environments covers every answer of the system, also every failure. Goroutines are
  step relations whose steps are their channel operations and system calls.

  \<^bold>\<open>Prelude.\<close>
  \<^item> \<open>Rk_Base\<close>: errors, 64-bit integers, maps; \<open>Go_Strings\<close>: package strings and strconv;
    \<open>Go_Net\<close>, \<open>Go_Net6\<close>, \<open>Go_Cidr\<close>: addresses, their texts (every IPv4 and IPv6 address
    survives the trip through its text) and networks; \<open>Go_Json\<close>: encoding/json with the round trip
    of printer and parser; \<open>Go_Scanner\<close>: text/scanner; \<open>Go_Path\<close>: path/filepath; \<open>Go_Os\<close>: programs
    over system calls and a small program logic.

  \<^bold>\<open>Messages and ports.\<close>
  \<^item> \<open>Lowlevelmsgutil\<close> (pkg/lowlevelmsgutil): framing over readers that return any chunks; what was
    sent is received in order, and no read exceeds the bound.
  \<^item> \<open>Messages\<close> (pkg/messages): the message union, \<open>Send\<close>, \<open>Recv\<close>, \<open>WaitFor\<close> and their round trip.
  \<^item> \<open>Port\<close>, \<open>Portutil\<close> (pkg/port, pkg/port/portutil): specifications; the parser is sound and
    inverts the documented format, validation is characterised exactly. The locale \<open>port_manager\<close>
    of \<open>Port\<close> is the contract of \<^verbatim>\<open>port.Manager\<close>; it is interpreted for the builtin, the
    slirp4netns and the gvisor-tap-vsock driver.
  \<^item> \<open>Builtin_Msg\<close>, \<open>Builtin_Parent\<close>, \<open>Builtin_Child\<close> (pkg/port/builtin): requests, both halves of
    the driver, and the interleaving of calls of the parent half (no two ports for one socket).
  \<^item> \<open>Builtin_Path\<close>: both halves composed over the bytes on their socket; where a connection is dialled
    from, with and without \<^verbatim>\<open>source-ip-transparent\<close>, whatever was served before.
  \<^item> \<open>Testsuite\<close> (pkg/port/testsuite): the conformance suite of the port drivers, its client lemmas proved
    in the locale \<open>port_manager\<close>; \<open>Suite_Builtin\<close>: the suite composed with the builtin driver, which
    passes the transparent tests, and what a passing routine shows.
  \<^item> \<open>Tcp_Proxy\<close> (pkg/port/builtin/parent/tcp): accepting, handing over, copying in both
    directions; bytes arrive in order and complete, a stopped connection is torn down; a
    connection accepted during the removal of its port is lost, which is a defect.
  \<^item> \<open>Udp_Proxy\<close>, \<open>Port_Loops\<close> (pkg/port/builtin/parent/udp, the accept loop of the child):
    connection tracking and the stop of the loops.
  \<^item> \<open>Slirp_Port\<close>, \<open>Gvisor_Port\<close> (pkg/port/slirp4netns, pkg/port/gvisortapvsock): the other two
    port drivers.

  \<^bold>\<open>The REST API.\<close>
  \<^item> \<open>Rest_Api\<close> (pkg/httputil, pkg/api/router, the port operations of pkg/api/client): the API is
    transparent, for every port manager. \<open>Api_Client\<close>: the rest of the client with the
    decoding of the information structures, and the locale \<open>api_manager\<close>, the contract of a port
    manager behind the API, interpreted for the builtin driver.
  \<^item> \<open>Rootlessctl\<close> (cmd/rootlessctl): the four commands with their output; removing with the
    printed ids undoes adding. \<open>Docker_Proxy\<close> (cmd/rootlesskit-docker-proxy): the port it
    exposes is removed on every way it ends.

  \<^bold>\<open>Parent and child.\<close>
  \<^item> \<open>Subids\<close> (pkg/parent/idtools, dynidtools, the id maps of pkg/parent), \<open>Cgrouputil\<close>
    (pkg/parent/cgrouputil), \<open>Common\<close> (pkg/common, pkg/network/parentutils), \<open>Iputils\<close>, \<open>Copyup\<close>
    (pkg/copyup/tmpfssymlink), \<open>Warn\<close> (pkg/parent/warn.go), \<open>Sigproxy\<close> (pkg/sigproxy).
  \<^item> \<open>Network\<close>, \<open>Gvisor_Net\<close>, \<open>Net_Loops\<close> (pkg/network): the drivers none, slirp4netns, pasta,
    lxc-user-nic, vpnkit and gvisor-tap-vsock with their background loops. The locale
    \<open>network_driver\<close> says that a driver only makes calls that leave the handshake alone and
    that its message can be delivered; it is interpreted for every driver but vpnkit, whose
    message holds strings of a third party.
  \<^item> \<open>Rk_Parent\<close>, \<open>Rk_Child\<close> (pkg/parent, pkg/child): the two programs; cleanup, descriptors, reaper.
  \<^item> \<open>Handshake\<close>, \<open>Handshake_Sys\<close>, \<open>Handshake_Runs\<close>: each program against its role in the protocol,
    their composition over byte pipes, its invariant (delivery, order, progress) and concrete
    runs, two of them deadlocks of the code.
  \<^item> \<open>Exit_Status\<close>: how a wait status becomes an exit code.

  \<^bold>\<open>The command line.\<close>
  \<^item> \<open>Cli\<close> (cmd/rootlesskit): the roles of the binary, the options of parent and child, the unshare
    helper and the activation helper; \<open>Flags\<close>: the declared options, their defaults and the
    help text; \<open>Disabled\<close>: the stubs of drivers left out of the build.
  \<^item> This theory: the composition of the command line with the handshake, and the way of an exit code
    through both processes.

  \<^bold>\<open>Bounds and fuel.\<close> Loops that may run for ever have fuel: the reaper (\<open>runAndReap\<close>: number of
    signals), \<open>waitForReadyFD\<close>, \<open>waitForVPNKit\<close>, \<open>dhcp_exchange\<close> (number of polls or retries) and
    \<open>dhcpRenewRoutine\<close> (number of leases). Theorems about them hold for every fuel, and that the
    reaper returns is proved for every fuel above the number of signals it needs. The JSON
    parser has twice the length of the text as fuel, which the round trip shows to be
    enough for everything printed. Handshake theorems assume a state directory of at most 4096
    bytes (PATH_MAX) and an interface name of at most 900, so that messages stay below the
    maximal length of 64 KiB.

  \<^bold>\<open>Parameters.\<close> Third-party packages are arguments: the matcher of gorilla/mux, the answers of the
    gvisor virtual network, of slirp4netns and of vpnkit's vmnet, DHCP packets, control-message
    parsing, the mount table, \<^verbatim>\<open>getsubids\<close>. What is assumed of them is their documented
    behaviour (\<open>mux_documented\<close>, \<open>fresh_ids\<close>, \<open>plugins_ok\<close>), and each assumption has an instance.

  \<^bold>\<open>Not modelled.\<close> The parser of the command line (urfave/cli), logging, timeouts of HTTP and UDP as
    durations, the mutex around the stored information of the network drivers, the help template of the
    command line, and \<^verbatim>\<open>httpServe\<close> of the gvisor port driver, which nothing calls. The two concurrent
    routines of a test in \<open>Testsuite\<close> enter as their joint outcome; that concurrent calls keep the table
    of the driver sound is shown in \<open>Builtin_Parent\<close>. Texts are valid UTF-8, and \<^verbatim>\<open>%q\<close> is modelled on printable text.
\<close>

section \<open>Properties of the whole program\<close>



text \<open>C2: the exit code of the command is the exit code of RootlessKit. When the wait of the child answers with
  the status of a command that exited with a code, the child exits with that code, and when the
  wait of the parent answers with that status, so does the parent, whatever happens elsewhere
  in the two runs.\<close>

theorem exit_code_propagates:
  assumes "parent_opt_ok opt" and "child_opt_ok copt" and "0 \<le> n" and "n < 256"
    and "run (Child k copt) cos [] = (rc, c1 @ Wait p # c2)" and "a_err (cos c1 (Wait p)) = Some (WaitErr t (wait_status n))"
    and "run (Parent host opt) pos [] = (rp, p1 @ Wait q # p2)"
    and "a_err (pos p1 (Wait q)) = Some (WaitErr t' (wait_status (exit_code rc)))"
  shows "exit_code rc = n \<and> exit_code rp = n"
proof
  show c: "exit_code rc = n" using exit_code_reported [OF Child_reported [OF assms(2)] assms(5) assms(3,4,6)] .
  show "exit_code rp = n" using exit_code_reported [OF Parent_reported [OF assms(1)] assms(7) assms(3,4)] assms(8) c by simp
qed


definition cmd_os :: os where
  "cmd_os h c = (case c of Getenv k \<Rightarrow> ok_ans\<lparr>a_str := env0 k\<rparr>
     | Wait p \<Rightarrow> ok_ans\<lparr>a_err := Some (WaitErr ''exit status 7'' (wait_status 7))\<rparr> | _ \<Rightarrow> ok_ans\<lparr>a_int := 1\<rparr>)"

lemma child_waits: "Wait 1 \<in> set (snd (run (Child 1 copt0) cmd_os []))"
  by (simp add: child_defs prog_defs copt0_def cmd_os_def env0_def Let_def Sscanf_34 second_execution_def setup_and_run_def
    setMountPropagation_def propagationStates_def setupCopyDir_def mountSysfs_def setupNet_def run_target_def createCmd_def
    setupFiles_def runWithoutReap_def cong: Do_cong pbind_cong)

lemma parent_waits: "Wait 1 \<in> set (snd (run (Parent host0 opt0) cmd_os []))"
proof -
  obtain u g where id: "newugidmapArgs (h_open_file host0) (h_getsubids host0) (h_user host0) ''static'' = Inr (u, g)"
    using idmap0 by blast
  show ?thesis
    by (simp add: parent_defs prog_defs opt0_def cmd_os_def IsAbs_def Let_def id run_network_def run_ports_def ports_ready_def
        serve_until_exit_def listenServeAPI_def cong: Do_cong pbind_cong)
qed

theorem exit_code_propagates_witness:
  "exit_code (fst (run (Child 1 copt0) cmd_os [])) = 7 \<and> exit_code (fst (run (Parent host0 opt0) cmd_os [])) = 7"
proof -
  obtain c1 c2 where c: "run (Child 1 copt0) cmd_os [] = (fst (run (Child 1 copt0) cmd_os []), c1 @ Wait 1 # c2)"
    using split_list [OF child_waits] by (metis prod.collapse)
  obtain p1 p2 where p: "run (Parent host0 opt0) cmd_os [] = (fst (run (Parent host0 opt0) cmd_os []), p1 @ Wait 1 # p2)"
    using split_list [OF parent_waits] by (metis prod.collapse)
  have e: "a_err (cmd_os h (Wait 1)) = Some (WaitErr ''exit status 7'' (wait_status 7))" for h by (simp add: cmd_os_def)
  have "exit_code (fst (run (Child 1 copt0) cmd_os [])) = 7"
    using exit_code_reported [OF Child_reported [OF copt0_ok] c, of 7] e by simp
  then show ?thesis using exit_code_propagates [OF opt0_ok copt0_ok _ _ c e p] e by simp
qed

end
